(* ===== verification/Prelude.thy ===== *)
theory Prelude
  imports Main "HOL-Library.Word" "HOL-Library.Sublist" "HOL-Library.Char_ord"
    "HOL-Library.Signed_Division"
begin

text \<open>
  Shared vocabulary of the development: the types the components name (bytes,
  strings, C++ exceptions as values), the collections of rewrite rules the component
  proofs use, and the generic facts about lists, words and results that more than one
  component needs.
\<close>

unbundle bit_operations_syntax

section \<open>Collections\<close>

named_theorems frame_simps \<open>equations of the serial framing component\<close>
named_theorems db_simps \<open>equations of the database operations\<close>
named_theorems res_simps \<open>equations of the result type\<close>

section \<open>Types\<close>

type_synonym byte = "8 word"
type_synonym bytes = "byte list"
type_synonym u16 = "16 word"
type_synonym u32 = "32 word"
type_synonym u64 = "64 word"

text \<open>
  The exceptions the program can raise, one constructor per kind the code
  distinguishes by its handlers. \<open>UB\<close> stands for undefined behaviour of C++
  (an access outside a container, an assertion of the JSON library that a release
  build drops): no handler catches it.
\<close>

datatype exn =
    Runtime_error string
  | Logic_error string
  | Length_error string
  | Domain_error string
  | Invalid_argument string
  | Out_of_range string
  | Json_parse_error
  | Json_type_error nat
  | UB string

type_synonym 'a res = "exn + 'a"

definition bind_res :: "'a res \<Rightarrow> ('a \<Rightarrow> 'b res) \<Rightarrow> 'b res" where
  "bind_res m f = (case m of Inl e \<Rightarrow> Inl e | Inr x \<Rightarrow> f x)"

lemma bind_res_simps [simp, res_simps]:
  "bind_res (Inl e) f = Inl e"
  "bind_res (Inr x) f = f x"
  by (simp_all add: bind_res_def)

lemma bind_res_Inr_iff:
  "bind_res m f = Inr y \<longleftrightarrow> (\<exists>x. m = Inr x \<and> f x = Inr y)"
  by (cases m) simp_all

lemma bind_res_Inl_iff:
  "bind_res m f = Inl e \<longleftrightarrow> m = Inl e \<or> (\<exists>x. m = Inr x \<and> f x = Inl e)"
  by (cases m) auto

lemma bind_res_assoc: "bind_res (bind_res m f) g = bind_res m (\<lambda>x. bind_res (f x) g)"
  by (cases m) simp_all

lemma bind_res_cong [fundef_cong]:
  "m = m' \<Longrightarrow> (\<And>x. m' = Inr x \<Longrightarrow> f x = g x) \<Longrightarrow> bind_res m f = bind_res m' g"
  by (cases m') simp_all

text \<open>
  \<open>at\<close> on a vector as a read and as a write, and a loop over a list whose body may throw.
  What \<open>c_str\<close> shows of a string ends at the first NUL.
\<close>

definition vat :: "'a list \<Rightarrow> nat \<Rightarrow> 'a res" where
  "vat xs k = (if k < length xs then Inr (xs ! k) else Inl (Out_of_range ''vector::at''))"

definition vput :: "'a list \<Rightarrow> nat \<Rightarrow> 'a \<Rightarrow> 'a list res" where
  "vput xs k v = (if k < length xs then Inr (xs[k := v]) else Inl (Out_of_range ''vector::at''))"

fun fold_res :: "('a \<Rightarrow> 's \<Rightarrow> 's res) \<Rightarrow> 'a list \<Rightarrow> 's \<Rightarrow> 's res" where
  "fold_res f [] s = Inr s"
| "fold_res f (x # xs) s = bind_res (f x s) (fold_res f xs)"

definition c_str :: "string \<Rightarrow> string" where
  "c_str s = takeWhile (\<lambda>c. c \<noteq> CHR 0x00) s"

lemma vat_Inr [simp]: "k < length xs \<Longrightarrow> vat xs k = Inr (xs ! k)"
  by (simp add: vat_def)

lemma vput_Inr [simp]: "k < length xs \<Longrightarrow> vput xs k v = Inr (xs[k := v])"
  by (simp add: vput_def)

lemma fold_res_append: "fold_res f (xs @ ys) s = bind_res (fold_res f xs s) (fold_res f ys)"
proof (induction xs arbitrary: s)
  case (Cons x xs)
  then show ?case by (cases "f x s") simp_all
qed simp

lemma fold_res_inv:
  assumes "\<And>x s. x \<in> set xs \<Longrightarrow> I s \<Longrightarrow> \<exists>s'. f x s = Inr s' \<and> I s'" "I s"
  shows "\<exists>s'. fold_res f xs s = Inr s' \<and> I s'"
  using assms
proof (induction xs arbitrary: s)
  case (Cons x xs)
  then obtain s1 where "f x s = Inr s1" "I s1" by (meson list.set_intros(1))
  with Cons show ?case by simp
qed simp

section \<open>Words\<close>

lemma bit_1_word [simp]: "bit (1 :: 'a::len word) n \<longleftrightarrow> n = 0"
  by (auto simp: bit_1_iff)

lemma xor_left_cancel [simp]: "(a :: 'a::len word) XOR b = a XOR c \<longleftrightarrow> b = c"
proof
  assume "a XOR b = a XOR c"
  then have "a XOR (a XOR b) = a XOR (a XOR c)" by simp
  then show "b = c" by (simp flip: xor.assoc)
qed simp

lemma xor_eq_0_iff_word: "(a :: 'a::len word) XOR b = 0 \<longleftrightarrow> a = b"
proof
  assume "a XOR b = 0"
  then have "a XOR (a XOR b) = a" by simp
  then show "a = b" by (simp flip: xor.assoc)
qed simp

lemma funpow_inj: "inj f \<Longrightarrow> inj (f ^^ n)" for f :: "'a \<Rightarrow> 'a"
proof (induction n)
  case (Suc n)
  then have "inj (f \<circ> f ^^ n)" by (intro inj_compose) auto
  then show ?case by (simp add: o_def)
qed (simp flip: id_def)

lemma foldl_inj:
  assumes "\<And>b. inj (\<lambda>s. f s b)"
  shows "inj (\<lambda>s. foldl f s xs)"
proof (induction xs)
  case Nil
  show ?case by (simp flip: id_def)
next
  case (Cons x xs)
  have "inj ((\<lambda>s. foldl f s xs) \<circ> (\<lambda>s. f s x))"
    using Cons.IH assms [of x] by (rule inj_compose)
  then show ?case by (simp add: o_def)
qed

lemma unat_ucast_byte [simp]: "unat (ucast x :: u32) = unat x" for x :: byte
proof -
  have "unat x < 2 ^ 8" using unsigned_less [of x] by simp
  then show ?thesis by (simp add: unsigned_ucast_eq take_bit_eq_mod)
qed

lemma byte_eqI:
  fixes a b :: byte
  assumes "bit a 0 = bit b 0" "bit a 1 = bit b 1" "bit a 2 = bit b 2" "bit a 3 = bit b 3"
    "bit a 4 = bit b 4" "bit a 5 = bit b 5" "bit a 6 = bit b 6" "bit a 7 = bit b 7"
  shows "a = b"
proof (rule bit_word_eqI)
  fix n assume "n < LENGTH(8)"
  then have "n = 0 \<or> n = 1 \<or> n = 2 \<or> n = 3 \<or> n = 4 \<or> n = 5 \<or> n = 6 \<or> n = 7" by auto
  then show "bit a n = bit b n" using assms by blast
qed

lemma unat_take_bit_less: "unat (take_bit n x) < 2 ^ n" for x :: "'a::len word"
  by (simp only: unsigned_take_bit_eq take_bit_nat_less_exp)

lemma bit_byte_beyond: "8 \<le> n \<Longrightarrow> \<not> bit x n" for x :: byte
  by (auto dest: bit_imp_le_length)

section \<open>Lists\<close>

lemma upt_Suc_snoc: "[0..<Suc n] = [0..<n] @ [n]"
  by simp

lemma length_concat_map_le:
  "(\<And>x. x \<in> set xs \<Longrightarrow> length (f x) \<le> k) \<Longrightarrow> length (concat (map f xs)) \<le> k * length xs"
  by (induction xs) (auto simp: add_mono)

lemma insort_key_map: "insort_key f (g a) (map g xs) = map g (insort_key (\<lambda>x. f (g x)) a xs)"
  by (induction xs) auto

lemma sort_key_map: "sort_key f (map g xs) = map g (sort_key (\<lambda>x. f (g x)) xs)"
  by (induction xs) (simp_all add: insort_key_map)

lemma insort_key_embed:
  "(\<And>x y. h x \<le> h y \<longleftrightarrow> x \<le> y) \<Longrightarrow> insort_key (\<lambda>x. h (f x)) a xs = insort_key f a xs"
  by (induction xs) auto

lemma sort_key_embed:
  "(\<And>x y. h x \<le> h y \<longleftrightarrow> x \<le> y) \<Longrightarrow> sort_key (\<lambda>x. h (f x)) xs = sort_key f xs"
  by (induction xs) (simp_all add: insort_key_embed)

section \<open>Actions\<close>

text \<open>
  A function that changes a state and may throw: the state it leaves is that of the throw.
\<close>

type_synonym ('w, 'a) act = "'w \<Rightarrow> 'a res \<times> 'w"

definition act_ret :: "'a \<Rightarrow> ('w, 'a) act" where
  "act_ret x w = (Inr x, w)"

definition act_res :: "'a res \<Rightarrow> ('w, 'a) act" where
  "act_res r w = (r, w)"

definition act_bind :: "('w, 'a) act \<Rightarrow> ('a \<Rightarrow> ('w, 'b) act) \<Rightarrow> ('w, 'b) act" where
  "act_bind m f w = (case m w of (Inl e, w') \<Rightarrow> (Inl e, w') | (Inr x, w') \<Rightarrow> f x w')"

fun act_each :: "('a \<Rightarrow> ('w, unit) act) \<Rightarrow> 'a list \<Rightarrow> ('w, unit) act" where
  "act_each f [] = act_ret ()"
| "act_each f (x # xs) = act_bind (f x) (\<lambda>_. act_each f xs)"

lemma act_simps [simp]:
  "act_ret x w = (Inr x, w)"
  "act_res r w = (r, w)"
  by (simp_all add: act_ret_def act_res_def)

lemma act_bind_Inr: "m w = (Inr x, w') \<Longrightarrow> act_bind m f w = f x w'"
  by (simp add: act_bind_def)

lemma act_bind_Inl: "m w = (Inl e, w') \<Longrightarrow> act_bind m f w = (Inl e, w')"
  by (simp add: act_bind_def)

lemma act_bind_simps [simp]:
  "act_bind (act_ret x) f w = f x w"
  "act_bind (act_res (Inr x)) f w = f x w"
  "act_bind (act_res (Inl e)) g w = (Inl e, w)"
  by (simp_all add: act_bind_def)

lemma act_bind_assoc: "act_bind (act_bind m f) g = act_bind m (\<lambda>x. act_bind (f x) g)"
  by (rule ext) (simp add: act_bind_def split: prod.split sum.split)

text \<open>A relation between the states before and after that every part keeps, the whole keeps.\<close>

lemma act_bind_keep:
  assumes "\<And>w. R w (snd (m w))" "\<And>x w. R w (snd (f x w))" "transp R"
  shows "R w (snd (act_bind m f w))"
proof -
  obtain r w' where m: "m w = (r, w')" by (cases "m w")
  with assms(1) [of w] have "R w w'" by simp
  with m assms(2) [where w = w'] assms(3) show ?thesis
    by (cases r) (auto simp: act_bind_def dest: transpD)
qed

section \<open>Invariants of step relations\<close>

text \<open>
  The contract between a step relation and an invariant: every step keeps it. It then holds
  in every state that can be reached from one where it holds.
\<close>

locale inv_system =
  fixes step :: "'s \<Rightarrow> 's \<Rightarrow> bool"
    and inv :: "'s \<Rightarrow> bool"
  assumes keep: "inv s \<Longrightarrow> step s s' \<Longrightarrow> inv s'"
begin

lemma inv_reachable:
  assumes "step\<^sup>*\<^sup>* s s'" "inv s"
  shows "inv s'"
  using assms by (induction rule: rtranclp_induct) (auto intro: keep)

end

end
