(* ===== verification/Floats.thy ===== *)
theory Floats
  imports Complex_Main Prelude
begin

text \<open>
  Floating-point numbers of C++ for the geometry of the monitor: finite values, infinities
  and NaN. The rounding of an exact result to the type of the operation is an argument; it
  gives an infinity on overflow. A zero has no sign and counts as positive in a division.
\<close>

datatype flt = Fin real | Inf bool | NaN

record rounding =
  r32 :: "real \<Rightarrow> flt"
  r64 :: "real \<Rightarrow> flt"

fun f_neg :: "flt \<Rightarrow> flt" where
  "f_neg (Fin x) = Fin (- x)"
| "f_neg (Inf p) = Inf (\<not> p)"
| "f_neg NaN = NaN"

fun f_abs :: "flt \<Rightarrow> flt" where
  "f_abs (Fin x) = Fin \<bar>x\<bar>"
| "f_abs (Inf p) = Inf True"
| "f_abs NaN = NaN"

fun f_add :: "(real \<Rightarrow> flt) \<Rightarrow> flt \<Rightarrow> flt \<Rightarrow> flt" where
  "f_add r (Fin x) (Fin y) = r (x + y)"
| "f_add r (Inf p) (Inf q) = (if p = q then Inf p else NaN)"
| "f_add r (Inf p) (Fin y) = Inf p"
| "f_add r (Fin x) (Inf q) = Inf q"
| "f_add r _ _ = NaN"

definition f_sub :: "(real \<Rightarrow> flt) \<Rightarrow> flt \<Rightarrow> flt \<Rightarrow> flt" where
  "f_sub r a b = f_add r a (f_neg b)"

fun f_mul :: "(real \<Rightarrow> flt) \<Rightarrow> flt \<Rightarrow> flt \<Rightarrow> flt" where
  "f_mul r (Fin x) (Fin y) = r (x * y)"
| "f_mul r (Inf p) (Inf q) = Inf (p = q)"
| "f_mul r (Inf p) (Fin y) = (if y = 0 then NaN else Inf (p = (0 < y)))"
| "f_mul r (Fin x) (Inf q) = (if x = 0 then NaN else Inf (q = (0 < x)))"
| "f_mul r _ _ = NaN"

fun f_div :: "(real \<Rightarrow> flt) \<Rightarrow> flt \<Rightarrow> flt \<Rightarrow> flt" where
  "f_div r (Fin x) (Fin y) =
     (if y \<noteq> 0 then r (x / y) else if x = 0 then NaN else Inf (0 < x))"
| "f_div r (Fin x) (Inf q) = Fin 0"
| "f_div r (Inf p) (Fin y) = Inf (p = (0 \<le> y))"
| "f_div r _ _ = NaN"

fun f_sqrt :: "(real \<Rightarrow> flt) \<Rightarrow> flt \<Rightarrow> flt" where
  "f_sqrt r (Fin x) = (if x < 0 then NaN else r (sqrt x))"
| "f_sqrt r (Inf p) = (if p then Inf True else NaN)"
| "f_sqrt r NaN = NaN"

fun f_hypot :: "(real \<Rightarrow> flt) \<Rightarrow> flt \<Rightarrow> flt \<Rightarrow> flt" where
  "f_hypot r (Inf p) y = Inf True"
| "f_hypot r x (Inf q) = Inf True"
| "f_hypot r (Fin x) (Fin y) = r (sqrt (x * x + y * y))"
| "f_hypot r _ _ = NaN"

text \<open>Conversion of a value to the other type, and the comparisons; NaN compares false.\<close>

fun f_conv :: "(real \<Rightarrow> flt) \<Rightarrow> flt \<Rightarrow> flt" where
  "f_conv r (Fin x) = r x"
| "f_conv r y = y"

fun f_less :: "flt \<Rightarrow> flt \<Rightarrow> bool" where
  "f_less (Fin x) (Fin y) = (x < y)"
| "f_less (Inf p) (Inf q) = (\<not> p \<and> q)"
| "f_less (Inf p) (Fin y) = (\<not> p)"
| "f_less (Fin x) (Inf q) = q"
| "f_less _ _ = False"

definition f_eq0 :: "flt \<Rightarrow> bool" where
  "f_eq0 a = (a = Fin 0)"

definition f_ge :: "flt \<Rightarrow> flt \<Rightarrow> bool" where
  "f_ge a b = (a \<noteq> NaN \<and> b \<noteq> NaN \<and> \<not> f_less a b)"

section \<open>Lemmas\<close>

lemma f_less_irrefl [simp]: "\<not> f_less a a"
  by (cases a) auto

lemma f_less_trans: "f_less a b \<Longrightarrow> f_less b c \<Longrightarrow> f_less a c"
  by (cases a; cases b; cases c) auto

lemma f_less_asym: "f_less a b \<Longrightarrow> \<not> f_less b a"
  by (cases a; cases b) auto

lemma f_less_linear: "a \<noteq> NaN \<Longrightarrow> b \<noteq> NaN \<Longrightarrow> f_less a b \<or> a = b \<or> f_less b a"
  by (cases a; cases b) auto

text \<open>A value below the least of some bounds is below each of them.\<close>

lemma f_not_less_trans: "\<not> f_less b a \<Longrightarrow> f_less c a \<Longrightarrow> b \<noteq> NaN \<Longrightarrow> \<not> f_less b c"
  using f_less_trans by blast

end
