(* ===== verification/Board_Control.thy ===== *)
theory Board_Control
  imports Prelude
begin

text \<open>
  The serial protocol of the LED boards: src/src/metadata/board_control.cpp and .h, and
  the stand-alone time broadcaster src/src/metadata/send_time.cpp.
  Bytes are 8-bit words and the CRC register a 16-bit word, so every shift of the source
  drops the same bits here. The serial line is an argument of the receive loop: what one
  10 ms poll delivers is a \<open>byte option\<close>.
\<close>

section \<open>Constants\<close>

definition DLE :: byte where [frame_simps]: "DLE = 0x10"
definition STX :: byte where [frame_simps]: "STX = 0x02"
definition ETX :: byte where [frame_simps]: "ETX = 0x03"
definition ACK :: byte where [frame_simps]: "ACK = 0xAA"
definition NACK :: byte where [frame_simps]: "NACK = 0x55"
definition CMD_LCD_ON :: byte where [frame_simps]: "CMD_LCD_ON = 0x01"
definition CMD_LCD_OFF :: byte where [frame_simps]: "CMD_LCD_OFF = 0x02"
definition CMD_SYNC_TIME :: byte where [frame_simps]: "CMD_SYNC_TIME = 0x03"

section \<open>CRC functions\<close>

definition reverse :: "byte \<Rightarrow> nat \<Rightarrow> byte" where
  "reverse val bits = foldl (\<lambda>res i. push_bit 1 res OR (drop_bit i val AND 1)) 0 [0..<bits]"

definition reverse16 :: "u16 \<Rightarrow> nat \<Rightarrow> u16" where
  "reverse16 val bits = foldl (\<lambda>res i. push_bit 1 res OR (drop_bit i val AND 1)) 0 [0..<bits]"

definition crc_shift :: "u16 \<Rightarrow> u16" where
  "crc_shift crc = (if crc AND 0x8000 \<noteq> 0 then push_bit 1 crc XOR 0x8005 else push_bit 1 crc)"

definition crc_byte :: "u16 \<Rightarrow> byte \<Rightarrow> u16" where
  "crc_byte crc b = (crc_shift ^^ 8) (crc XOR push_bit 8 (ucast (reverse b 8)))"

definition crc16 :: "bytes \<Rightarrow> u16" where
  "crc16 data = reverse16 (foldl crc_byte 0 data) 16 AND 0xFFFF"

section \<open>Frames\<close>

text \<open>
  The shift count \<open>id - 1\<close> is undefined in C++ for an id below 1; the callers pass the
  ids of \<open>board_info\<close>, 1 to 4.
\<close>

definition dst_mask :: "int \<Rightarrow> byte" where
  "dst_mask board_id = push_bit (nat (board_id - 1)) 1"

definition frame_payload :: "int \<Rightarrow> byte \<Rightarrow> bytes \<Rightarrow> bytes" where
  "frame_payload board_id command extra_data =
     (let payload = [dst_mask board_id, command] @ extra_data;
          crc = crc16 payload
      in payload @ [ucast (drop_bit 8 crc AND 0xFF)] @ [ucast (crc AND 0xFF)])"

definition stuff :: "bytes \<Rightarrow> bytes" where
  "stuff payload = concat (map (\<lambda>b. if b = DLE then [DLE, DLE] else [b]) payload)"

definition encode_frame :: "int \<Rightarrow> byte \<Rightarrow> bytes \<Rightarrow> bytes" where
  "encode_frame board_id command extra_data =
     [DLE, STX] @ stuff (frame_payload board_id command extra_data) @ [DLE] @ [ETX]"

section \<open>The acknowledgement receiver\<close>

text \<open>
  \<open>ack_rx\<close> is the body of the \<open>switch\<close> in \<open>send_frame_with_ack\<close>: it consumes one
  received byte and gives whether the function returns true, the next state and the next
  payload. The \<open>break\<close> after a NACK leaves the \<open>switch\<close> only, so that branch keeps the
  state and the payload.
\<close>

datatype ack_state = WAIT_DLE | WAIT_STX | IN_FRAME | WAIT_ETX

fun ack_rx :: "ack_state \<Rightarrow> bytes \<Rightarrow> byte \<Rightarrow> bool \<times> ack_state \<times> bytes" where
  "ack_rx WAIT_DLE payload rx = (False, if rx = DLE then WAIT_STX else WAIT_DLE, payload)"
| "ack_rx WAIT_STX payload rx =
     (if rx = STX then (False, IN_FRAME, [])
      else if rx \<noteq> DLE then (False, WAIT_DLE, payload)
      else (False, WAIT_STX, payload))"
| "ack_rx IN_FRAME payload rx =
     (if rx = DLE then (False, WAIT_ETX, payload) else (False, IN_FRAME, payload @ [rx]))"
| "ack_rx WAIT_ETX payload rx =
     (if rx = ETX \<and> length payload = 3 then
        let resp_cmd = payload ! 0;
            recv_crc = push_bit 8 (ucast (payload ! 1)) OR ucast (payload ! 2) :: u16;
            calc_crc = crc16 [resp_cmd]
        in if recv_crc = calc_crc \<and> resp_cmd = ACK then (True, WAIT_ETX, payload)
           else if recv_crc = calc_crc \<and> resp_cmd = NACK then (False, WAIT_ETX, payload)
           else (False, WAIT_DLE, [])
      else (False, WAIT_DLE, []))"

text \<open>
  The polling loop: every iteration adds \<open>step_ms\<close> to \<open>waited\<close>, whether or not a byte
  came. The list holds what the successive polls deliver (\<open>None\<close>: \<open>select\<close> or \<open>read\<close>
  gave nothing); a poll past its end delivers nothing.
\<close>

definition step_ms :: int where "step_ms = 10"

function wait_ack :: "int \<Rightarrow> int \<Rightarrow> ack_state \<Rightarrow> bytes \<Rightarrow> byte option list \<Rightarrow> bool" where
  "wait_ack waited timeout_ms state payload polls =
     (if waited < timeout_ms then
        (case polls of
           [] \<Rightarrow> wait_ack (waited + step_ms) timeout_ms state payload []
         | None # rest \<Rightarrow> wait_ack (waited + step_ms) timeout_ms state payload rest
         | Some rx # rest \<Rightarrow>
             (case ack_rx state payload rx of
                (acked, state', payload') \<Rightarrow>
                  if acked then True
                  else wait_ack (waited + step_ms) timeout_ms state' payload' rest))
      else False)"
  by pat_completeness auto
termination
  by (relation "measure (\<lambda>(waited, timeout_ms, _). nat (timeout_ms - waited))")
    (auto simp: step_ms_def)

datatype serial_op = Tcflush | Write bytes | Usleep nat

text \<open>
  The retry loop. \<open>line k\<close> is what the polls of attempt \<open>k\<close> deliver; the result is the
  returned value and the operations done on the port, in order.
\<close>

function ack_attempts ::
  "bytes \<Rightarrow> int \<Rightarrow> int \<Rightarrow> int \<Rightarrow> (int \<Rightarrow> byte option list) \<Rightarrow> bool \<times> serial_op list" where
  "ack_attempts frame attempt retries timeout_ms line =
     (if attempt < retries then
        if wait_ack 0 timeout_ms WAIT_DLE [] (line attempt) then (True, [Tcflush, Write frame])
        else (case ack_attempts frame (attempt + 1) retries timeout_ms line of
                (ok, ops) \<Rightarrow> (ok, [Tcflush, Write frame, Usleep 100000] @ ops))
      else (False, []))"
  by pat_completeness auto
termination
  by (relation "measure (\<lambda>(_, attempt, retries, _). nat (retries - attempt))") auto

definition send_frame_with_ack ::
  "int \<Rightarrow> byte \<Rightarrow> int \<Rightarrow> int \<Rightarrow> (int \<Rightarrow> byte option list) \<Rightarrow> bool \<times> serial_op list" where
  "send_frame_with_ack board_id command retries timeout_ms line =
     ack_attempts (encode_frame board_id command []) 0 retries timeout_ms line"

definition send_lcd_on_with_ack ::
  "int \<Rightarrow> int \<Rightarrow> int \<Rightarrow> (int \<Rightarrow> byte option list) \<Rightarrow> bool \<times> serial_op list" where
  "send_lcd_on_with_ack board_id = send_frame_with_ack board_id CMD_LCD_ON"

definition send_lcd_off_with_ack ::
  "int \<Rightarrow> int \<Rightarrow> int \<Rightarrow> (int \<Rightarrow> byte option list) \<Rightarrow> bool \<times> serial_op list" where
  "send_lcd_off_with_ack board_id = send_frame_with_ack board_id CMD_LCD_OFF"

definition send_frame :: "int \<Rightarrow> byte \<Rightarrow> serial_op list" where
  "send_frame board_id command = [Write (encode_frame board_id command [])]"

definition send_lcd_on :: "int \<Rightarrow> serial_op list" where
  "send_lcd_on board_id = send_frame board_id CMD_LCD_ON"

definition send_lcd_off :: "int \<Rightarrow> serial_op list" where
  "send_lcd_off board_id = send_frame board_id CMD_LCD_OFF"

section \<open>Time synchronisation\<close>

text \<open>The fields of \<open>struct tm\<close> that the code reads, as \<open>localtime\<close> fills them.\<close>

record tm =
  tm_sec :: int
  tm_min :: int
  tm_hour :: int
  tm_mday :: int
  tm_mon :: int
  tm_year :: int

text \<open>
  In \<open>BoardController\<close> the hour is a \<open>uint8_t\<close>, in send_time.cpp an \<open>int\<close> that is
  narrowed when the payload is built.
\<close>

definition time_payload_board :: "tm \<Rightarrow> bytes" where
  "time_payload_board t =
     (let hour = word_of_int (tm_hour t) :: byte;
          is_pm = (hour \<ge> 12);
          hour = (if hour \<ge> 12 then (if hour > 12 then hour - 12 else hour) else hour);
          hour = (if hour = 0 then 12 else hour)
      in [word_of_int (tm_year t smod 100), word_of_int (tm_mon t + 1), word_of_int (tm_mday t),
          hour, word_of_int (tm_min t), word_of_int (tm_sec t), if is_pm then 1 else 0])"

definition time_payload_send :: "tm \<Rightarrow> bytes" where
  "time_payload_send t =
     (let hour = tm_hour t;
          is_pm = (hour \<ge> 12);
          hour = (if hour \<ge> 12 then (if hour > 12 then hour - 12 else hour) else hour);
          hour = (if hour = 0 then 12 else hour)
      in [word_of_int (tm_year t smod 100), word_of_int (tm_mon t + 1), word_of_int (tm_mday t),
          word_of_int hour, word_of_int (tm_min t), word_of_int (tm_sec t),
          if is_pm then 1 else 0])"

definition send_time_sync_from_system :: "int \<Rightarrow> tm \<Rightarrow> bool \<times> serial_op list" where
  "send_time_sync_from_system board_id t =
     (True, [Write (encode_frame board_id CMD_SYNC_TIME (time_payload_board t))])"

definition NUM_BOARDS :: int where "NUM_BOARDS = 4"

definition send_time_encode_frame :: "byte \<Rightarrow> int \<Rightarrow> bytes \<Rightarrow> bytes" where
  "send_time_encode_frame cmd board_id extra_data =
     (let payload = [dst_mask board_id, cmd] @ extra_data;
          crc = crc16 payload;
          payload = payload @ [ucast (drop_bit 8 crc AND 0xFF)] @ [ucast (crc AND 0xFF)]
      in foldl (\<lambda>frame b. if b = DLE then (frame @ [DLE]) @ [DLE] else frame @ [b]) [DLE, STX] payload
           @ [DLE] @ [ETX])"

text \<open>One pass of the broadcaster's endless loop: the frame written to each port.\<close>

definition send_time_round :: "tm \<Rightarrow> (int \<times> bytes) list" where
  "send_time_round t =
     map (\<lambda>board_id. (board_id, send_time_encode_frame CMD_SYNC_TIME board_id (time_payload_send t)))
       [1..NUM_BOARDS]"

section \<open>Specifications\<close>

text \<open>The reflected form of CRC-16 (polynomial \<open>x^16 + x^15 + x^2 + 1\<close>), low bit first.\<close>

definition arc_shift :: "u16 \<Rightarrow> u16" where
  "arc_shift crc = (if bit crc 0 then drop_bit 1 crc XOR 0xA001 else drop_bit 1 crc)"

definition arc_byte :: "u16 \<Rightarrow> byte \<Rightarrow> u16" where
  "arc_byte crc b = (arc_shift ^^ 8) (crc XOR ucast b)"

definition crc16_arc :: "bytes \<Rightarrow> u16" where
  "crc16_arc data = foldl arc_byte 0 data"

text \<open>What a receiver of the frames does: find the end, undo the doubling, check the CRC.\<close>

fun unstuff :: "bytes \<Rightarrow> (bytes \<times> bytes) option" where
  "unstuff (b # rest) =
     (if b = DLE then
        (case rest of
           [] \<Rightarrow> None
         | c # rest' \<Rightarrow>
             if c = DLE then map_option (apfst ((#) DLE)) (unstuff rest')
             else if c = ETX then Some ([], rest')
             else None)
      else map_option (apfst ((#) b)) (unstuff rest))"
| "unstuff [] = None"

definition split_crc :: "bytes \<Rightarrow> (bytes \<times> u16) option" where
  "split_crc p =
     (if length p < 2 then None
      else Some (take (length p - 2) p,
                 push_bit 8 (ucast (p ! (length p - 2))) OR ucast (p ! (length p - 1))))"

definition decode_frame :: "bytes \<Rightarrow> ((byte \<times> byte \<times> bytes) \<times> bytes) option" where
  "decode_frame bs =
     (case bs of
        d # s # body \<Rightarrow>
          if d = DLE \<and> s = STX then
            (case unstuff body of
               None \<Rightarrow> None
             | Some (p, rest) \<Rightarrow>
                 (case split_crc p of
                    Some (dst # cmd # extra, crc) \<Rightarrow>
                      if crc = crc16 (dst # cmd # extra) then Some ((dst, cmd, extra), rest) else None
                  | _ \<Rightarrow> None))
          else None
      | _ \<Rightarrow> None)"

definition received :: "int \<Rightarrow> byte option list \<Rightarrow> bytes" where
  "received timeout_ms polls =
     map the (filter (\<lambda>p. p \<noteq> None) (take (nat ((timeout_ms + (step_ms - 1)) div step_ms)) polls))"

fun ack_run :: "ack_state \<Rightarrow> bytes \<Rightarrow> bytes \<Rightarrow> bool" where
  "ack_run state payload [] = False"
| "ack_run state payload (rx # rest) =
     (case ack_rx state payload rx of
        (acked, state', payload') \<Rightarrow> acked \<or> ack_run state' payload' rest)"

definition nack_frame :: bytes where
  "nack_frame = [DLE, STX, NACK, 0x3F, 0xC0, DLE, ETX]"

definition ack_frame :: bytes where
  "ack_frame = [DLE, STX, ACK, 0x7F, 0x80, DLE, ETX]"

text \<open>What the receiver knows of the bytes read so far.\<close>

fun ack_inv :: "bytes \<Rightarrow> ack_state \<Rightarrow> bytes \<Rightarrow> bool" where
  "ack_inv h WAIT_DLE pl = True"
| "ack_inv h WAIT_STX pl = (\<exists>p. h = p @ [DLE])"
| "ack_inv h IN_FRAME pl = (\<exists>p. h = p @ [DLE, STX] @ pl)"
| "ack_inv h WAIT_ETX pl = ((\<exists>p. h = p @ [DLE, STX] @ pl @ [DLE]) \<or> length pl = 3 \<and> pl ! 0 = NACK)"

section \<open>Bit reversal and the shift register\<close>

lemma bit_foldl_reverse:
  "bit (foldl (\<lambda>res i. push_bit 1 res OR (drop_bit i v AND 1)) 0 [0..<k] :: 'a::len word) n \<longleftrightarrow>
     n < LENGTH('a) \<and> n < k \<and> bit v (k - 1 - n)"
proof (induction k arbitrary: n)
  case 0
  show ?case by simp
next
  case (Suc k)
  show ?case
    by (cases n) (auto simp: bit_simps Suc [unfolded One_nat_def] simp del: push_bit_Suc drop_bit_Suc dest: bit_imp_le_length)
qed

lemma bit_reverse: "bit (reverse v 8) n \<longleftrightarrow> n < 8 \<and> bit v (7 - n)"
  unfolding reverse_def bit_foldl_reverse by auto

lemma bit_reverse16: "bit (reverse16 v 16) n \<longleftrightarrow> n < 16 \<and> bit v (15 - n)"
  unfolding reverse16_def bit_foldl_reverse by auto

lemma reverse_invol [simp]: "reverse (reverse v 8) 8 = v"
  by (rule bit_word_eqI) (auto simp: bit_reverse)

lemma reverse16_invol [simp]: "reverse16 (reverse16 v 16) 16 = v"
  by (rule bit_word_eqI) (auto simp: bit_reverse16)

lemma reverse16_xor: "reverse16 (a XOR b) 16 = reverse16 a 16 XOR reverse16 b 16"
  by (rule bit_word_eqI) (auto simp: bit_reverse16 bit_simps)

lemma reverse16_push: "reverse16 (push_bit 1 a) 16 = drop_bit 1 (reverse16 a 16)"
  by (rule bit_word_eqI)
    (auto simp: bit_reverse16 bit_simps simp del: push_bit_Suc drop_bit_Suc)

lemma and_8000: "x AND 0x8000 \<noteq> 0 \<longleftrightarrow> bit x 15" for x :: u16
  by (simp add: bit_iff_and_push_bit_not_eq_0)

lemma crc_shift_alt: "crc_shift x = push_bit 1 x XOR (if bit x 15 then 0x8005 else 0)"
  unfolding crc_shift_def and_8000 by simp

lemma crc_shift_xor: "crc_shift (x XOR y) = crc_shift x XOR crc_shift y"
  by (simp add: crc_shift_alt push_bit_xor bit_xor_iff ac_simps)

lemma inj_crc_shift: "inj crc_shift"
proof (rule injI)
  fix x y assume "crc_shift x = crc_shift y"
  then have z: "crc_shift (x XOR y) = 0" by (simp add: crc_shift_xor)
  let ?d = "x XOR y"
  have top: "\<not> bit ?d 15"
  proof
    assume "bit ?d 15"
    with z have "push_bit 1 ?d XOR 0x8005 = 0" by (simp add: crc_shift_alt)
    then have "bit (push_bit 1 ?d) 0 = bit (0x8005 :: u16) 0"
      by (metis xor_eq_0_iff_word)
    then show False by (simp only: bit_push_bit_iff) simp
  qed
  with z have p: "push_bit 1 ?d = 0" by (simp add: crc_shift_alt)
  have "?d = 0"
  proof (rule bit_word_eqI)
    fix n assume "n < LENGTH(16)"
    show "bit ?d n \<longleftrightarrow> bit (0 :: u16) n"
    proof (cases "n = 15")
      case False
      with \<open>n < LENGTH(16)\<close> have "bit (push_bit 1 ?d) (Suc n) = bit ?d n"
        by (simp add: bit_simps del: push_bit_Suc)
      with p show ?thesis by simp
    qed (use top in simp)
  qed
  then show "x = y" by (simp add: xor_eq_0_iff_word)
qed

section \<open>The CRC\<close>

lemma reverse16_0 [simp]: "reverse16 0 16 = 0"
  by (rule bit_word_eqI) (simp add: bit_reverse16)

lemma reverse16_8005: "reverse16 0x8005 16 = 0xA001"
  by (simp add: reverse16_def upt_rec)

lemma reverse16_crc_shift: "reverse16 (crc_shift x) 16 = arc_shift (reverse16 x 16)"
proof -
  have "bit (reverse16 x 16) 0 = bit x 15" by (simp add: bit_reverse16)
  then show ?thesis
    by (simp add: crc_shift_alt arc_shift_def reverse16_xor reverse16_push reverse16_8005
        del: push_bit_Suc drop_bit_Suc One_nat_def)
qed

lemma reverse16_crc_shift_pow:
  "reverse16 ((crc_shift ^^ n) x) 16 = (arc_shift ^^ n) (reverse16 x 16)"
  by (induction n arbitrary: x) (simp_all add: reverse16_crc_shift)

lemma reverse16_load: "reverse16 (push_bit 8 (ucast (reverse b 8))) 16 = ucast b"
  by (rule bit_word_eqI)
    (use bit_imp_le_length in \<open>fastforce simp: bit_reverse16 bit_reverse bit_push_bit_iff bit_ucast_iff\<close>)

lemma reverse16_crc_byte: "reverse16 (crc_byte x b) 16 = arc_byte (reverse16 x 16) b"
  unfolding crc_byte_def arc_byte_def reverse16_crc_shift_pow reverse16_xor reverse16_load ..

lemma reverse16_crc_loop:
  "reverse16 (foldl crc_byte x data) 16 = foldl arc_byte (reverse16 x 16) data"
  by (induction data arbitrary: x) (simp_all add: reverse16_crc_byte)

lemma and_FFFF [simp]: "x AND 0xFFFF = x" for x :: u16
proof -
  have "(0xFFFF :: u16) = - 1" by simp
  then have "x AND 0xFFFF = x AND - 1" by (rule arg_cong)
  then show ?thesis by simp
qed

lemma crc16_alt: "crc16 data = reverse16 (foldl crc_byte 0 data) 16"
  by (simp add: crc16_def)

lemma crc16_arc_eq: "crc16 data = crc16_arc data"
  by (simp add: crc16_alt reverse16_crc_loop crc16_arc_def)

lemma inj_reverse16: "inj (\<lambda>x. reverse16 x 16)"
  by (rule inj_on_inverseI [where g = "\<lambda>x. reverse16 x 16"]) simp

lemma crc_shift_pow_eq [simp]: "(crc_shift ^^ n) x = (crc_shift ^^ n) y \<longleftrightarrow> x = y"
  by (rule inj_eq [OF funpow_inj [OF inj_crc_shift]])

lemma inj_crc_byte_state: "inj (\<lambda>s. crc_byte s b)"
  by (rule injI) (simp add: crc_byte_def xor.commute [of _ "push_bit 8 _"])

lemma foldl_crc_byte_eq: "foldl crc_byte s data = foldl crc_byte t data \<longleftrightarrow> s = t"
  by (rule inj_eq [OF foldl_inj]) (rule inj_crc_byte_state)

lemma reverse16_eq: "reverse16 x 16 = reverse16 y 16 \<longleftrightarrow> x = y"
  by (rule inj_eq [OF inj_reverse16])

lemma crc_shift_pow_xor: "(crc_shift ^^ n) (x XOR y) = (crc_shift ^^ n) x XOR (crc_shift ^^ n) y"
  by (induction n arbitrary: x y) (simp_all add: crc_shift_xor)

lemma crc_shift_small:
  "(\<And>k. 15 - n < k \<Longrightarrow> \<not> bit x k) \<Longrightarrow> n \<le> 15 \<Longrightarrow> (crc_shift ^^ n) x = push_bit n x"
proof (induction n arbitrary: x)
  case (Suc n)
  have "\<not> bit x 15" using Suc.prems by auto
  then have "crc_shift x = push_bit 1 x" by (simp add: crc_shift_alt)
  moreover have "(crc_shift ^^ n) (push_bit 1 x) = push_bit n (push_bit 1 x)"
    using Suc.prems by (intro Suc.IH) (auto simp: bit_simps simp del: push_bit_Suc)
  ultimately show ?case
    by (simp add: funpow_Suc_right push_bit_push_bit del: funpow.simps push_bit_Suc One_nat_def flip: Suc_eq_plus1)
qed simp

lemma crc_load_two:
  "crc_byte (crc_byte s a) b =
     (crc_shift ^^ 16) (s XOR (push_bit 8 (ucast (reverse a 8)) XOR ucast (reverse b 8)))"
proof -
  have small: "\<not> bit (ucast (reverse b 8) :: u16) k" if "15 - 8 < k" for k
    using that by (auto simp: bit_ucast_iff bit_reverse)
  have "(crc_shift ^^ 8) (ucast (reverse b 8)) = push_bit 8 (ucast (reverse b 8) :: u16)"
    by (rule crc_shift_small) (use small in auto)
  then have "crc_byte (crc_byte s a) b =
      (crc_shift ^^ 8) ((crc_shift ^^ 8) (s XOR push_bit 8 (ucast (reverse a 8)))
        XOR (crc_shift ^^ 8) (ucast (reverse b 8)))"
    by (simp add: crc_byte_def)
  also have "\<dots> = (crc_shift ^^ (8 + 8))
      (s XOR push_bit 8 (ucast (reverse a 8)) XOR ucast (reverse b 8))"
    by (simp only: crc_shift_pow_xor [symmetric] funpow_add o_apply xor.assoc)
  finally show ?thesis by (simp add: xor.assoc)
qed

lemma join_bytes_inject:
  "push_bit 8 (ucast (a :: byte)) XOR ucast b = (push_bit 8 (ucast c) XOR ucast d :: u16)
     \<longleftrightarrow> a = c \<and> b = d" for b d :: byte
proof
  assume eq: "push_bit 8 (ucast a) XOR ucast b = (push_bit 8 (ucast c) XOR ucast d :: u16)"
  have hi: "bit (push_bit 8 (ucast x) XOR ucast y :: u16) (n + 8) = bit x n" for x y :: byte and n
    by (auto simp: bit_simps dest: bit_imp_le_length)
  have lo: "bit (push_bit 8 (ucast x) XOR ucast y :: u16) n = bit y n" if "n < 8" for x y :: byte and n
    using that by (auto simp: bit_simps)
  have "a = c"
    by (rule bit_word_eqI) (simp add: eq flip: hi [where x = a and y = b] hi [where x = c and y = d])
  moreover have "b = d"
    by (rule bit_word_eqI) (simp add: eq flip: lo [where x = a and y = b] lo [where x = c and y = d])
  ultimately show "a = c \<and> b = d" by simp
qed simp

lemma reverse_inject [simp]: "reverse a 8 = reverse b 8 \<longleftrightarrow> a = b"
  by (metis reverse_invol)

section \<open>Frames\<close>

lemma stuff_simps [simp]:
  "stuff [] = []"
  "stuff (b # bs) = (if b = DLE then [DLE, DLE] else [b]) @ stuff bs"
  by (simp_all add: stuff_def)

lemma DLE_neq [simp]: "DLE \<noteq> STX" "DLE \<noteq> ETX" "STX \<noteq> DLE" "ETX \<noteq> DLE"
  by (simp_all add: DLE_def STX_def ETX_def)

lemma unstuff_stuff: "unstuff (stuff p @ DLE # ETX # rest) = Some (p, rest)"
  by (induction p) simp_all

lemma and_FF: "x AND 0xFF = take_bit 8 x" for x :: u16
  by (simp add: take_bit_eq_mask mask_eq_exp_minus_1)

lemma join_split_u16: "push_bit 8 (ucast (ucast (drop_bit 8 w AND 0xFF) :: byte)) OR
    ucast (ucast (w AND 0xFF) :: byte) = w" for w :: u16
  unfolding and_FF by (rule bit_word_eqI) (auto simp: bit_simps)

lemma split_crc_append:
  "split_crc (p @ [hi, lo]) = Some (p, push_bit 8 (ucast hi) OR ucast lo)"
  by (simp add: split_crc_def nth_append)

lemma foldl_stuff:
  "foldl (\<lambda>frame b. if b = DLE then (frame @ [DLE]) @ [DLE] else frame @ [b]) acc p = acc @ stuff p"
  by (induction p arbitrary: acc) simp_all

section \<open>The acknowledgement receiver\<close>

lemma received_Nil [simp]: "received t [] = []"
  by (simp add: received_def)

lemma polls_left_Suc:
  "w < t \<Longrightarrow> nat ((t - w + (step_ms - 1)) div step_ms)
     = Suc (nat ((t - (w + step_ms) + (step_ms - 1)) div step_ms))"
  unfolding step_ms_def by linarith

lemma received_step:
  assumes "w < t"
  shows "received (t - w) (None # ps) = received (t - (w + step_ms)) ps"
    and "received (t - w) (Some b # ps) = b # received (t - (w + step_ms)) ps"
  by (simp_all add: received_def polls_left_Suc [OF assms])

lemma received_timeout: "t \<le> w \<Longrightarrow> received (t - w) ps = []"
  by (simp add: received_def step_ms_def)

declare wait_ack.simps [simp del]

lemma wait_ack_run: "wait_ack w t st pl polls = ack_run st pl (received (t - w) polls)"
proof (induction w t st pl polls rule: wait_ack.induct)
  case (1 w t st pl polls)
  show ?case
  proof (cases "w < t")
    case False
    then show ?thesis by (simp add: wait_ack.simps received_timeout)
  next
    case True
    show ?thesis
    proof (cases polls)
      case Nil
      with True 1 show ?thesis by (simp add: wait_ack.simps [of w])
    next
      case (Cons p ps)
      show ?thesis
      proof (cases p)
        case None
        with True Cons 1 show ?thesis by (simp add: wait_ack.simps [of w] received_step)
      next
        case (Some rx)
        obtain acked st' pl' where rx: "ack_rx st pl rx = (acked, st', pl')"
          by (cases "ack_rx st pl rx")
        with True Cons Some 1(3) show ?thesis
          by (simp add: wait_ack.simps [of w] received_step)
      qed
    qed
  qed
qed

lemma funpow_8: "(f ^^ 8) x = f (f (f (f (f (f (f (f x)))))))"
  by (simp add: eval_nat_numeral)

lemmas crc_eval = crc16_arc_eq crc16_arc_def arc_byte_def funpow_8 arc_shift_def

lemma crc16_ACK: "crc16 [ACK] = 0x7F80"
  unfolding crc16_arc_eq by (simp add: crc_eval ACK_def)

lemma crc16_NACK: "crc16 [NACK] = 0x3FC0"
  unfolding crc16_arc_eq by (simp add: crc_eval NACK_def)

lemma join_bytes_or:
  "push_bit 8 (ucast (hi :: byte)) OR ucast lo = (push_bit 8 (ucast hi) XOR ucast lo :: u16)"
  for lo :: byte
  by (rule bit_word_eqI) (auto simp: bit_simps dest: bit_imp_le_length)

lemma ack_crc_bytes:
  "push_bit 8 (ucast (hi :: byte)) OR ucast lo = (0x7F80 :: u16) \<longleftrightarrow> hi = 0x7F \<and> lo = 0x80"
  for lo :: byte
proof -
  have "(0x7F80 :: u16) = push_bit 8 (ucast (0x7F :: byte)) XOR ucast (0x80 :: byte)" by simp
  then show ?thesis by (simp only: join_bytes_or join_bytes_inject)
qed

lemma ack_rx_inv:
  assumes "ack_inv h st pl" "ack_rx st pl rx = (False, st', pl')"
  shows "ack_inv (h @ [rx]) st' pl'"
  using assms by (cases st) (auto simp: Let_def split: if_splits)

lemma ACK_neq_NACK [simp]: "ACK \<noteq> NACK" "NACK \<noteq> ACK"
  by (simp_all add: ACK_def NACK_def)

lemma length_3_conv: "length xs = 3 \<longleftrightarrow> (\<exists>a b c. xs = [a, b, c])"
  by (auto simp: numeral_eq_Suc length_Suc_conv)

lemma ack_rx_accepts:
  assumes "ack_inv h st pl" "ack_rx st pl rx = (True, st', pl')"
  shows "\<exists>p. h @ [rx] = p @ ack_frame"
proof (cases st)
  case WAIT_ETX
  with assms(2) have rx: "rx = ETX" and len: "length pl = 3" and cmd: "pl ! 0 = ACK"
    and crc: "push_bit 8 (ucast (pl ! 1)) OR ucast (pl ! 2) = crc16 [pl ! 0]"
    by (auto simp: Let_def split: if_splits)
  from len cmd obtain hi lo where pl: "pl = [ACK, hi, lo]"
    by (auto simp: length_3_conv)
  with crc have "hi = 0x7F" "lo = 0x80" by (simp_all add: crc16_ACK ack_crc_bytes)
  with assms(1) WAIT_ETX pl rx show ?thesis by (auto simp: ack_frame_def)
qed (use assms(2) in \<open>auto split: if_splits\<close>)

lemma ack_run_sound:
  "ack_inv h st pl \<Longrightarrow> ack_run st pl bs \<Longrightarrow> \<exists>pre post. h @ bs = pre @ ack_frame @ post"
proof (induction bs arbitrary: h st pl)
  case (Cons rx bs)
  obtain acked st' pl' where rx: "ack_rx st pl rx = (acked, st', pl')"
    by (cases "ack_rx st pl rx")
  show ?case
  proof (cases acked)
    case True
    with rx Cons.prems(1) obtain p where "h @ [rx] = p @ ack_frame"
      using ack_rx_accepts [of h st pl rx st' pl'] by auto
    then have "h @ rx # bs = p @ ack_frame @ bs" by simp
    then show ?thesis by blast
  next
    case False
    with rx Cons.prems have "ack_inv (h @ [rx]) st' pl'" "ack_run st' pl' bs"
      using ack_rx_inv by auto
    from Cons.IH [OF this] show ?thesis by simp
  qed
qed simp

lemma ack_run_skip: "DLE \<notin> set pre \<Longrightarrow> ack_run WAIT_DLE pl (pre @ bs) = ack_run WAIT_DLE pl bs"
  by (induction pre) auto

lemma ack_run_ack_frame: "ack_run WAIT_DLE pl (ack_frame @ post)"
proof -
  have "push_bit 8 (ucast (0x7F :: byte)) OR ucast (0x80 :: byte) = crc16 [ACK]"
    by (simp add: crc16_ACK ack_crc_bytes)
  then show ?thesis by (simp add: ack_frame_def DLE_def STX_def ETX_def ACK_def)
qed

lemma ack_attempts_acked:
  assumes "a \<le> k" "k < retries" "wait_ack 0 timeout_ms WAIT_DLE [] (line k)"
    and "\<And>j. a \<le> j \<Longrightarrow> j < k \<Longrightarrow> \<not> wait_ack 0 timeout_ms WAIT_DLE [] (line j)"
  shows "ack_attempts frame a retries timeout_ms line =
    (True, concat (replicate (nat (k - a)) [Tcflush, Write frame, Usleep 100000]) @ [Tcflush, Write frame])"
  using assms
proof (induction frame a retries timeout_ms line rule: ack_attempts.induct)
  case (1 frame a retries timeout_ms line)
  show ?case
  proof (cases "a = k")
    case True
    with "1.prems" show ?thesis by simp
  next
    case False
    with "1.prems" have "nat (k - a) = Suc (nat (k - (a + 1)))" by simp
    with False "1.prems" "1.IH" show ?thesis by simp
  qed
qed

lemma ack_attempts_failed:
  assumes "\<And>j. a \<le> j \<Longrightarrow> j < retries \<Longrightarrow> \<not> wait_ack 0 timeout_ms WAIT_DLE [] (line j)"
  shows "ack_attempts frame a retries timeout_ms line =
    (False, concat (replicate (nat (retries - a)) [Tcflush, Write frame, Usleep 100000]))"
  using assms
proof (induction frame a retries timeout_ms line rule: ack_attempts.induct)
  case (1 frame a retries timeout_ms line)
  show ?case
  proof (cases "a < retries")
    case True
    then have "nat (retries - a) = Suc (nat (retries - (a + 1)))" by simp
    with True 1 show ?thesis by simp
  qed simp
qed

declare ack_attempts.simps [simp del]

lemma send_frame_with_ack_eq:
  "send_frame_with_ack board_id command retries timeout_ms line =
     (let f = encode_frame board_id command []; retry = [Tcflush, Write f, Usleep 100000]
      in case find (\<lambda>k. wait_ack 0 timeout_ms WAIT_DLE [] (line k)) [0..retries - 1] of
           Some k \<Rightarrow> (True, concat (replicate (nat k) retry) @ [Tcflush, Write f])
         | None \<Rightarrow> (False, concat (replicate (nat retries) retry)))"
proof (cases "find (\<lambda>k. wait_ack 0 timeout_ms WAIT_DLE [] (line k)) [0..retries - 1]")
  case None
  then have "\<not> wait_ack 0 timeout_ms WAIT_DLE [] (line j)" if "0 \<le> j" "j < retries" for j
    using that by (auto simp: find_None_iff)
  then show ?thesis
    using None by (simp add: send_frame_with_ack_def ack_attempts_failed Let_def)
next
  case (Some k)
  then obtain i where i: "i < length [0..retries - 1]"
      "wait_ack 0 timeout_ms WAIT_DLE [] (line ([0..retries - 1] ! i))"
      "k = [0..retries - 1] ! i"
      "\<And>j. j < i \<Longrightarrow> \<not> wait_ack 0 timeout_ms WAIT_DLE [] (line ([0..retries - 1] ! j))"
    by (auto simp: find_Some_iff)
  then have k: "k = int i" "0 \<le> k" "k < retries" "wait_ack 0 timeout_ms WAIT_DLE [] (line k)"
    by auto
  have "\<not> wait_ack 0 timeout_ms WAIT_DLE [] (line j)" if "0 \<le> j" "j < k" for j
    using that i(4) [of "nat j"] k by simp
  then show ?thesis
    using Some k by (simp add: send_frame_with_ack_def ack_attempts_acked [of 0 k] Let_def)
qed

lemma decode_encode:
  "decode_frame (encode_frame board_id command extra_data @ rest) =
     Some ((dst_mask board_id, command, extra_data), rest)"
proof -
  let ?p = "[dst_mask board_id, command] @ extra_data"
  let ?hi = "ucast (drop_bit 8 (crc16 ?p) AND 0xFF) :: byte"
  let ?lo = "ucast (crc16 ?p AND 0xFF) :: byte"
  have "unstuff (stuff (frame_payload board_id command extra_data) @ DLE # ETX # rest) =
      Some (?p @ [?hi, ?lo], rest)"
    by (simp add: unstuff_stuff frame_payload_def Let_def del: stuff_simps)
  moreover have "split_crc (?p @ [?hi, ?lo]) = Some (?p, crc16 ?p)"
    by (simp only: split_crc_append join_split_u16)
  ultimately show ?thesis
    by (simp add: decode_frame_def encode_frame_def)
qed

lemma received_take: "received t (take (nat ((t + (step_ms - 1)) div step_ms)) polls) = received t polls"
  by (simp add: received_def)

lemma find_cong_on: "(\<And>x. x \<in> set xs \<Longrightarrow> P x = Q x) \<Longrightarrow> find P xs = find Q xs"
  by (induction xs) auto

section \<open>Properties\<close>

text \<open>
  Claim C31: the CRC of board_control.cpp, which reverses every byte, shifts left through
  0x8005 and reverses the result, is the reflected CRC-16 (polynomial 0xA001, initial
  value 0) for every byte string.
\<close>

theorem crc16_reflected: "crc16 data = crc16_arc data"
  by (rule crc16_arc_eq)

text \<open>
  Claim C6: a corruption confined to two neighbouring bytes always changes the CRC: two
  byte strings that agree elsewhere have the same CRC only if they are equal.
\<close>

theorem crc16_detects_burst:
  "crc16 (pre @ [a, b] @ post) = crc16 (pre @ [c, d] @ post) \<longleftrightarrow> a = c \<and> b = d"
  by (simp add: crc16_alt reverse16_eq foldl_crc_byte_eq crc_load_two join_bytes_inject)

text \<open>
  Claim C1: a receiver that follows the framing rules (DLE STX, doubled DLE inside, DLE
  ETX at the end, CRC over mask, command and data) reads from an encoded frame exactly
  the destination mask, command and data it was built from, and stops right after it,
  whatever bytes follow.
\<close>

theorem decode_encode_frame:
  "decode_frame (encode_frame board_id command extra_data @ rest) =
     Some ((dst_mask board_id, command, extra_data), rest)"
  by (rule decode_encode)

text \<open>
  Claim C35: the frame encoder of the time broadcaster, a separate copy of the code, builds
  the same frame as \<open>BoardController::encode_frame\<close>.
\<close>

theorem send_time_encode_frame_eq:
  "send_time_encode_frame cmd board_id extra_data = encode_frame board_id cmd extra_data"
  by (simp add: send_time_encode_frame_def encode_frame_def foldl_stuff frame_payload_def Let_def
      del: stuff_simps)

text \<open>
  Claim C10: one attempt reports success only if a complete acknowledgement frame with a
  correct CRC arrived within the polls the timeout allows.
\<close>

theorem wait_ack_sound:
  "wait_ack 0 timeout_ms WAIT_DLE [] polls \<Longrightarrow>
     \<exists>pre post. received timeout_ms polls = pre @ ack_frame @ post"
  using ack_run_sound [of "[]" WAIT_DLE] by (simp add: wait_ack_run)

theorem wait_ack_sound_witness:
  "\<exists>pre post. received 100 (None # map Some ack_frame) = pre @ ack_frame @ post"
proof -
  have "received 100 (None # map Some ack_frame) = [] @ ack_frame @ []"
    by (simp add: received_def step_ms_def ack_frame_def)
  then have "ack_run WAIT_DLE [] (received 100 (None # map Some ack_frame))"
    using ack_run_ack_frame [of "[]" "[]"] by simp
  then have "wait_ack 0 100 WAIT_DLE [] (None # map Some ack_frame)"
    by (simp add: wait_ack_run)
  then show ?thesis by (rule wait_ack_sound)
qed

text \<open>
  Claim C34: an acknowledgement frame that arrives within the allowed polls after noise
  without a DLE byte makes the attempt succeed.
\<close>

theorem wait_ack_complete:
  "received timeout_ms polls = pre @ ack_frame @ post \<Longrightarrow> DLE \<notin> set pre \<Longrightarrow>
     wait_ack 0 timeout_ms WAIT_DLE [] polls"
  by (simp add: wait_ack_run ack_run_skip ack_run_ack_frame)

theorem wait_ack_complete_witness:
  "wait_ack 0 100 WAIT_DLE [] (Some 0x41 # None # map Some ack_frame)"
proof (rule wait_ack_complete)
  show "received 100 (Some 0x41 # None # map Some ack_frame) = [0x41] @ ack_frame @ []"
    by (simp add: received_def step_ms_def ack_frame_def)
  show "DLE \<notin> set [0x41]" by (simp add: DLE_def)
qed

text \<open>
  Claim C13: \<open>send_frame_with_ack\<close> always returns; it succeeds in the first attempt that
  is acknowledged and writes the frame once per attempt up to that one, or fails after
  exactly \<open>retries\<close> writes.
\<close>

theorem send_frame_with_ack_outcome:
  "send_frame_with_ack board_id command retries timeout_ms line =
     (let f = encode_frame board_id command []; retry = [Tcflush, Write f, Usleep 100000]
      in case find (\<lambda>k. wait_ack 0 timeout_ms WAIT_DLE [] (line k)) [0..retries - 1] of
           Some k \<Rightarrow> (True, concat (replicate (nat k) retry) @ [Tcflush, Write f])
         | None \<Rightarrow> (False, concat (replicate (nat retries) retry)))"
  by (rule send_frame_with_ack_eq)

text \<open>
  Claim C15: \<open>send_frame_with_ack\<close> ends whatever the line delivers: it makes at most \<open>retries\<close>
  attempts and looks at no more than one poll per ten milliseconds of the timeout in each.
\<close>

theorem send_frame_with_ack_terminates:
  "send_frame_with_ack board_id command retries timeout_ms line =
     send_frame_with_ack board_id command retries timeout_ms
       (\<lambda>k. if 0 \<le> k \<and> k < retries then take (nat ((timeout_ms + (step_ms - 1)) div step_ms)) (line k) else [])"
proof -
  have "find (\<lambda>k. wait_ack 0 timeout_ms WAIT_DLE [] (line k)) [0..retries - 1] =
      find (\<lambda>k. wait_ack 0 timeout_ms WAIT_DLE []
        (if 0 \<le> k \<and> k < retries then take (nat ((timeout_ms + (step_ms - 1)) div step_ms)) (line k) else [])) [0..retries - 1]"
    by (rule find_cong_on) (simp add: wait_ack_run received_take)
  then show ?thesis unfolding send_frame_with_ack_eq by (simp only:)
qed



text \<open>
  For every hour of the day the two programs build the same time payload, its
  hour byte is between 1 and 12, and hour byte and PM flag give the 24-hour time back.
\<close>

theorem time_payload_hour:
  assumes "0 \<le> tm_hour t" "tm_hour t < 24"
  shows "time_payload_board t = time_payload_send t \<and>
    1 \<le> uint (time_payload_board t ! 3) \<and> uint (time_payload_board t ! 3) \<le> 12 \<and>
    tm_hour t = uint (time_payload_board t ! 3) mod 12 + 12 * uint (time_payload_board t ! 6)"
proof -
  from assms have "tm_hour t \<in> set [0..23]" by simp
  then show ?thesis
    by (auto simp: upto_rec1 time_payload_board_def time_payload_send_def Let_def)
qed

theorem time_payload_hour_witness:
  "let t = \<lparr>tm_sec = 5, tm_min = 4, tm_hour = 13, tm_mday = 2, tm_mon = 0, tm_year = 125\<rparr>
   in time_payload_board t = [25, 1, 2, 1, 4, 5, 1] \<and> time_payload_send t = [25, 1, 2, 1, 4, 5, 1]"
  using time_payload_hour
    [of "\<lparr>tm_sec = 5, tm_min = 4, tm_hour = 13, tm_mday = 2, tm_mon = 0, tm_year = 125\<rparr>"]
  by (simp add: time_payload_board_def Let_def)

end
