(* ===== verification/Regex.thy ===== *)
theory Regex
  imports Prelude Complex_Main
begin

text \<open>
  The parts of the C++ standard library the parsers of the program use on strings:
  \<open>std::regex\<close> with the ECMAScript grammar (src/metadata_parser.cpp,
  src/metadata/main_control.cpp, src/otp/otp_uri.cpp), \<open>std::string::find\<close>, \<open>stoi\<close>,
  \<open>stof\<close> and \<open>to_string\<close>.
\<close>

section \<open>Regular expressions\<close>

text \<open>
  \<open>re_run\<close> lists the ways to match a prefix of the subject in the order the backtracking
  matcher tries them, each with the rest of the subject and the captured groups. A
  repetition must consume a character in each round.
\<close>

datatype re =
    Eps
  | Cls "char \<Rightarrow> bool"
  | Seq re re
  | Alt re re
  | Star bool re
  | Grp nat re

type_synonym caps = "nat \<Rightarrow> string option"

function re_run :: "re \<Rightarrow> string \<Rightarrow> caps \<Rightarrow> (string \<times> caps) list" where
  "re_run Eps s c = [(s, c)]"
| "re_run (Cls p) s c = (case s of [] \<Rightarrow> [] | x # xs \<Rightarrow> if p x then [(xs, c)] else [])"
| "re_run (Seq a b) s c = concat (map (\<lambda>(s', c'). re_run b s' c') (re_run a s c))"
| "re_run (Alt a b) s c = re_run a s c @ re_run b s c"
| "re_run (Star greedy r) s c =
     (let more = concat (map (\<lambda>(s', c').
            if length s' < length s then re_run (Star greedy r) s' c' else []) (re_run r s c))
      in if greedy then more @ [(s, c)] else (s, c) # more)"
| "re_run (Grp n r) s c =
     map (\<lambda>(s', c'). (s', c'(n \<mapsto> take (length s - length s') s))) (re_run r s c)"
  by pat_completeness auto
termination by (relation "measures [\<lambda>(r, s, c). size r, \<lambda>(r, s, c). length s]") auto

declare re_run.simps(5) [simp del]

fun lit :: "string \<Rightarrow> re" where
  "lit [] = Eps"
| "lit (x # xs) = Seq (Cls (\<lambda>y. y = x)) (lit xs)"

fun seqs :: "re list \<Rightarrow> re" where
  "seqs [] = Eps"
| "seqs (r # rs) = Seq r (seqs rs)"

definition plus :: "re \<Rightarrow> re" where "plus r = Seq r (Star True r)"
definition opt :: "re \<Rightarrow> re" where "opt r = Alt r Eps"

text \<open>The character classes \<open>\d\<close>, \<open>\w\<close>, \<open>\s\<close>, the dot, and any character (\<open>[\s\S]\<close>).\<close>

definition is_digit :: "char \<Rightarrow> bool" where
  "is_digit x = (CHR ''0'' \<le> x \<and> x \<le> CHR ''9'')"
definition is_word :: "char \<Rightarrow> bool" where
  "is_word x = (is_digit x \<or> CHR ''a'' \<le> x \<and> x \<le> CHR ''z'' \<or> CHR ''A'' \<le> x \<and> x \<le> CHR ''Z'' \<or> x = CHR ''_'')"
definition is_space :: "char \<Rightarrow> bool" where
  "is_space x = (x = CHR '' '' \<or> CHR 0x09 \<le> x \<and> x \<le> CHR 0x0D)"
definition not_eol :: "char \<Rightarrow> bool" where
  "not_eol x = (x \<noteq> CHR 0x0A \<and> x \<noteq> CHR 0x0D)"
definition any_char :: "char \<Rightarrow> bool" where
  "any_char x = True"

text \<open>
  \<open>regex_search\<close>: the leftmost match, as the text before it, the match itself, the text
  after it and the groups. \<open>regex_all\<close>: the matches an \<open>sregex_iterator\<close> visits; the
  patterns of the program never match the empty string.
\<close>

fun regex_search :: "re \<Rightarrow> string \<Rightarrow> (string \<times> string \<times> string \<times> caps) option" where
  "regex_search r [] =
     (case re_run r [] (\<lambda>n. None) of [] \<Rightarrow> None | (s', c) # _ \<Rightarrow> Some ([], [], s', c))"
| "regex_search r (x # xs) =
     (case re_run r (x # xs) (\<lambda>n. None) of
        (s', c) # _ \<Rightarrow> Some ([], take (length (x # xs) - length s') (x # xs), s', c)
      | [] \<Rightarrow> (case regex_search r xs of
                None \<Rightarrow> None
              | Some (before, m, after, c) \<Rightarrow> Some (x # before, m, after, c)))"

function regex_all :: "re \<Rightarrow> string \<Rightarrow> caps list" where
  "regex_all r s =
     (case regex_search r s of
        None \<Rightarrow> []
      | Some (before, m, after, c) \<Rightarrow> if length after < length s then c # regex_all r after else [c])"
  by pat_completeness auto
termination by (relation "measure (\<lambda>(r, s). length s)") auto

declare regex_all.simps [simp del]

text \<open>The text of a group; an unmatched group is the empty string.\<close>

definition cap :: "caps \<Rightarrow> nat \<Rightarrow> string" where
  "cap c n = (case c n of None \<Rightarrow> '''' | Some s \<Rightarrow> s)"

section \<open>Strings and numbers\<close>

text \<open>\<open>find_sub p s\<close>: the position of the first occurrence (\<open>std::string::find\<close>).\<close>

fun find_sub :: "string \<Rightarrow> string \<Rightarrow> nat option" where
  "find_sub p [] = (if p = [] then Some 0 else None)"
| "find_sub p (x # xs) =
     (if take (length p) (x # xs) = p then Some 0
      else case find_sub p xs of None \<Rightarrow> None | Some n \<Rightarrow> Some (Suc n))"

definition digit_val :: "char \<Rightarrow> int" where
  "digit_val x = of_char x - 48"

definition dec_val :: "string \<Rightarrow> int" where
  "dec_val ds = foldl (\<lambda>v d. 10 * v + digit_val d) 0 ds"

text \<open>\<open>stoi\<close> on a string of digits, \<open>stof\<close> on digits with points; \<open>fl\<close> rounds to a float.\<close>

definition stoi :: "string \<Rightarrow> int res" where
  "stoi s =
     (let ds = takeWhile is_digit s
      in if ds = [] then Inl (Invalid_argument ''stoi'')
         else if dec_val ds < 2 ^ 31 then Inr (dec_val ds) else Inl (Out_of_range ''stoi''))"

definition stof :: "(real \<Rightarrow> real) \<Rightarrow> string \<Rightarrow> real res" where
  "stof fl s =
     (let ip = takeWhile is_digit s;
          rest = dropWhile is_digit s;
          fp = (if rest \<noteq> [] \<and> hd rest = CHR ''.'' then takeWhile is_digit (tl rest) else []);
          x = of_int (dec_val (ip @ fp)) / 10 ^ length fp
      in if ip = [] \<and> fp = [] then Inl (Invalid_argument ''stof'')
         else if x \<ge> 2 ^ 128 - 2 ^ 103 \<or> x \<noteq> 0 \<and> x < 1 / 2 ^ 126 then Inl (Out_of_range ''stof'')
         else Inr (fl x))"

fun dec_nat :: "nat \<Rightarrow> string" where
  "dec_nat n = (if n < 10 then [char_of (48 + n)] else dec_nat (n div 10) @ [char_of (48 + n mod 10)])"

declare dec_nat.simps [simp del]

definition to_string :: "int \<Rightarrow> string" where
  "to_string i = (if i < 0 then CHR ''-'' # dec_nat (nat (- i)) else dec_nat (nat i))"

section \<open>Lemmas\<close>

lemma re_run_suffix:
  "(s', c') \<in> set (re_run r s c) \<Longrightarrow> suffix s' s"
proof (induction r s c arbitrary: s' c' rule: re_run.induct)
  case (2 p s c)
  then show ?case by (auto split: list.splits if_splits simp: suffix_def)
next
  case (3 a b s c)
  then obtain s1 c1 where 1: "(s1, c1) \<in> set (re_run a s c)" "(s', c') \<in> set (re_run b s1 c1)"
    by auto
  have "suffix s' s1" using "3.IH"(2) [OF 1(1) _ 1(2)] by blast
  moreover have "suffix s1 s" using "3.IH"(1) [OF 1(1)] .
  ultimately show ?case by (rule suffix_order.trans)
next
  case (5 greedy r s c)
  consider "s' = s"
    | s1 c1 where "(s1, c1) \<in> set (re_run r s c)" "length s1 < length s"
        "(s', c') \<in> set (re_run (Star greedy r) s1 c1)"
    using "5.prems" by (auto simp: re_run.simps(5) [of _ _ s c] Let_def split: if_splits)
  then show ?case
  proof cases
    case 2
    have "suffix s' s1" using "5.IH"(2) [OF 2(1) _ 2(2) 2(3)] by blast
    moreover have "suffix s1 s" using "5.IH"(1) [OF 2(1)] .
    ultimately show ?thesis by (rule suffix_order.trans)
  qed simp
qed auto

lemma re_run_lit: "re_run (lit w) s c = (if prefix w s then [(drop (length w) s, c)] else [])"
proof (induction w arbitrary: s)
  case (Cons x w)
  then show ?case by (cases s) auto
qed simp

lemma find_sub_Some:
  "find_sub p s = Some n \<Longrightarrow> take (length p) (drop n s) = p \<and> n + length p \<le> length s"
proof (induction s arbitrary: n)
  case (Cons x s)
  then show ?case
    by (auto split: if_splits option.splits) (metis length_Cons length_take min.cobounded1)
qed (auto split: if_splits)

lemma dec_val_snoc: "dec_val (ds @ [d]) = 10 * dec_val ds + digit_val d"
  by (simp add: dec_val_def)

lemma digit_char:
  assumes "n < 10"
  shows "is_digit (char_of (48 + n))" "digit_val (char_of (48 + n)) = int n"
proof -
  have c: "of_char (char_of (48 + n) :: char) = 48 + n"
    using assms by (simp only: of_char_of) simp
  then show "is_digit (char_of (48 + n))"
    using assms by (simp add: is_digit_def less_eq_char_def)
  have "(of_char (char_of (48 + n) :: char) :: int) = int (48 + n)"
    using c by (metis of_nat_of_char)
  then show "digit_val (char_of (48 + n)) = int n"
    unfolding digit_val_def by simp
qed

lemma dec_nat_digits: "list_all is_digit (dec_nat n)" "dec_nat n \<noteq> []"
  and dec_val_dec_nat: "dec_val (dec_nat n) = int n"
proof -
  have "list_all is_digit (dec_nat n) \<and> dec_nat n \<noteq> [] \<and> dec_val (dec_nat n) = int n"
  proof (induction n rule: dec_nat.induct)
    case (1 n)
    show ?case
    proof (cases "n < 10")
      case True
      then show ?thesis
        by (simp add: dec_nat.simps [of n] digit_char) (simp add: dec_val_def digit_char)
    next
      case False
      have "10 * int (n div 10) + int (n mod 10) = int n"
        using arg_cong [of _ _ int, OF mult_div_mod_eq [of 10 n]]
        by (simp only: of_nat_add of_nat_mult of_nat_numeral)
      with 1 False show ?thesis
        by (simp add: dec_nat.simps [of n] digit_char dec_val_snoc)
    qed
  qed
  then show "list_all is_digit (dec_nat n)" "dec_nat n \<noteq> []" "dec_val (dec_nat n) = int n" by auto
qed

lemma stoi_to_string:
  assumes "0 \<le> i" "i < 2 ^ 31"
  shows "stoi (to_string i) = Inr i"
proof -
  have tw: "takeWhile is_digit (dec_nat (nat i)) = dec_nat (nat i)"
    using dec_nat_digits(1) [of "nat i"] by (simp add: takeWhile_eq_all_conv list_all_iff)
  show ?thesis
    using assms by (simp add: stoi_def to_string_def Let_def tw dec_nat_digits dec_val_dec_nat)
qed

end
