(* ===== verification/Json.thy ===== *)
theory Json
  imports Prelude Complex_Main "HOL-Library.List_Lexorder"
begin

text \<open>
  The part of src/json.hpp (nlohmann::json 3.12) the server uses on values: element
  access, \<open>value\<close> with a default, conversions and object construction, with the
  exceptions the library throws. The text level (\<open>dump\<close> and \<open>parse\<close>) is an argument
  of the definitions that use it, see \<open>json_text\<close>.
\<close>

section \<open>Values\<close>

text \<open>
  The integer kinds \<open>number_integer\<close> and \<open>number_unsigned\<close> are one constructor, a double
  is its real value. An object is the content of the \<open>std::map\<close>: pairs in ascending order
  of their keys.
\<close>

datatype json =
    JNull
  | JBool bool
  | JInt int
  | JFloat real
  | JString string
  | JArray "json list"
  | JObject "(string \<times> json) list"

fun obj_put :: "string \<Rightarrow> json \<Rightarrow> (string \<times> json) list \<Rightarrow> (string \<times> json) list" where
  "obj_put k v [] = [(k, v)]"
| "obj_put k v ((k', v') # kvs) =
     (if k = k' then (k, v) # kvs
      else if k < k' then (k, v) # (k', v') # kvs
      else (k', v') # obj_put k v kvs)"

text \<open>\<open>json_set j k v\<close> is the assignment \<open>j[k] = v\<close> through the non-const operator.\<close>

fun json_set :: "json \<Rightarrow> string \<Rightarrow> json \<Rightarrow> json res" where
  "json_set JNull k v = Inr (JObject [(k, v)])"
| "json_set (JObject kvs) k v = Inr (JObject (obj_put k v kvs))"
| "json_set _ k v = Inl (Json_type_error 305)"

text \<open>An object written as an initializer list or built by assignments to a null value.\<close>

definition json_obj :: "(string \<times> json) list \<Rightarrow> json" where
  "json_obj kvs = JObject (fold (\<lambda>(k, v). obj_put k v) kvs [])"

section \<open>Access\<close>

text \<open>
  The const operator on a missing key is only guarded by an assertion, which the release
  build removes; the non-const operator inserts a null value.
\<close>

fun json_at_const :: "json \<Rightarrow> string \<Rightarrow> json res" where
  "json_at_const (JObject kvs) k =
     (case map_of kvs k of None \<Rightarrow> Inl (UB ''operator[] const: missing key'') | Some v \<Rightarrow> Inr v)"
| "json_at_const _ k = Inl (Json_type_error 305)"

fun json_at :: "json \<Rightarrow> string \<Rightarrow> json res" where
  "json_at JNull k = Inr JNull"
| "json_at (JObject kvs) k = (case map_of kvs k of None \<Rightarrow> Inr JNull | Some v \<Rightarrow> Inr v)"
| "json_at _ k = Inl (Json_type_error 305)"

fun json_idx_const :: "json \<Rightarrow> nat \<Rightarrow> json res" where
  "json_idx_const (JArray vs) i =
     (if i < length vs then Inr (vs ! i) else Inl (UB ''operator[] const: index out of range''))"
| "json_idx_const _ i = Inl (Json_type_error 305)"

fun json_idx :: "json \<Rightarrow> nat \<Rightarrow> json res" where
  "json_idx JNull i = Inr JNull"
| "json_idx (JArray vs) i = Inr (if i < length vs then vs ! i else JNull)"
| "json_idx _ i = Inl (Json_type_error 305)"

text \<open>The range of a range-based for loop: the elements of an array, the values of an object.\<close>

fun json_items :: "json \<Rightarrow> json list" where
  "json_items (JArray vs) = vs"
| "json_items (JObject kvs) = map snd kvs"
| "json_items JNull = []"
| "json_items j = [j]"

section \<open>Conversions\<close>

text \<open>
  A conversion of an integer to \<open>int\<close> keeps the low 32 bits; a double is truncated
  towards zero, which is undefined beyond the range of \<open>int\<close>.
\<close>

definition wrap32 :: "int \<Rightarrow> int" where
  "wrap32 i = signed_take_bit 31 i"

definition int_of_double :: "real \<Rightarrow> int res" where
  "int_of_double r =
     (let t = (if r < 0 then - \<lfloor>- r\<rfloor> else \<lfloor>r\<rfloor>)
      in if - (2 ^ 31) \<le> t \<and> t < 2 ^ 31 then Inr t else Inl (UB ''double to int out of range''))"

fun get_int :: "json \<Rightarrow> int res" where
  "get_int (JInt i) = Inr (wrap32 i)"
| "get_int (JFloat r) = int_of_double r"
| "get_int (JBool b) = Inr (if b then 1 else 0)"
| "get_int _ = Inl (Json_type_error 302)"

text \<open>\<open>fl\<close> rounds a real number to a double.\<close>

fun get_double :: "(real \<Rightarrow> real) \<Rightarrow> json \<Rightarrow> real res" where
  "get_double fl (JInt i) = Inr (fl (of_int i))"
| "get_double fl (JFloat r) = Inr r"
| "get_double fl _ = Inl (Json_type_error 302)"

fun get_bool :: "json \<Rightarrow> bool res" where
  "get_bool (JBool b) = Inr b"
| "get_bool _ = Inl (Json_type_error 302)"

fun get_string :: "json \<Rightarrow> string res" where
  "get_string (JString s) = Inr s"
| "get_string _ = Inl (Json_type_error 302)"

fun json_value :: "(json \<Rightarrow> 'a res) \<Rightarrow> json \<Rightarrow> string \<Rightarrow> 'a \<Rightarrow> 'a res" where
  "json_value get (JObject kvs) k dflt =
     (case map_of kvs k of None \<Rightarrow> Inr dflt | Some v \<Rightarrow> get v)"
| "json_value get _ k dflt = Inl (Json_type_error 306)"

section \<open>Text\<close>

text \<open>
  \<open>dump\<close> throws on a string that is not UTF-8, \<open>parse\<close> throws on a malformed text
  (None). \<open>json_text_ok\<close> is what the documentation of the library promises: a value that
  can be written is read back, for values with integers of 64 bits and sorted keys.
\<close>

record json_text =
  dump :: "json \<Rightarrow> string res"
  parse :: "string \<Rightarrow> json option"

fun wf_json :: "json \<Rightarrow> bool" where
  "wf_json (JInt i) = (- (2 ^ 63) \<le> i \<and> i < 2 ^ 64)"
| "wf_json (JArray vs) = list_all wf_json vs"
| "wf_json (JObject kvs) = (sorted_wrt (<) (map fst kvs) \<and> list_all (\<lambda>(k, v). wf_json v) kvs)"
| "wf_json _ = True"

definition json_text_ok :: "json_text \<Rightarrow> bool" where
  "json_text_ok J \<longleftrightarrow>
     (\<forall>j s. wf_json j \<longrightarrow> dump J j = Inr s \<longrightarrow> s \<noteq> '''' \<and> parse J s = Some j)"

section \<open>Lemmas\<close>

abbreviation sorted_keys :: "(string \<times> json) list \<Rightarrow> bool" where
  "sorted_keys kvs \<equiv> sorted_wrt (<) (map fst kvs)"

lemma set_obj_put: "set (obj_put k v kvs) \<subseteq> insert (k, v) (set kvs)"
  by (induction kvs) (auto split: if_splits)

lemma sorted_obj_put: "sorted_keys kvs \<Longrightarrow> sorted_keys (obj_put k v kvs)"
proof (induction kvs)
  case (Cons p kvs)
  obtain k' v' where p: "p = (k', v')" by (cases p)
  show ?case
    using Cons set_obj_put [of k v kvs] by (fastforce simp: p)
qed simp

lemma map_of_obj_put: "sorted_keys kvs \<Longrightarrow> map_of (obj_put k v kvs) = (map_of kvs)(k \<mapsto> v)"
proof (induction kvs)
  case (Cons p kvs)
  then show ?case by (cases p) auto
qed auto

lemma sorted_fold_obj_put:
  "sorted_keys acc \<Longrightarrow> sorted_keys (fold (\<lambda>(k, v). obj_put k v) kvs acc)"
  by (induction kvs arbitrary: acc) (auto simp: sorted_obj_put)

lemma map_of_fold_obj_put:
  "sorted_keys acc \<Longrightarrow>
     map_of (fold (\<lambda>(k, v). obj_put k v) kvs acc) = map_of acc ++ map_of (rev kvs)"
proof (induction kvs arbitrary: acc)
  case (Cons p kvs)
  obtain k v where "p = (k, v)" by (cases p)
  with Cons show ?case by (simp add: sorted_obj_put map_of_obj_put map_add_upd_left) (simp add: map_add_def fun_eq_iff split: option.splits)
qed simp

lemma set_fold_obj_put: "set (fold (\<lambda>(k, v). obj_put k v) kvs acc) \<subseteq> set kvs \<union> set acc"
proof (induction kvs arbitrary: acc)
  case (Cons p kvs)
  obtain k v where "p = (k, v)" by (cases p)
  then show ?case using Cons.IH [of "obj_put k v acc"] set_obj_put [of k v acc] by auto
qed simp

lemma wf_json_obj: "list_all (\<lambda>(k, v). wf_json v) kvs \<Longrightarrow> wf_json (json_obj kvs)"
  using set_fold_obj_put [of kvs "[]"]
  by (auto simp: json_obj_def sorted_fold_obj_put list_all_iff)

lemma map_of_rev_distinct: "distinct (map fst kvs) \<Longrightarrow> map_of (rev kvs) = map_of kvs"
  by (subst map_of_inject_set) (simp_all flip: rev_map)

lemma json_obj_lookup:
  "distinct (map fst kvs) \<Longrightarrow> json_at_const (json_obj kvs) k =
     (case map_of kvs k of None \<Rightarrow> Inl (UB ''operator[] const: missing key'') | Some v \<Rightarrow> Inr v)"
  by (simp add: json_obj_def map_of_fold_obj_put map_of_rev_distinct)

end
