(* ===== verification/Sqlite.thy ===== *)
theory Sqlite
  imports Regex Json "HOL-Library.Product_Lexorder"
begin

text \<open>
  The interface to the SQLite engine. The engine is an argument of every database operation
  of the program. A statement is the syntax tree of the SQL text in the source, its
  parameters are the bound values; \<open>sql_exec\<close> is the documented meaning of the statements
  on tables, and \<open>conforms\<close> is what the program relies on: the engine answers as documented
  or fails without changing the data.
\<close>

section \<open>Values\<close>

datatype sql_value = SNull | SInt int | SReal real | SText string | SBlob bytes

text \<open>The order of ORDER BY and BETWEEN: NULL, numbers, text, blobs; text by its bytes.\<close>

fun sql_key :: "sql_value \<Rightarrow> nat \<times> real \<times> nat \<times> string \<times> nat list" where
  "sql_key SNull = (0, 0, 0, [], [])"
| "sql_key (SInt i) = (1, of_int i, 0, [], [])"
| "sql_key (SReal r) = (1, r, 1, [], [])"
| "sql_key (SText s) = (2, 0, 0, s, [])"
| "sql_key (SBlob b) = (3, 0, 0, [], map unat b)"

lemma inj_sql_key: "sql_key v = sql_key w \<Longrightarrow> v = w"
proof (cases v; cases w)
  fix b b' assume "sql_key v = sql_key w" "v = SBlob b" "w = SBlob b'"
  moreover have "inj (unat :: byte \<Rightarrow> nat)" by (rule injI) (rule unsigned_word_eqI)
  ultimately show "v = w" using inj_map_eq_map [of "unat :: byte \<Rightarrow> nat" b b'] by simp
qed auto

instantiation sql_value :: linorder
begin

definition less_eq_sql_value :: "sql_value \<Rightarrow> sql_value \<Rightarrow> bool" where
  "less_eq_sql_value v w = (sql_key v \<le> sql_key w)"

definition less_sql_value :: "sql_value \<Rightarrow> sql_value \<Rightarrow> bool" where
  "less_sql_value v w = (sql_key v < sql_key w)"

instance
  by standard (auto simp: less_eq_sql_value_def less_sql_value_def intro: inj_sql_key)

end

section \<open>Tables and statements\<close>

datatype affinity = TEXT | INTEGER | REAL | BLOB | NUMERIC

text \<open>\<open>rowid\<close> marks an INTEGER PRIMARY KEY column, \<open>unique\<close> a UNIQUE or PRIMARY KEY one.\<close>

record column =
  cname :: string
  aff :: affinity
  rowid :: bool
  unique :: bool
  notnull :: bool
  dflt :: sql_value

type_synonym row = "string \<Rightarrow> sql_value option"

text \<open>The rows are in the order of a full scan; \<open>seq\<close> is the largest row id ever used.\<close>

record table =
  columns :: "column list"
  rows :: "row list"
  seq :: int

record database =
  tabs :: "string \<Rightarrow> table option"
  saved :: "(string \<Rightarrow> table option) option"

datatype operand = Par nat | Lit sql_value
datatype atom = Eq string operand | Between string operand operand

text \<open>
  \<open>Select None t w o\<close> is SELECT *, \<open>w\<close> the conjunction of the WHERE clause, \<open>o\<close> the ORDER BY
  column; \<open>Create\<close> is CREATE TABLE IF NOT EXISTS.
\<close>

datatype sql =
    Create string "column list"
  | Insert string "(string \<times> operand) list"
  | Select "string list option" string "atom list" "string option"
  | Update string "(string \<times> operand) list" "atom list"
  | Delete string "atom list"
  | Begin
  | Commit
  | Rollback

datatype sql_result = Rows "row list" | Changes nat

section \<open>Meaning of the statements\<close>

text \<open>Table names are not case sensitive; an unquoted keyword is not a column name.\<close>

definition lower :: "string \<Rightarrow> string" where
  "lower s = map (\<lambda>x. if CHR ''A'' \<le> x \<and> x \<le> CHR ''Z'' then char_of (of_char x + 32 :: nat) else x) s"

definition is_keyword :: "string \<Rightarrow> bool" where
  "is_keyword c = (lower c \<in> set [''index'', ''table'', ''order'', ''group'', ''select'', ''where''])"

fun opval :: "sql_value list \<Rightarrow> operand \<Rightarrow> sql_value" where
  "opval args (Par i) = (if i < length args then args ! i else SNull)"
| "opval args (Lit v) = v"

fun atom_col :: "atom \<Rightarrow> string" where
  "atom_col (Eq c x) = c"
| "atom_col (Between c x y) = c"

definition getcol :: "row \<Rightarrow> string \<Rightarrow> sql_value" where
  "getcol r c = (case r c of None \<Rightarrow> SNull | Some v \<Rightarrow> v)"

fun holds :: "sql_value list \<Rightarrow> row \<Rightarrow> atom \<Rightarrow> bool" where
  "holds args r (Eq c x) = (getcol r c = opval args x \<and> opval args x \<noteq> SNull)"
| "holds args r (Between c x y) =
     (getcol r c \<noteq> SNull \<and> opval args x \<noteq> SNull \<and> opval args y \<noteq> SNull \<and>
      opval args x \<le> getcol r c \<and> getcol r c \<le> opval args y)"

definition selected :: "sql_value list \<Rightarrow> atom list \<Rightarrow> row \<Rightarrow> bool" where
  "selected args w r = list_all (holds args r) w"

definition known :: "table \<Rightarrow> string \<Rightarrow> bool" where
  "known T c = (c \<in> set (map cname (columns T)) \<and> \<not> is_keyword c)"

definition new_row :: "table \<Rightarrow> (string \<times> sql_value) list \<Rightarrow> row" where
  "new_row T vals =
     map_of (map (\<lambda>col. (cname col,
       case map_of vals (cname col) of
         Some v \<Rightarrow> v
       | None \<Rightarrow> if rowid col then SInt (seq T + 1) else dflt col)) (columns T))"

definition conflict :: "column \<Rightarrow> row list \<Rightarrow> row \<Rightarrow> bool" where
  "conflict col rs r =
     (notnull col \<and> getcol r (cname col) = SNull \<or>
      (unique col \<or> rowid col) \<and> getcol r (cname col) \<noteq> SNull \<and>
        list_ex (\<lambda>r'. getcol r' (cname col) = getcol r (cname col)) rs)"

definition place :: "table \<Rightarrow> row \<Rightarrow> row list" where
  "place T r =
     (case find rowid (columns T) of
        None \<Rightarrow> rows T @ [r]
      | Some col \<Rightarrow> insort_key (\<lambda>r. getcol r (cname col)) r (rows T))"

definition new_seq :: "table \<Rightarrow> row \<Rightarrow> int" where
  "new_seq T r =
     (case find rowid (columns T) of
        None \<Rightarrow> seq T
      | Some col \<Rightarrow> (case getcol r (cname col) of SInt i \<Rightarrow> max (seq T) i | _ \<Rightarrow> seq T))"

definition set_cols :: "(string \<times> sql_value) list \<Rightarrow> row \<Rightarrow> row" where
  "set_cols vals r = r ++ map_of vals"

definition put_table :: "string \<Rightarrow> table \<Rightarrow> database \<Rightarrow> database" where
  "put_table t T db = db\<lparr>tabs := (tabs db)(lower t \<mapsto> T)\<rparr>"

definition with_table ::
  "database \<Rightarrow> string \<Rightarrow> string list \<Rightarrow> (table \<Rightarrow> (sql_result \<times> database) res) \<Rightarrow> (sql_result \<times> database) res" where
  "with_table db t cs f =
     (case tabs db (lower t) of
        None \<Rightarrow> Inl (Runtime_error ''no such table'')
      | Some T \<Rightarrow> if list_all (known T) cs then f T else Inl (Runtime_error ''no such column''))"

definition pick :: "string list option \<Rightarrow> row \<Rightarrow> row" where
  "pick cs r = (case cs of None \<Rightarrow> r | Some cs \<Rightarrow> r |` set cs)"

definition sort_rows :: "string option \<Rightarrow> row list \<Rightarrow> row list" where
  "sort_rows ord rs = (case ord of None \<Rightarrow> rs | Some c \<Rightarrow> sort_key (\<lambda>r. getcol r c) rs)"

fun sql_exec :: "database \<Rightarrow> sql \<Rightarrow> sql_value list \<Rightarrow> (sql_result \<times> database) res" where
  "sql_exec db (Create t cols) args =
     Inr (Changes 0, case tabs db (lower t) of
       None \<Rightarrow> put_table t \<lparr>columns = cols, rows = [], seq = 0\<rparr> db
     | Some T \<Rightarrow> db)"
| "sql_exec db (Insert t asg) args =
     with_table db t (map fst asg) (\<lambda>T.
       let r = new_row T (map (\<lambda>(c, x). (c, opval args x)) asg)
       in if list_ex (\<lambda>col. conflict col (rows T) r) (columns T)
          then Inl (Runtime_error ''constraint failed'')
          else Inr (Changes 1, put_table t (T\<lparr>rows := place T r, seq := new_seq T r\<rparr>) db))"
| "sql_exec db (Select cs t w ord) args =
     with_table db t ((case cs of None \<Rightarrow> [] | Some cs \<Rightarrow> cs) @ map atom_col w @ (case ord of None \<Rightarrow> [] | Some c \<Rightarrow> [c])) (\<lambda>T.
       Inr (Rows (map (pick cs) (sort_rows ord (filter (selected args w) (rows T)))), db))"
| "sql_exec db (Update t asg w) args =
     with_table db t (map fst asg @ map atom_col w) (\<lambda>T.
       let vals = map (\<lambda>(c, x). (c, opval args x)) asg;
           upd = (\<lambda>r. if selected args w r then set_cols vals r else r)
       in if list_ex (\<lambda>col. cname col \<in> set (map fst asg) \<and> notnull col \<and>
               list_ex (\<lambda>r. getcol (upd r) (cname col) = SNull) (rows T)) (columns T)
          then Inl (Runtime_error ''constraint failed'')
          else Inr (Changes (length (filter (selected args w) (rows T))),
                    put_table t (T\<lparr>rows := map upd (rows T)\<rparr>) db))"
| "sql_exec db (Delete t w) args =
     with_table db t (map atom_col w) (\<lambda>T.
       Inr (Changes (length (filter (selected args w) (rows T))),
            put_table t (T\<lparr>rows := filter (\<lambda>r. \<not> selected args w r) (rows T)\<rparr>) db))"
| "sql_exec db Begin args =
     (case saved db of
        None \<Rightarrow> Inr (Changes 0, db\<lparr>saved := Some (tabs db)\<rparr>)
      | Some _ \<Rightarrow> Inl (Runtime_error ''transaction within a transaction''))"
| "sql_exec db Commit args =
     (case saved db of
        None \<Rightarrow> Inl (Runtime_error ''no transaction is active'')
      | Some _ \<Rightarrow> Inr (Changes 0, db\<lparr>saved := None\<rparr>))"
| "sql_exec db Rollback args =
     (case saved db of
        None \<Rightarrow> Inl (Runtime_error ''no transaction is active'')
      | Some ts \<Rightarrow> Inr (Changes 0, db\<lparr>tabs := ts, saved := None\<rparr>))"

declare sql_exec.simps [simp del]

section \<open>The engine\<close>

text \<open>
  A statement succeeds with a result or throws; a SELECT that throws has delivered some of
  its rows before. \<open>run\<close> is the engine on its own state, \<open>view\<close> the tables in that state.
\<close>

datatype reply = Ok sql_result | Fail "row list"

type_synonym 'd engine = "'d \<Rightarrow> sql \<Rightarrow> sql_value list \<Rightarrow> reply \<times> 'd"

text \<open>
  The values the program binds have the type of their column, so that no conversion takes
  place: \<open>num\<close> tells which texts are numeric literals, which a NUMERIC column would convert.
  No UPDATE of the program assigns to a key.
\<close>

fun fits :: "(string \<Rightarrow> bool) \<Rightarrow> affinity \<Rightarrow> sql_value \<Rightarrow> bool" where
  "fits num a SNull = True"
| "fits num a (SInt i) = (a = INTEGER \<and> - (2 ^ 63) \<le> i \<and> i < 2 ^ 63)"
| "fits num a (SReal r) = (a = REAL)"
| "fits num a (SText s) = (a = TEXT \<or> a = NUMERIC \<and> \<not> num s)"
| "fits num a (SBlob b) = (a = BLOB)"

definition fits_col :: "(string \<Rightarrow> bool) \<Rightarrow> table \<Rightarrow> string \<Rightarrow> sql_value \<Rightarrow> bool" where
  "fits_col num T c v = list_all (\<lambda>col. cname col = c \<longrightarrow> fits num (aff col) v) (columns T)"

fun fits_atom :: "(string \<Rightarrow> bool) \<Rightarrow> table \<Rightarrow> sql_value list \<Rightarrow> atom \<Rightarrow> bool" where
  "fits_atom num T args (Eq c x) = fits_col num T c (opval args x)"
| "fits_atom num T args (Between c x y) = (fits_col num T c (opval args x) \<and> fits_col num T c (opval args y))"

definition on_table :: "database \<Rightarrow> string \<Rightarrow> (table \<Rightarrow> bool) \<Rightarrow> bool" where
  "on_table db t P = (case tabs db (lower t) of None \<Rightarrow> True | Some T \<Rightarrow> P T)"

fun well_typed :: "(string \<Rightarrow> bool) \<Rightarrow> database \<Rightarrow> sql \<Rightarrow> sql_value list \<Rightarrow> bool" where
  "well_typed num db (Insert t asg) args =
     on_table db t (\<lambda>T. list_all (\<lambda>(c, x). fits_col num T c (opval args x)) asg)"
| "well_typed num db (Select cs t w ord) args = on_table db t (\<lambda>T. list_all (fits_atom num T args) w)"
| "well_typed num db (Update t asg w) args =
     on_table db t (\<lambda>T. list_all (fits_atom num T args) w \<and>
       list_all (\<lambda>(c, x). fits_col num T c (opval args x)) asg \<and>
       list_all (\<lambda>col. cname col \<in> set (map fst asg) \<longrightarrow> \<not> unique col \<and> \<not> rowid col) (columns T))"
| "well_typed num db (Delete t w) args = on_table db t (\<lambda>T. list_all (fits_atom num T args) w)"
| "well_typed num db _ args = True"

definition conforms :: "(string \<Rightarrow> bool) \<Rightarrow> 'd engine \<Rightarrow> ('d \<Rightarrow> database) \<Rightarrow> bool" where
  "conforms num run view \<longleftrightarrow>
     (\<forall>d st args. well_typed num (view d) st args \<longrightarrow>
        (case run d st args of
           (Ok r, d') \<Rightarrow> sql_exec (view d) st args = Inr (r, view d')
         | (Fail rs, d') \<Rightarrow> view d' = view d \<and>
             (case sql_exec (view d) st args of
                Inr (Rows rs', _) \<Rightarrow> prefix rs rs'
              | _ \<Rightarrow> rs = [])))"

text \<open>An engine whose statements never fail where their meaning is defined.\<close>

definition reliable :: "(string \<Rightarrow> bool) \<Rightarrow> 'd engine \<Rightarrow> ('d \<Rightarrow> database) \<Rightarrow> bool" where
  "reliable num run view \<longleftrightarrow>
     (\<forall>d st args x. well_typed num (view d) st args \<longrightarrow> sql_exec (view d) st args = Inr x \<longrightarrow>
        (\<exists>r d'. run d st args = (Ok r, d')))"

definition empty_db :: database where
  "empty_db = \<lparr>tabs = (\<lambda>t. None), saved = None\<rparr>"

text \<open>
  An engine that follows \<open>sql_exec\<close> and whose n-th statement throws when the n-th entry of a
  list of faults says so, a SELECT after the given number of rows.
\<close>

definition tape_run :: "(database \<times> nat option list) engine" where
  "tape_run s st args =
     (case s of (db, faults) \<Rightarrow>
        (case (faults, sql_exec db st args) of
           (Some n # faults', Inr (Rows rs, _)) \<Rightarrow> (Fail (take n rs), (db, faults'))
         | (Some n # faults', _) \<Rightarrow> (Fail [], (db, faults'))
         | (_, Inl e) \<Rightarrow> (Fail [], (db, tl faults))
         | (_, Inr (r, db')) \<Rightarrow> (Ok r, (db', tl faults))))"

text \<open>The engine without failures of its own.\<close>

definition sure_run :: "database engine" where
  "sure_run db st args =
     (case sql_exec db st args of Inl e \<Rightarrow> (Fail [], db) | Inr (r, db') \<Rightarrow> (Ok r, db'))"

text \<open>The contract as an interface, and what its clients use of it.\<close>

locale sqlite =
  fixes num :: "string \<Rightarrow> bool" and run :: "'d engine" and view :: "'d \<Rightarrow> database"
  assumes conforms: "conforms num run view"
begin

lemma run_law:
  "well_typed num (view d) st args \<Longrightarrow>
     case run d st args of (Ok r, d') \<Rightarrow> sql_exec (view d) st args = Inr (r, view d')
       | (Fail rs, d') \<Rightarrow> view d' = view d \<and>
           (case sql_exec (view d) st args of Inr (Rows rs', _) \<Rightarrow> prefix rs rs' | _ \<Rightarrow> rs = [])"
  using conforms by (simp add: conforms_def)

lemma run_Ok:
  assumes "well_typed num (view d) st args" "run d st args = (Ok r, d')"
  shows "sql_exec (view d) st args = Inr (r, view d')"
  using run_law [OF assms(1)] by (simp add: assms(2))

lemma run_Fail:
  assumes "well_typed num (view d) st args" "run d st args = (Fail rs, d')"
  shows "view d' = view d"
  using run_law [OF assms(1)] by (simp add: assms(2))

lemma run_Fail_prefix:
  assumes "well_typed num (view d) st args" "run d st args = (Fail rs, d')"
    and "sql_exec (view d) st args = Inr (Rows rs', db')"
  shows "prefix rs rs'"
  using run_law [OF assms(1)] by (simp add: assms(2, 3))

end

lemma conforms_tape: "conforms num tape_run fst"
  unfolding conforms_def
proof (intro allI impI)
  fix d :: "database \<times> nat option list" and st args
  obtain db faults where d: "d = (db, faults)" by (cases d)
  show "case tape_run d st args of (Ok r, d') \<Rightarrow> sql_exec (fst d) st args = Inr (r, fst d')
      | (Fail rs, d') \<Rightarrow> fst d' = fst d \<and>
          (case sql_exec (fst d) st args of Inr (Rows rs', _) \<Rightarrow> prefix rs rs' | _ \<Rightarrow> rs = [])"
  proof (cases "sql_exec db st args")
    case (Inl e)
    then show ?thesis by (simp add: tape_run_def d split: list.split option.split)
  next
    case (Inr p)
    obtain r db' where p: "p = (r, db')" by (cases p)
    show ?thesis
      using Inr by (cases r) (simp_all add: tape_run_def d p take_is_prefix split: list.split option.split)
  qed
qed

lemma conforms_sure: "conforms num sure_run (\<lambda>d. d)"
  unfolding conforms_def
proof (intro allI impI)
  fix d st args
  show "case sure_run d st args of (Ok r, d') \<Rightarrow> sql_exec d st args = Inr (r, d')
      | (Fail rs, d') \<Rightarrow> d' = d \<and> (case sql_exec d st args of Inr (Rows rs', _) \<Rightarrow> prefix rs rs' | _ \<Rightarrow> rs = [])"
    by (cases "sql_exec d st args") (auto simp: sure_run_def)
qed

lemma reliable_sure: "reliable num sure_run (\<lambda>d. d)"
  by (auto simp: reliable_def sure_run_def)

interpretation sure: sqlite num sure_run "\<lambda>d. d"
  by unfold_locales (rule conforms_sure)

interpretation tape: sqlite num tape_run fst
  by unfold_locales (rule conforms_tape)

end
