(* ===== verification/Calendar.thy ===== *)
theory Calendar
  imports Board_Control Sqlite
begin

text \<open>
  The calendar functions of the C library as \<open>capture_screen_and_save\<close> in
  src/src/metadata/main_control.cpp uses them: \<open>std::get_time\<close>, \<open>timegm\<close>, \<open>gmtime_r\<close> and
  \<open>strftime\<close>, in the proleptic Gregorian calendar.
\<close>

section \<open>Days and seconds\<close>

definition leap :: "int \<Rightarrow> bool" where
  "leap y = (4 dvd y \<and> (\<not> 100 dvd y \<or> 400 dvd y))"

text \<open>The days from 1 January 1970 to 1 January of the year.\<close>

definition days_before :: "int \<Rightarrow> int" where
  "days_before y = 365 * (y - 1970) + (y - 1) div 4 - (y - 1) div 100 + (y - 1) div 400 - 477"

definition month_days :: "int \<Rightarrow> int list" where
  "month_days y = [31, if leap y then 29 else 28, 31, 30, 31, 30, 31, 31, 30, 31, 30, 31]"

definition timegm :: "tm \<Rightarrow> int" where
  "timegm t =
     (let y = tm_year t + 1900;
          days = days_before y + sum_list (take (nat (tm_mon t)) (month_days y)) + tm_mday t - 1
      in ((days * 24 + tm_hour t) * 60 + tm_min t) * 60 + tm_sec t)"

lemma div_pred:
  fixes y k :: int
  assumes "k > 0"
  shows "y div k = (y - 1) div k + (if k dvd y then 1 else 0)"
proof (cases "k dvd y")
  case True
  then obtain q where q: "y = k * q" by (elim dvdE)
  have "(k * q - 1) div k = ((k - 1) + k * (q - 1)) div k" by (simp add: algebra_simps)
  also have "\<dots> = (q - 1) + (k - 1) div k" using assms by (intro div_mult_self2) simp
  also have "\<dots> = q - 1" using assms by (simp add: div_pos_pos_trivial)
  finally have "(k * q - 1) div k = q - 1" .
  then show ?thesis using assms True q by simp
next
  case False
  define q r where "q = y div k" and "r = y mod k"
  have r: "0 < r" "r < k" "y = k * q + r"
    using False assms by (simp_all add: q_def r_def dvd_eq_mod_eq_0 order.not_eq_order_implies_strict)
  have "y - 1 = (r - 1) + k * q" using r(3) by linarith
  then have "(y - 1) div k = ((r - 1) + k * q) div k" by (rule arg_cong)
  also have "\<dots> = q + (r - 1) div k" using assms by (intro div_mult_self2) simp
  also have "\<dots> = q" using r by (simp add: div_pos_pos_trivial)
  finally have "(y - 1) div k = q" .
  then show ?thesis using False by (simp add: q_def)
qed

lemma leap_days:
  assumes "B \<Longrightarrow> A" "C \<Longrightarrow> B"
  shows "(d :: int) + 365 + (if A then 1 else 0) - (if B then 1 else 0) + (if C then 1 else 0)
      = d + (if A \<and> (\<not> B \<or> C) then 366 else 365)"
  by (cases A; cases B; cases C) (use assms in \<open>simp_all\<close>)

lemma days_before_next: "days_before (y + 1) = days_before y + (if leap y then 366 else 365)"
proof -
  have sums: "a' = a + i \<Longrightarrow> b' = b + j \<Longrightarrow> c' = c + k \<Longrightarrow> 365 * (y + 1 - 1970) + a' - b' + c' - 477
      = 365 * (y - 1970) + a - b + c - 477 + 365 + i - j + k" for a a' b b' c c' i j k :: int
    by simp
  have "days_before (y + 1) = days_before y + 365 + (if 4 dvd y then 1 else 0)
      - (if 100 dvd y then 1 else 0) + (if 400 dvd y then 1 else 0)"
    unfolding days_before_def add_diff_cancel_right' by (rule sums; rule div_pred) simp_all
  also have "\<dots> = days_before y + (if 4 dvd y \<and> (\<not> 100 dvd y \<or> 400 dvd y) then 366 else 365)"
    by (rule leap_days; erule dvd_trans [rotated]) simp_all
  finally show ?thesis unfolding leap_def .
qed

lemma days_before_less: "days_before y < days_before (y + 1)"
  by (subst days_before_next) simp

function year_search :: "int \<Rightarrow> int \<Rightarrow> int" where
  "year_search days y = (if days_before (y + 1) \<le> days then year_search days (y + 1) else y)"
  by pat_completeness auto
termination
  by (relation "measure (\<lambda>(days, y). nat (days - days_before y))") (simp_all add: zless_nat_conj diff_strict_left_mono days_before_less less_le_trans [OF days_before_less])

declare year_search.simps [simp del]

fun split_month :: "int list \<Rightarrow> int \<Rightarrow> int \<times> int" where
  "split_month [] d = (0, d)"
| "split_month (l # ls) d = (if d < l then (0, d) else (case split_month ls (d - l) of (m, d') \<Rightarrow> (m + 1, d')))"

definition gmtime :: "int \<Rightarrow> tm" where
  "gmtime time =
     (let days = time div 86400; s = time mod 86400;
          y = year_search days (if days < 0 then 1970 + days div 365 else 1970);
          (mon, day) = split_month (month_days y) (days - days_before y)
      in \<lparr>tm_sec = s mod 60, tm_min = s div 60 mod 60, tm_hour = s div 3600,
          tm_mday = day + 1, tm_mon = mon, tm_year = y - 1900\<rparr>)"

section \<open>Reading and printing\<close>

text \<open>
  A numeric field: at most \<open>len\<close> digits, at least one, with its value in the range.
  \<open>get_time\<close> skips white space, then follows the format; a letter of the format stands for
  itself in either case.
\<close>

definition extract_num :: "nat \<Rightarrow> int \<Rightarrow> int \<Rightarrow> string \<Rightarrow> (int \<times> string) option" where
  "extract_num len lo hi s =
     (let ds = takeWhile is_digit (take len s)
      in if ds = [] \<or> dec_val ds < lo \<or> hi < dec_val ds then None
         else Some (dec_val ds, drop (length ds) s))"

definition get_field :: "char \<Rightarrow> string \<Rightarrow> tm \<Rightarrow> (tm \<times> string) option" where
  "get_field f s t =
     (if f = CHR ''Y'' then map_option (\<lambda>(v, s). (t\<lparr>tm_year := v - 1900\<rparr>, s)) (extract_num 4 0 9999 s)
      else if f = CHR ''m'' then map_option (\<lambda>(v, s). (t\<lparr>tm_mon := v - 1\<rparr>, s)) (extract_num 2 1 12 s)
      else if f = CHR ''d'' then map_option (\<lambda>(v, s). (t\<lparr>tm_mday := v\<rparr>, s)) (extract_num 2 1 31 s)
      else if f = CHR ''H'' then map_option (\<lambda>(v, s). (t\<lparr>tm_hour := v\<rparr>, s)) (extract_num 2 0 23 s)
      else if f = CHR ''M'' then map_option (\<lambda>(v, s). (t\<lparr>tm_min := v\<rparr>, s)) (extract_num 2 0 59 s)
      else if f = CHR ''S'' then map_option (\<lambda>(v, s). (t\<lparr>tm_sec := v\<rparr>, s)) (extract_num 2 0 60 s)
      else None)"

fun get_fields :: "string \<Rightarrow> string \<Rightarrow> tm \<Rightarrow> tm option" where
  "get_fields [] s t = Some t"
| "get_fields [c] s t = (if s \<noteq> [] \<and> lower [hd s] = lower [c] then Some t else None)"
| "get_fields (c # f # fmt) s t =
     (if c = CHR ''%'' then Option.bind (get_field f s t) (\<lambda>(t, s). get_fields fmt s t)
      else if s \<noteq> [] \<and> lower [hd s] = lower [c] then get_fields (f # fmt) (tl s) t
      else None)"

definition get_time :: "string \<Rightarrow> string \<Rightarrow> tm option" where
  "get_time fmt s =
     get_fields fmt (dropWhile is_space s)
       \<lparr>tm_sec = 0, tm_min = 0, tm_hour = 0, tm_mday = 0, tm_mon = 0, tm_year = 0\<rparr>"

definition two :: "int \<Rightarrow> string" where
  "two v = [char_of (48 + nat (v div 10)), char_of (48 + nat (v mod 10))]"

definition put_field :: "char \<Rightarrow> tm \<Rightarrow> string" where
  "put_field f t =
     (if f = CHR ''Y'' then to_string (tm_year t + 1900)
      else if f = CHR ''m'' then two (tm_mon t + 1)
      else if f = CHR ''d'' then two (tm_mday t)
      else if f = CHR ''H'' then two (tm_hour t)
      else if f = CHR ''M'' then two (tm_min t)
      else if f = CHR ''S'' then two (tm_sec t)
      else [])"

fun strftime :: "string \<Rightarrow> tm \<Rightarrow> string" where
  "strftime [] t = []"
| "strftime [c] t = [c]"
| "strftime (c # f # fmt) t =
     (if c = CHR ''%'' then put_field f t @ strftime fmt t else c # strftime (f # fmt) t)"

section \<open>Conversion of calendar times\<close>

definition valid_tm :: "tm \<Rightarrow> bool" where
  "valid_tm t =
     (0 \<le> tm_sec t \<and> tm_sec t < 60 \<and> 0 \<le> tm_min t \<and> tm_min t < 60 \<and> 0 \<le> tm_hour t \<and> tm_hour t < 24 \<and>
      0 \<le> tm_mon t \<and> tm_mon t < 12 \<and>
      1 \<le> tm_mday t \<and> tm_mday t \<le> month_days (tm_year t + 1900) ! nat (tm_mon t))"

lemma year_search_bounds:
  "days_before y \<le> days \<Longrightarrow>
     days_before (year_search days y) \<le> days \<and> days < days_before (year_search days y + 1)"
proof (induction days y rule: year_search.induct)
  case (1 days y)
  then show ?case by (subst (1 2) year_search.simps) auto
qed

lemma split_month_correct:
  assumes "split_month ls d = (m, e)" "0 \<le> d" "d < sum_list ls" "list_all (\<lambda>l. 0 \<le> l) ls"
  shows "0 \<le> m \<and> m < int (length ls) \<and> 0 \<le> e \<and> e < ls ! nat m \<and> sum_list (take (nat m) ls) + e = d"
  using assms
proof (induction ls arbitrary: d m e)
  case (Cons l ls)
  show ?case
  proof (cases "d < l")
    case False
    obtain m' e' where s: "split_month ls (d - l) = (m', e')" by fastforce
    with Cons False have "0 \<le> m' \<and> m' < int (length ls) \<and> 0 \<le> e' \<and> e' < ls ! nat m' \<and> sum_list (take (nat m') ls) + e' = d - l"
      by simp
    moreover have "m = m' + 1" "e = e'" using Cons.prems(1) False s by auto
    ultimately show ?thesis by (simp add: nat_add_distrib)
  qed (use Cons in auto)
qed simp

lemma days_before_early: "y \<le> 1970 \<Longrightarrow> days_before y \<le> 365 * (y - 1970)"
proof (induction y rule: int_le_induct)
  case base
  show ?case by (simp add: days_before_def)
next
  case (step y)
  then show ?case using days_before_next [of "y - 1"] by (simp split: if_splits)
qed

lemma gmtime_correct: "valid_tm (gmtime time) \<and> timegm (gmtime time) = time"
proof -
  define days s where "days = time div 86400" and "s = time mod 86400"
  define y where "y = year_search days (if days < 0 then 1970 + days div 365 else 1970)"
  obtain mon day where m: "split_month (month_days y) (days - days_before y) = (mon, day)" by fastforce
  have "days_before (if days < 0 then 1970 + days div 365 else 1970) \<le> days"
  proof (cases "days < 0")
    case True
    then have "days div 365 < 0" by (simp add: pos_imp_zdiv_neg_iff)
    then have "days_before (1970 + days div 365) \<le> 365 * (days div 365)"
      using days_before_early [of "1970 + days div 365"] by simp
    also have "\<dots> \<le> days" by simp
    finally show ?thesis using True by simp
  qed (simp add: days_before_def)
  then have y: "days_before y \<le> days" "days < days_before (y + 1)"
    using year_search_bounds by (simp_all add: y_def)
  have "sum_list (month_days y) = (if leap y then 366 else 365)" "list_all (\<lambda>l. 0 \<le> l) (month_days y)"
    by (simp_all add: month_days_def)
  with split_month_correct [OF m] y days_before_next [of y]
  have sm: "0 \<le> mon \<and> mon < 12 \<and> 0 \<le> day \<and> day < month_days y ! nat mon \<and>
      sum_list (take (nat mon) (month_days y)) + day = days - days_before y"
    by (auto simp: month_days_def)
  have s: "0 \<le> s" "s < 86400" by (simp_all add: s_def)
  have g: "gmtime time = \<lparr>tm_sec = s mod 60, tm_min = s div 60 mod 60, tm_hour = s div 3600,
      tm_mday = day + 1, tm_mon = mon, tm_year = y - 1900\<rparr>"
    unfolding gmtime_def Let_def y_def [unfolded days_def, symmetric] m [unfolded days_def] by (simp add: s_def)
  have "s div 3600 = s div 60 div 60" using zdiv_zmult2_eq [of 60 s 60] by simp
  then have h: "s div 3600 < 24" "((s div 3600) * 60 + s div 60 mod 60) * 60 + s mod 60 = s" "0 \<le> s div 3600"
    using s by simp_all
  have "timegm (gmtime time) = days * 86400 + (((s div 3600) * 60 + s div 60 mod 60) * 60 + s mod 60)"
    using sm by (simp add: g timegm_def algebra_simps)
  also have "\<dots> = time" by (simp only: h(2)) (simp add: days_def s_def)
  finally show ?thesis using sm h(1,3) by (simp add: valid_tm_def g)
qed

section \<open>A printed time is read back\<close>

lemma takeWhile_take_digits:
  "list_all is_digit ds \<Longrightarrow> takeWhile is_digit (take (length ds) (ds @ rest)) = ds"
  by (simp add: list_all_iff takeWhile_eq_all_conv)

lemma extract_num_print:
  assumes "list_all is_digit ds" "ds \<noteq> []" "lo \<le> dec_val ds" "dec_val ds \<le> hi"
  shows "extract_num (length ds) lo hi (ds @ rest) = Some (dec_val ds, rest)"
  using assms unfolding extract_num_def Let_def takeWhile_take_digits [OF assms(1)] by simp

lemma two_digits:
  assumes "0 \<le> v" "v < 100"
  shows "list_all is_digit (two v)" "dec_val (two v) = v" "length (two v) = 2"
proof -
  define a b where "a = nat (v div 10)" and "b = nat (v mod 10)"
  have a: "a < 10" using assms zdiv_mono1 [of v 99 10] by (simp add: a_def nat_less_iff)
  have b: "b < 10" by (simp add: b_def nat_less_iff)
  have v: "10 * int a + int b = v" using assms(1) by (simp add: a_def b_def pos_imp_zdiv_nonneg_iff)
  have t: "two v = [char_of (48 + a), char_of (48 + b)]" by (simp add: two_def a_def b_def)
  show "list_all is_digit (two v)" using digit_char(1) [OF a] digit_char(1) [OF b] by (simp add: t)
  show "dec_val (two v) = v" using digit_char(2) [OF a] digit_char(2) [OF b] v by (simp add: t dec_val_def)
  show "length (two v) = 2" by (simp add: t)
qed

lemma extract_num_two:
  assumes "0 \<le> v" "v < 100" "lo \<le> v" "v \<le> hi"
  shows "extract_num 2 lo hi (two v @ rest) = Some (v, rest)"
proof -
  have "two v \<noteq> []" using two_digits(3) [OF assms(1,2)] by auto
  then show ?thesis
    using extract_num_print [of "two v" lo hi rest] two_digits [OF assms(1,2)] assms(3,4) by simp
qed

lemma dec_nat_length: "10 ^ k \<le> n \<Longrightarrow> n < 10 ^ Suc k \<Longrightarrow> length (dec_nat n) = Suc k"
proof (induction k arbitrary: n)
  case 0
  then show ?case by (simp add: dec_nat.simps)
next
  case (Suc k)
  have "length (dec_nat (n div 10)) = Suc k"
    using Suc.prems by (intro Suc.IH) (simp_all add: less_eq_div_iff_mult_less_eq div_less_iff_less_mult mult.commute)
  moreover have "10 \<le> n" using Suc.prems(1) by (rule order_trans [rotated]) (rule self_le_power; simp)
  ultimately show ?case by (simp add: dec_nat.simps [of n])
qed

lemma year_digits:
  assumes "1000 \<le> y" "y \<le> 9999"
  shows "list_all is_digit (to_string y)" "dec_val (to_string y) = y" "length (to_string y) = 4"
proof -
  have t: "to_string y = dec_nat (nat y)" using assms by (simp add: to_string_def)
  show "list_all is_digit (to_string y)" "dec_val (to_string y) = y"
    using assms by (simp_all add: t dec_nat_digits dec_val_dec_nat)
  show "length (to_string y) = 4" unfolding t using assms dec_nat_length [of 3 "nat y"] by (simp add: nat_less_iff le_nat_iff)
qed

lemma extract_num_year:
  assumes "1000 \<le> y" "y \<le> 9999"
  shows "extract_num 4 0 9999 (to_string y @ rest) = Some (y, rest)"
proof -
  have "to_string y \<noteq> []" using year_digits(3) [OF assms] by auto
  then show ?thesis using extract_num_print [of "to_string y" 0 9999 rest] year_digits [OF assms] assms by simp
qed

lemma month_days_le: "0 \<le> m \<Longrightarrow> m < 12 \<Longrightarrow> month_days y ! nat m \<le> 31"
proof -
  assume "0 \<le> m" "m < 12"
  then have "month_days y ! nat m \<in> set (month_days y)" by (intro nth_mem) (simp add: month_days_def nat_less_iff)
  then show ?thesis by (auto simp: month_days_def split: if_splits)
qed

lemma get_time_strftime:
  assumes "valid_tm t" "1000 \<le> tm_year t + 1900" "tm_year t + 1900 \<le> 9999"
  shows "get_time ''%Y-%m-%dT%H:%M:%S'' (strftime ''%Y-%m-%dT%H:%M:%S'' t @ rest) = Some t"
proof -
  obtain y ys where y: "to_string (tm_year t + 1900) = y # ys" "is_digit y"
    using year_digits [OF assms(2,3)] by (cases "to_string (tm_year t + 1900)") auto
  have "tm_mday t \<le> 31" using month_days_le [of "tm_mon t" "tm_year t + 1900"] assms(1) by (auto simp: valid_tm_def)
  moreover have "\<not> is_space y"
    using y(2) by (auto simp: is_digit_def is_space_def less_eq_char_def)
  then have "dropWhile is_space (to_string (tm_year t + 1900) @ u) = to_string (tm_year t + 1900) @ u" for u
    by (simp add: y)
  ultimately show ?thesis
    using assms by (simp add: get_time_def get_field_def put_field_def extract_num_year extract_num_two valid_tm_def)
qed

end
