(* ===== verification/Ssl.thy ===== *)
theory Ssl
  imports Json
begin

text \<open>
  src/ssl.cpp and the message framing on top of it: \<open>recvAll\<close>, \<open>sendAll\<close>,
  \<open>send_json_response\<close> (src/request_handlers.cpp) and \<open>receive_json_message\<close>
  (src/tcp_server.cpp). A connection is the list of the outcomes its calls of \<open>SSL_read\<close>
  and \<open>SSL_write\<close> have, one per call; an exhausted list is a lost connection.
\<close>

section \<open>Reading\<close>

text \<open>
  \<open>Data bs\<close>: that many bytes are ready, of which a call takes what it asked for and leaves
  the rest for the next call (an empty record makes \<open>SSL_read\<close> return 0). \<open>Want_read\<close>:
  \<open>SSL_ERROR_WANT_READ\<close> or \<open>SSL_ERROR_WANT_WRITE\<close>. \<open>Read_error\<close>: any other error.
\<close>

datatype read_event = Data bytes | Want_read | Read_error

function recv_loop :: "nat \<Rightarrow> bytes \<Rightarrow> read_event list \<Rightarrow> bytes option \<times> read_event list" where
  "recv_loop n buffer events =
     (if length buffer < n then
        (case events of
           [] \<Rightarrow> (None, [])
         | Read_error # events \<Rightarrow> (None, events)
         | Want_read # events \<Rightarrow> recv_loop n buffer events
         | Data bs # events \<Rightarrow>
             (if bs = [] then (None, events)
              else let k = n - length buffer
                   in if length bs \<le> k then recv_loop n (buffer @ bs) events
                      else (Some (buffer @ take k bs), Data (drop k bs) # events)))
      else (Some buffer, events))"
  by pat_completeness auto
termination by (relation "measure (\<lambda>(n, buffer, events). length events)") auto

declare recv_loop.simps [simp del]

definition recvAll :: "nat \<Rightarrow> read_event list \<Rightarrow> bytes option \<times> read_event list" where
  "recvAll n events = recv_loop n [] events"

section \<open>Writing\<close>

text \<open>
  \<open>Wrote k\<close>: a call takes at most \<open>k\<close> bytes of what is offered (0 is an error return).
  The bytes put on the wire are the last component of the result.
\<close>

datatype write_event = Wrote nat | Want_write | Write_error

fun send_loop :: "bytes \<Rightarrow> write_event list \<Rightarrow> bytes \<Rightarrow> bool \<times> write_event list \<times> bytes" where
  "send_loop rest [] wire = (if rest = [] then (True, [], wire) else (False, [], wire))"
| "send_loop rest (event # events) wire =
     (if rest = [] then (True, event # events, wire)
      else case event of
          Write_error \<Rightarrow> (False, events, wire)
        | Want_write \<Rightarrow> send_loop rest events wire
        | Wrote k \<Rightarrow>
            (if k = 0 then (False, events, wire)
             else send_loop (drop k rest) events (wire @ take k rest)))"

text \<open>The result is -1 on a failure and the number of bytes otherwise.\<close>

definition sendAll :: "bytes \<Rightarrow> write_event list \<Rightarrow> int \<times> write_event list \<times> bytes" where
  "sendAll buffer events =
     (let (ok, events', wire) = send_loop buffer events []
      in (if ok then int (length buffer) else -1, events', wire))"

section \<open>Messages\<close>

text \<open>
  The four bytes of \<open>htonl(x)\<close> in memory order, and \<open>ntohl\<close> on them; characters of the
  text as bytes.
\<close>

definition htonl :: "u32 \<Rightarrow> bytes" where
  "htonl x = [ucast (drop_bit 24 x), ucast (drop_bit 16 x), ucast (drop_bit 8 x), ucast x]"

fun ntohl :: "bytes \<Rightarrow> u32" where
  "ntohl [a, b, c, d] =
     push_bit 24 (ucast a) OR push_bit 16 (ucast b) OR push_bit 8 (ucast c) OR ucast d"
| "ntohl _ = 0"

definition bytes_of :: "string \<Rightarrow> bytes" where
  "bytes_of s = map (\<lambda>c. of_nat (of_char c)) s"

definition string_of :: "bytes \<Rightarrow> string" where
  "string_of bs = map (\<lambda>b. char_of (unat b)) bs"

text \<open>
  The length prefix is the length of the text as a \<open>uint32_t\<close>, and only that many bytes of
  it are sent; the results of \<open>sendAll\<close> are not looked at.
\<close>

definition send_json_response ::
  "json_text \<Rightarrow> json \<Rightarrow> write_event list \<Rightarrow> (write_event list \<times> bytes) res" where
  "send_json_response J response events =
     bind_res (dump J response) (\<lambda>json_string.
       let res_len = of_nat (length json_string) :: u32;
           (r1, events1, wire1) = sendAll (htonl res_len) events;
           (r2, events2, wire2) = sendAll (take (unat res_len) (bytes_of json_string)) events1
       in Inr (events2, wire1 @ wire2))"

text \<open>None: the message could not be received and the caller leaves its loop.\<close>

definition receive_json_message ::
  "json_text \<Rightarrow> read_event list \<Rightarrow> json option res \<times> read_event list" where
  "receive_json_message J events =
     (case recvAll 4 events of
        (None, events) \<Rightarrow> (Inr None, events)
      | (Some net_len, events) \<Rightarrow>
          let json_len = ntohl net_len
          in if json_len = 0 then (Inr None, events)
             else case recvAll (unat json_len) events of
                    (None, events) \<Rightarrow> (Inr None, events)
                  | (Some json_buffer, events) \<Rightarrow>
                      (case parse J (string_of json_buffer) of
                         None \<Rightarrow> (Inl Json_parse_error, events)
                       | Some j \<Rightarrow> (Inr (Some j), events)))"

section \<open>Specification\<close>

text \<open>A text layer that can write and read one message, \<open>{}\<close>.\<close>

definition empty_object_text :: json_text where
  "empty_object_text =
     \<lparr>dump = (\<lambda>j. if j = JObject [] then Inr ''{}'' else Inl (Json_type_error 316)),
      parse = (\<lambda>s. if s = ''{}'' then Some (JObject []) else None)\<rparr>"

text \<open>The bytes a reader still has to come, and a connection without failures.\<close>

definition incoming :: "read_event list \<Rightarrow> bytes" where
  "incoming events = concat (map (\<lambda>e. case e of Data bs \<Rightarrow> bs | _ \<Rightarrow> []) events)"

definition sound_reads :: "read_event list \<Rightarrow> bool" where
  "sound_reads events = list_all (\<lambda>e. e \<noteq> Read_error \<and> e \<noteq> Data []) events"

definition sound_writes :: "write_event list \<Rightarrow> bool" where
  "sound_writes events = list_all (\<lambda>e. e \<noteq> Write_error \<and> e \<noteq> Wrote 0) events"

definition capacity :: "write_event list \<Rightarrow> nat" where
  "capacity events = length (filter (\<lambda>e. e \<noteq> Want_write) events)"

definition message :: "string \<Rightarrow> bytes" where
  "message text = htonl (of_nat (length text)) @ bytes_of text"

section \<open>Reading and writing\<close>

lemma incoming_simps [simp]:
  "incoming [] = []"
  "incoming (Data bs # events) = bs @ incoming events"
  "incoming (Want_read # events) = incoming events"
  "incoming (Read_error # events) = incoming events"
  by (simp_all add: incoming_def)

lemma sound_reads_simps [simp]:
  "sound_reads []"
  "sound_reads (e # events) \<longleftrightarrow> e \<noteq> Read_error \<and> e \<noteq> Data [] \<and> sound_reads events"
  by (simp_all add: sound_reads_def)

lemma recv_loop_exact:
  "recv_loop n buffer events = (Some bs, events') \<Longrightarrow> length buffer \<le> n \<Longrightarrow>
     length bs = n \<and> buffer @ incoming events = bs @ incoming events'"
proof (induction n buffer events rule: recv_loop.induct)
  case (1 n buffer events)
  show ?case
  proof (cases "length buffer < n")
    case True
    with "1.prems" obtain e es where ev: "events = e # es"
      by (cases events) (auto simp: recv_loop.simps)
    show ?thesis
      using "1.prems" "1.IH" True ev
      by (cases e) (auto simp: recv_loop.simps [of n buffer] Let_def split: if_splits)
  qed (use "1.prems" in \<open>auto simp: recv_loop.simps [of n buffer]\<close>)
qed

lemma recv_loop_complete:
  "sound_reads events \<Longrightarrow> length buffer \<le> n \<Longrightarrow> n - length buffer \<le> length (incoming events) \<Longrightarrow>
     \<exists>bs events'. recv_loop n buffer events = (Some bs, events') \<and> sound_reads events'"
proof (induction n buffer events rule: recv_loop.induct)
  case (1 n buffer events)
  show ?case
  proof (cases "length buffer < n")
    case True
    with "1.prems" obtain e es where ev: "events = e # es" by (cases events) auto
    show ?thesis
      using "1.prems" "1.IH" True ev
      by (cases e) (auto simp: recv_loop.simps [of n buffer] Let_def)
  qed (use "1.prems" in \<open>auto simp: recv_loop.simps [of n buffer]\<close>)
qed

lemma send_loop_prefix:
  "send_loop rest events wire = (ok, events', wire') \<Longrightarrow>
     \<exists>p q. wire' = wire @ p \<and> rest = p @ q \<and> (ok \<longleftrightarrow> q = [])"
proof (induction rest events wire rule: send_loop.induct)
  case (2 rest event events wire)
  show ?case
  proof (cases "rest = []")
    case False
    show ?thesis
    proof (cases event)
      case (Wrote k)
      show ?thesis
      proof (cases "k = 0")
        case False
        with Wrote \<open>rest \<noteq> []\<close> "2.prems" have
          "send_loop (drop k rest) events (wire @ take k rest) = (ok, events', wire')" by simp
        with "2.IH"(1) [OF \<open>rest \<noteq> []\<close> Wrote False] obtain p q where
          "wire' = wire @ take k rest @ p" "drop k rest = p @ q" "ok \<longleftrightarrow> q = []" by auto
        then show ?thesis
          by (metis append.assoc append_take_drop_id)
      qed (use Wrote "2.prems" \<open>rest \<noteq> []\<close> in auto)
    qed (use "2" \<open>rest \<noteq> []\<close> in auto)
  qed (use "2.prems" in auto)
qed (auto split: if_splits)

lemma capacity_simps [simp]:
  "capacity [] = 0"
  "capacity (Want_write # events) = capacity events"
  "capacity (Write_error # events) = Suc (capacity events)"
  "capacity (Wrote k # events) = Suc (capacity events)"
  by (simp_all add: capacity_def)

lemma sound_writes_simps [simp]:
  "sound_writes []"
  "sound_writes (e # events) \<longleftrightarrow> e \<noteq> Write_error \<and> e \<noteq> Wrote 0 \<and> sound_writes events"
  by (simp_all add: sound_writes_def)

lemma send_loop_complete:
  "sound_writes events \<Longrightarrow> length rest \<le> capacity events \<Longrightarrow>
     \<exists>events'. send_loop rest events wire = (True, events', wire @ rest) \<and> sound_writes events' \<and>
       capacity events \<le> capacity events' + length rest"
proof (induction rest events wire rule: send_loop.induct)
  case (2 rest event events wire)
  show ?case
  proof (cases event)
    case (Wrote k)
    show ?thesis
    proof (cases "rest = []")
      case False
      have "\<exists>events'. send_loop (drop k rest) events (wire @ take k rest)
            = (True, events', (wire @ take k rest) @ drop k rest) \<and> sound_writes events' \<and>
          capacity events \<le> capacity events' + length (drop k rest)"
        using "2.prems" Wrote False by (intro "2.IH"(1)) auto
      then show ?thesis using "2.prems" Wrote False by (cases rest) auto
    qed (use 2 Wrote in auto)
  qed (use 2 in auto)
qed auto

section \<open>Messages\<close>

lemma ntohl_htonl [simp]: "ntohl (htonl x) = x"
proof (rule bit_word_eqI)
  fix n assume "n < LENGTH(32)"
  then consider "n < 8" | "8 \<le> n" "n < 16" | "16 \<le> n" "n < 24" | "24 \<le> n" "n < 32" by force
  then show "bit (ntohl (htonl x)) n = bit x n"
    by cases (auto simp: htonl_def bit_simps)
qed

lemma length_htonl [simp]: "length (htonl x) = 4"
  by (simp add: htonl_def)

lemma string_of_bytes_of [simp]: "string_of (bytes_of s) = s"
proof -
  have "unat (of_nat (of_char c) :: byte) = of_char c" for c :: char
    using nat_of_char_less_256 [of c] by (simp add: unat_of_nat take_bit_eq_mod del: of_nat_of_char)
  then show ?thesis by (simp add: string_of_def bytes_of_def o_def del: of_nat_of_char)
qed

lemma length_bytes_of [simp]: "length (bytes_of s) = length s"
  by (simp add: bytes_of_def)

lemma recvAll_next:
  assumes "sound_reads events" "incoming events = bs @ rest" "length bs = n"
  shows "\<exists>events'. recvAll n events = (Some bs, events') \<and> sound_reads events' \<and> incoming events' = rest"
proof -
  obtain bs' events' where r: "recv_loop n [] events = (Some bs', events')" "sound_reads events'"
    using recv_loop_complete [of events "[]" n] assms by auto
  from recv_loop_exact [OF r(1)] have "length bs' = n" "bs @ rest = bs' @ incoming events'"
    using assms(2) by simp_all
  then have "bs' = bs" "incoming events' = rest" using assms(3) by simp_all
  with r show ?thesis by (simp add: recvAll_def)
qed

lemma send_json_response_wire:
  assumes "dump J j = Inr s" "length s < 2 ^ 32" "sound_writes events" "length s + 4 \<le> capacity events"
  shows "\<exists>events'. send_json_response J j events = Inr (events', message s)"
proof -
  have u: "unat (of_nat (length s) :: u32) = length s"
    using assms(2) by (simp add: unat_of_nat take_bit_eq_mod)
  define l where "l = (of_nat (length s) :: u32)"
  obtain ev1 where 1: "send_loop (htonl l) events [] = (True, ev1, htonl l)"
      "sound_writes ev1" "capacity events \<le> capacity ev1 + 4"
    using send_loop_complete [of events "htonl l" "[]"] assms by auto
  obtain ev2 where 2: "send_loop (bytes_of s) ev1 [] = (True, ev2, bytes_of s)"
    using send_loop_complete [of ev1 "bytes_of s" "[]"] assms 1 by auto
  show ?thesis
    using 1 2 u by (simp add: send_json_response_def assms sendAll_def message_def l_def Let_def)
qed

lemma receive_json_message_text:
  assumes "s \<noteq> []" "length s < 2 ^ 32"
    and "sound_reads events" "incoming events = message s @ rest"
  shows "\<exists>events'. receive_json_message J events =
      (case parse J s of None \<Rightarrow> Inl Json_parse_error | Some j \<Rightarrow> Inr (Some j), events') \<and>
    sound_reads events' \<and> incoming events' = rest"
proof -
  define l where "l = (of_nat (length s) :: u32)"
  have u: "unat l = length s"
    using assms(2) by (simp add: l_def unat_of_nat take_bit_eq_mod)
  obtain ev1 where 1: "recvAll 4 events = (Some (htonl l), ev1)" "sound_reads ev1"
      "incoming ev1 = bytes_of s @ rest"
    using recvAll_next [of events "htonl l" "bytes_of s @ rest" 4] assms by (auto simp: message_def l_def)
  obtain ev2 where 2: "recvAll (length s) ev1 = (Some (bytes_of s), ev2)" "sound_reads ev2" "incoming ev2 = rest"
    using recvAll_next [of ev1 "bytes_of s" rest "length s"] 1 by auto
  have "l \<noteq> 0" using u assms(1) by (cases "l = 0") auto
  with 1 2 u show ?thesis by (simp add: receive_json_message_def Let_def split: option.split)
qed

section \<open>Properties\<close>



text \<open>
  Whatever happens on the connection, a successful \<open>recvAll\<close> returns exactly the
  requested number of bytes, the next ones in order, and loses none of the bytes that follow.
\<close>

theorem recvAll_exact:
  assumes "recvAll n events = (Some bs, events')"
  shows "length bs = n \<and> incoming events = bs @ incoming events'"
  using recv_loop_exact [of n "[]" events bs events'] assms by (simp add: recvAll_def)

theorem recvAll_exact_witness:
  "length [1 :: byte, 2, 3] = 3 \<and>
     incoming [Data [1], Want_read, Data [2, 3, 4]] = [1, 2, 3] @ incoming [Data [4]]"
proof (rule recvAll_exact)
  show "recvAll 3 [Data [1], Want_read, Data [2, 3, 4]] = (Some [1, 2, 3], [Data [4]])"
    by (simp add: recvAll_def recv_loop.simps)
qed

text \<open>
  Whatever happens on the connection, \<open>sendAll\<close> puts a prefix of the buffer on the
  wire, returns the length of the buffer when it is the whole buffer and -1 otherwise.
\<close>

theorem sendAll_prefix:
  assumes "sendAll buffer events = (r, events', wire)"
  shows "\<exists>unsent. buffer = wire @ unsent \<and> (if unsent = [] then r = int (length buffer) else r = -1)"
proof -
  obtain ok ev w where l: "send_loop buffer events [] = (ok, ev, w)" by (metis prod_cases3)
  with assms have "w = wire" "r = (if ok then int (length buffer) else -1)"
    by (auto simp: sendAll_def)
  with send_loop_prefix [OF l] show ?thesis by auto
qed

theorem sendAll_prefix_witness:
  "\<exists>unsent. [1 :: byte, 2, 3] = [1, 2] @ unsent \<and>
     (if unsent = [] then (-1 :: int) = int (length [1 :: byte, 2, 3]) else (-1 :: int) = -1)"
proof (rule sendAll_prefix)
  show "sendAll [1, 2, 3] [Wrote 2, Write_error] = (-1, [], [1, 2])"
    by (simp add: sendAll_def)
qed

end
