(* ===== verification/Metadata_Parser.thy ===== *)
theory Metadata_Parser
  imports Regex Ssl
begin

text \<open>
  src/metadata_parser.cpp: the bounding boxes of the camera's metadata stream are parsed,
  kept in a time-stamped buffer and pushed to a client after a delay. The clock, the pipe of
  the ffmpeg process and the flag as other threads set it are arguments.
\<close>

section \<open>State\<close>

record ServerBBox =
  object_id :: int
  type :: string
  confidence :: real
  left :: int
  top :: int
  right :: int
  bottom :: int

text \<open>Time points are in nanoseconds.\<close>

record TimestampedBBox =
  timestamp :: int
  bboxes :: "ServerBBox list"

record bbox_state =
  latest_bboxes :: "ServerBBox list"
  parser_running :: bool
  bbox_buffer_delay_ms :: int
  bbox_send_interval_ms :: int
  bbox_buffer :: "TimestampedBBox list"

definition bbox_init :: bbox_state where
  "bbox_init = \<lparr>latest_bboxes = [], parser_running = False, bbox_buffer_delay_ms = 2000,
     bbox_send_interval_ms = 50, bbox_buffer = []\<rparr>"

definition start_metadata_parser :: "bbox_state \<Rightarrow> bbox_state" where
  "start_metadata_parser st = st\<lparr>parser_running := True\<rparr>"

definition stop_metadata_parser :: "bbox_state \<Rightarrow> bbox_state" where
  "stop_metadata_parser st = st\<lparr>parser_running := False\<rparr>"

section \<open>The buffer\<close>

definition clear_bbox_buffer :: "bbox_state \<Rightarrow> bbox_state" where
  "clear_bbox_buffer st = st\<lparr>bbox_buffer := []\<rparr>"

text \<open>\<open>duration_cast<milliseconds>\<close> truncates towards zero.\<close>

definition age_ms :: "int \<Rightarrow> TimestampedBBox \<Rightarrow> int" where
  "age_ms now entry = (now - timestamp entry) sdiv 1000000"

fun remove_old :: "int \<Rightarrow> TimestampedBBox list \<Rightarrow> TimestampedBBox list" where
  "remove_old now [] = []"
| "remove_old now (oldest # rest) =
     (if age_ms now oldest > 10000 then remove_old now rest else oldest # rest)"

fun remove_excess :: "TimestampedBBox list \<Rightarrow> TimestampedBBox list" where
  "remove_excess [] = []"
| "remove_excess (oldest # rest) =
     (if length (oldest # rest) > 50 then remove_excess rest else oldest # rest)"

text \<open>\<open>t1\<close> is the clock when the entry is made, \<open>t2\<close> when the buffer is cleaned up.\<close>

definition update_bbox_buffer :: "int \<Rightarrow> int \<Rightarrow> ServerBBox list \<Rightarrow> bbox_state \<Rightarrow> bbox_state" where
  "update_bbox_buffer t1 t2 new_bboxes st =
     (let data = \<lparr>timestamp = t1, bboxes = new_bboxes\<rparr>
      in st\<lparr>bbox_buffer := remove_excess (remove_old t2 (bbox_buffer st @ [data]))\<rparr>)"

text \<open>The locked section of \<open>send_bboxes_to_client\<close>: at most the oldest entry is taken.\<close>

definition take_due :: "int \<Rightarrow> bbox_state \<Rightarrow> ServerBBox list \<times> int \<times> int \<times> bbox_state" where
  "take_due now st =
     (let buffer_size = int (length (bbox_buffer st))
      in case bbox_buffer st of
           [] \<Rightarrow> ([], buffer_size, 0, st)
         | oldest # rest \<Rightarrow>
             (if age_ms now oldest \<ge> bbox_buffer_delay_ms st
              then (bboxes oldest, buffer_size, 1, st\<lparr>bbox_buffer := rest\<rparr>)
              else ([], buffer_size, 0, st)))"

definition bbox_json :: "ServerBBox \<Rightarrow> json" where
  "bbox_json box = json_obj
     [(''id'', JInt (object_id box)), (''type'', JString (type box)),
      (''confidence'', JFloat (confidence box)), (''x'', JInt (left box)), (''y'', JInt (top box)),
      (''width'', JInt (wrap32 (right box - left box))),
      (''height'', JInt (wrap32 (bottom box - top box)))]"

definition bboxes_response :: "ServerBBox list \<Rightarrow> int \<Rightarrow> int \<Rightarrow> json" where
  "bboxes_response boxes buffer_size processed_count = json_obj
     [(''response_id'', JInt 200), (''bboxes'', JArray (map bbox_json boxes)),
      (''buffer_info'', json_obj [(''buffer_size'', JInt buffer_size),
                                 (''processed_count'', JInt processed_count)])]"

text \<open>
  The result is what the function returns, the state, and the bytes put on the wire. A
  failed length prefix ends the function, a failed text only changes the result.
\<close>

definition send_bboxes_to_client ::
  "json_text \<Rightarrow> int \<Rightarrow> write_event list \<Rightarrow> bbox_state \<Rightarrow> bool res \<times> bbox_state \<times> bytes" where
  "send_bboxes_to_client J now events st =
     (let (bboxes_to_send, buffer_size, processed_count, st) = take_due now st
      in if bboxes_to_send = [] then (Inr True, st, [])
         else case dump J (bboxes_response bboxes_to_send buffer_size processed_count) of
             Inl e \<Rightarrow> (Inl e, st, [])
           | Inr json_str \<Rightarrow>
               (let res_len = of_nat (length json_str) :: u32;
                    (r1, events, wire1) = sendAll (htonl res_len) events
                in if r1 = -1 then (Inr False, st, wire1)
                   else let (r2, events, wire2) = sendAll (take (unat res_len) (bytes_of json_str)) events
                        in (Inr (r2 \<noteq> -1), st, wire1 @ wire2)))"

section \<open>Parsing the stream\<close>

definition coord_re :: "nat \<Rightarrow> re" where
  "coord_re n = Grp n (seqs [plus (Cls is_digit), opt (lit ''.''), Star True (Cls is_digit)])"

definition object_regex :: re where
  "object_regex = seqs
     [lit ''<tt:Object ObjectId=\"'', Grp 1 (plus (Cls is_digit)), lit ''\">'',
      Star False (Cls not_eol), lit ''<tt:BoundingBox left=\"'', coord_re 2,
      lit ''\" top=\"'', coord_re 3, lit ''\" right=\"'', coord_re 4, lit ''\" bottom=\"'', coord_re 5,
      lit ''\"/>'', Grp 6 (Star False (Cls not_eol)), lit ''</tt:Object>'']"

definition class_regex :: re where
  "class_regex = seqs
     [lit ''<tt:ClassCandidate>'', Star True (Cls is_space), lit ''<tt:Type>'',
      Grp 1 (plus (Cls is_word)), lit ''</tt:Type>'', Star True (Cls is_space),
      lit ''<tt:Likelihood>'', Grp 2 (plus (Cls (\<lambda>x. is_digit x \<or> x = CHR ''.''))),
      lit ''</tt:Likelihood>'']"

text \<open>One match of the object pattern; \<open>fl\<close> rounds to a float.\<close>

definition parse_object :: "(real \<Rightarrow> real) \<Rightarrow> caps \<Rightarrow> ServerBBox res" where
  "parse_object fl m =
     bind_res (stoi (cap m 1)) (\<lambda>object_id.
     bind_res (bind_res (stof fl (cap m 2)) int_of_double) (\<lambda>left.
     bind_res (bind_res (stof fl (cap m 3)) int_of_double) (\<lambda>top.
     bind_res (bind_res (stof fl (cap m 4)) int_of_double) (\<lambda>right.
     bind_res (bind_res (stof fl (cap m 5)) int_of_double) (\<lambda>bottom.
       case regex_search class_regex (cap m 6) of
         Some (_, _, _, c) \<Rightarrow>
           bind_res (stof fl (cap c 2)) (\<lambda>confidence.
             Inr \<lparr>object_id = object_id, type = cap c 1, confidence = confidence,
                  left = left, top = top, right = right, bottom = bottom\<rparr>)
       | None \<Rightarrow>
           Inr \<lparr>object_id = object_id, type = ''Unknown'', confidence = 0,
                left = left, top = top, right = right, bottom = bottom\<rparr>)))))"

fun parse_objects :: "(real \<Rightarrow> real) \<Rightarrow> caps list \<Rightarrow> ServerBBox list res" where
  "parse_objects fl [] = Inr []"
| "parse_objects fl (m # ms) =
     bind_res (parse_object fl m) (\<lambda>box. bind_res (parse_objects fl ms) (\<lambda>boxes. Inr (box # boxes)))"

definition stream_end :: string where
  "stream_end = ''</tt:MetadataStream>''"

text \<open>
  The inner loop: \<open>running k\<close> is the flag and \<open>clock1 k\<close>, \<open>clock2 k\<close> are the two clock
  readings in the k-th round.
\<close>

function parse_packets ::
  "(real \<Rightarrow> real) \<Rightarrow> (nat \<Rightarrow> bool) \<Rightarrow> (nat \<Rightarrow> int) \<Rightarrow> (nat \<Rightarrow> int) \<Rightarrow> nat \<Rightarrow> string \<Rightarrow> bbox_state \<Rightarrow>
     (nat \<times> string \<times> bbox_state) res" where
  "parse_packets fl running clock1 clock2 k xml_buffer st =
     (case (if running k then find_sub stream_end xml_buffer else None) of
        None \<Rightarrow> Inr (Suc k, xml_buffer, st)
      | Some end_pos \<Rightarrow>
          bind_res (parse_objects fl (regex_all object_regex (take end_pos xml_buffer))) (\<lambda>parsed_boxes.
            parse_packets fl running clock1 clock2 (Suc k) (drop (end_pos + length stream_end) xml_buffer)
              ((update_bbox_buffer (clock1 k) (clock2 k) parsed_boxes st)\<lparr>latest_bboxes := parsed_boxes\<rparr>)))"
  by pat_completeness auto
termination
proof (relation "measure (\<lambda>(fl, running, clock1, clock2, k, xml_buffer, st). length xml_buffer)", goal_cases)
  case (2 fl running clock1 clock2 k xml_buffer st end_pos parsed_boxes)
  then have "find_sub stream_end xml_buffer = Some end_pos" by (simp split: if_splits)
  then have "end_pos + length stream_end \<le> length xml_buffer" using find_sub_Some by blast
  then show ?case by (simp add: stream_end_def)
qed simp

declare parse_packets.simps [simp del]

text \<open>
  The outer loop over what \<open>fread\<close> delivers (at most 8191 bytes, cut at the first NUL when
  the buffer is appended as a C string) until the end of the pipe.
\<close>

fun parse_chunks ::
  "(real \<Rightarrow> real) \<Rightarrow> (nat \<Rightarrow> bool) \<Rightarrow> (nat \<Rightarrow> int) \<Rightarrow> (nat \<Rightarrow> int) \<Rightarrow> string list \<Rightarrow> nat \<Rightarrow> string \<Rightarrow> bbox_state \<Rightarrow>
     bbox_state res" where
  "parse_chunks fl running clock1 clock2 [] k xml_buffer st = Inr st"
| "parse_chunks fl running clock1 clock2 (buffer # chunks) k xml_buffer st =
     (if running k then
        (if buffer = [] then parse_chunks fl running clock1 clock2 chunks (Suc k) xml_buffer st
         else bind_res (parse_packets fl running clock1 clock2 (Suc k)
                (xml_buffer @ takeWhile (\<lambda>x. x \<noteq> CHR 0x00) buffer) st) (\<lambda>(k, xml_buffer, st).
                parse_chunks fl running clock1 clock2 chunks k xml_buffer st))
      else Inr st)"

definition parse_metadata ::
  "(real \<Rightarrow> real) \<Rightarrow> bool \<Rightarrow> bool \<Rightarrow> (nat \<Rightarrow> bool) \<Rightarrow> (nat \<Rightarrow> int) \<Rightarrow> (nat \<Rightarrow> int) \<Rightarrow> string list \<Rightarrow> bbox_state \<Rightarrow>
     bbox_state res" where
  "parse_metadata fl config_loaded pipe_opened running clock1 clock2 chunks st =
     (if \<not> parser_running st then Inr st
      else if \<not> config_loaded then Inr st
      else if \<not> pipe_opened then Inr st
      else parse_chunks fl running clock1 clock2 chunks 0 '''' st)"

section \<open>Reading boxes from JSON\<close>

fun get_float :: "(real \<Rightarrow> real) \<Rightarrow> json \<Rightarrow> real res" where
  "get_float fl (JInt i) = Inr (fl (of_int i))"
| "get_float fl (JFloat r) = Inr (fl r)"
| "get_float fl (JBool b) = Inr (if b then 1 else 0)"
| "get_float fl _ = Inl (Json_type_error 302)"

definition json_at_key :: "json \<Rightarrow> string \<Rightarrow> json res" where
  "json_at_key j k =
     (case j of
        JObject kvs \<Rightarrow> (case map_of kvs k of None \<Rightarrow> Inl (Out_of_range ''key not found'') | Some v \<Rightarrow> Inr v)
      | _ \<Rightarrow> Inl (Json_type_error 304))"

definition parse_server_bbox :: "(real \<Rightarrow> real) \<Rightarrow> json \<Rightarrow> ServerBBox res" where
  "parse_server_bbox fl value =
     bind_res (bind_res (json_at_key value ''object_id'') get_int) (\<lambda>object_id.
     bind_res (bind_res (json_at_key value ''type'') get_string) (\<lambda>type.
     bind_res (bind_res (json_at_key value ''confidence'') (get_float fl)) (\<lambda>confidence.
     bind_res (bind_res (json_at_key value ''left'') get_int) (\<lambda>left.
     bind_res (bind_res (json_at_key value ''top'') get_int) (\<lambda>top.
     bind_res (bind_res (json_at_key value ''right'') get_int) (\<lambda>right.
     bind_res (bind_res (json_at_key value ''bottom'') get_int) (\<lambda>bottom.
       Inr \<lparr>object_id = object_id, type = type, confidence = confidence,
            left = left, top = top, right = right, bottom = bottom\<rparr>)))))))"

fun parse_server_bboxes :: "(real \<Rightarrow> real) \<Rightarrow> json list \<Rightarrow> ServerBBox list res" where
  "parse_server_bboxes fl [] = Inr []"
| "parse_server_bboxes fl (value # values) =
     bind_res (parse_server_bbox fl value) (\<lambda>bbox.
     bind_res (parse_server_bboxes fl values) (\<lambda>boxes. Inr (bbox # boxes)))"

definition parseServerBBoxes :: "(real \<Rightarrow> real) \<Rightarrow> json \<Rightarrow> ServerBBox list res" where
  "parseServerBBoxes fl bboxArray = parse_server_bboxes fl (json_items bboxArray)"

section \<open>The buffer as a state machine\<close>

text \<open>
  The threads that share the buffer, interleaved at their critical sections under a clock
  that never goes back.
\<close>

inductive bbox_step :: "int \<times> bbox_state \<Rightarrow> int \<times> bbox_state \<Rightarrow> bool" where
  update: "now \<le> t1 \<Longrightarrow> t1 \<le> t2 \<Longrightarrow> bbox_step (now, st) (t2, update_bbox_buffer t1 t2 bs st)"
| take: "now \<le> t \<Longrightarrow> take_due t st = (bs, n, m, st') \<Longrightarrow> bbox_step (now, st) (t, st')"
| clear: "bbox_step (now, st) (now, clear_bbox_buffer st)"
| start: "bbox_step (now, st) (now, start_metadata_parser st)"
| stop: "bbox_step (now, st) (now, stop_metadata_parser st)"
| latest: "bbox_step (now, st) (now, st\<lparr>latest_bboxes := bs\<rparr>)"

inductive_cases bbox_stepE: "bbox_step (now, st) s'"

definition bbox_inv :: "int \<times> bbox_state \<Rightarrow> bool" where
  "bbox_inv s = (case s of (now, st) \<Rightarrow>
     length (bbox_buffer st) \<le> 50 \<and>
     sorted_wrt (\<lambda>a b. timestamp a \<le> timestamp b) (bbox_buffer st) \<and>
     list_all (\<lambda>e. timestamp e \<le> now) (bbox_buffer st))"

text \<open>
  The entries recorded and the entries handed out with the time, for a sequence of
  operations.
\<close>

datatype bbox_op = Update int int "ServerBBox list" | Take int | Clear

fun recorded :: "bbox_op list \<Rightarrow> TimestampedBBox list" where
  "recorded [] = []"
| "recorded (Update t1 t2 bs # ops) = \<lparr>timestamp = t1, bboxes = bs\<rparr> # recorded ops"
| "recorded (_ # ops) = recorded ops"

fun handed_out :: "bbox_state \<Rightarrow> bbox_op list \<Rightarrow> (int \<times> ServerBBox list) list" where
  "handed_out st [] = []"
| "handed_out st (Update t1 t2 bs # ops) = handed_out (update_bbox_buffer t1 t2 bs st) ops"
| "handed_out st (Take now # ops) =
     (case take_due now st of (bs, buffer_size, processed_count, st') \<Rightarrow>
        if processed_count = 0 then handed_out st' ops else (now, bs) # handed_out st' ops)"
| "handed_out st (Clear # ops) = handed_out (clear_bbox_buffer st) ops"

text \<open>A run with a constant clock and the parser never stopped, and its result without the round number.\<close>

abbreviation steady :: "(real \<Rightarrow> real) \<Rightarrow> int \<Rightarrow> nat \<Rightarrow> string \<Rightarrow> bbox_state \<Rightarrow> (nat \<times> string \<times> bbox_state) res" where
  "steady fl t \<equiv> parse_packets fl (\<lambda>_. True) (\<lambda>_. t) (\<lambda>_. t)"

definition forget :: "(nat \<times> 'a) res \<Rightarrow> 'a res" where
  "forget r = bind_res r (\<lambda>(k, x). Inr x)"

section \<open>Lemmas on the buffer\<close>

lemma remove_old_suffix: "suffix (remove_old now q) q"
  by (induction q) (auto intro: suffix_ConsI)

lemma remove_excess_suffix: "suffix (remove_excess q) q"
  by (induction q) (auto intro: suffix_ConsI)

lemma length_remove_excess: "length (remove_excess q) = min 50 (length q)"
  by (induction q) auto



lemma age_ms_mono: "timestamp a \<le> timestamp b \<Longrightarrow> age_ms now b \<le> age_ms now a"
  unfolding age_ms_def signed_divide_int_def
  by (auto simp: zdiv_mono1 sgn_if abs_if)
    (rule order_trans [of _ 0], simp_all add: pos_imp_zdiv_nonneg_iff)

lemma remove_old_young:
  "sorted_wrt (\<lambda>a b. timestamp a \<le> timestamp b) q \<Longrightarrow>
     list_all (\<lambda>e. age_ms now e \<le> 10000) (remove_old now q)"
proof (induction q)
  case (Cons a q)
  then show ?case
    by (auto simp: list_all_iff) (meson age_ms_mono order_trans not_less)
qed simp

lemma remove_excess_last: "q \<noteq> [] \<Longrightarrow> last (remove_excess q) = last q"
  by (induction q) auto

lemma remove_old_last:
  "age_ms now e \<le> 10000 \<Longrightarrow> remove_old now (q @ [e]) \<noteq> [] \<and> last (remove_old now (q @ [e])) = e"
  by (induction q) auto

lemma age_ms_new:
  "t1 \<le> t2 \<Longrightarrow> t2 - t1 \<le> 10000000000 \<Longrightarrow> age_ms t2 \<lparr>timestamp = t1, bboxes = bs\<rparr> \<le> 10000"
  using zdiv_mono1 [of "t2 - t1" 10000000000 1000000]
  by (simp add: age_ms_def signed_divide_int_def sgn_if)

lemma suffix_sorted_wrt: "suffix p q \<Longrightarrow> sorted_wrt P q \<Longrightarrow> sorted_wrt P p"
  by (auto simp: suffix_def sorted_wrt_append)

lemma suffix_list_all: "suffix p q \<Longrightarrow> list_all P q \<Longrightarrow> list_all P p"
  by (auto simp: suffix_def)

lemma update_suffix:
  "suffix (bbox_buffer (update_bbox_buffer t1 t2 bs st)) (bbox_buffer st @ [\<lparr>timestamp = t1, bboxes = bs\<rparr>])"
proof -
  have "bbox_buffer (update_bbox_buffer t1 t2 bs st) =
      remove_excess (remove_old t2 (bbox_buffer st @ [\<lparr>timestamp = t1, bboxes = bs\<rparr>]))"
    by (simp add: update_bbox_buffer_def Let_def)
  then show ?thesis
    using suffix_order.trans [OF remove_excess_suffix remove_old_suffix] by metis
qed

lemma bbox_inv_step:
  assumes "bbox_inv s" "bbox_step s s'"
  shows "bbox_inv s'"
  using assms(2, 1)
proof cases
  case (update now t1 t2 st bs)
  let ?q = "bbox_buffer st @ [\<lparr>timestamp = t1, bboxes = bs\<rparr>]"
  have "sorted_wrt (\<lambda>a b. timestamp a \<le> timestamp b) ?q" "list_all (\<lambda>e. timestamp e \<le> t2) ?q"
    using assms(1) update by (auto simp: bbox_inv_def sorted_wrt_append list_all_iff)
  moreover have "length (bbox_buffer (update_bbox_buffer t1 t2 bs st)) \<le> 50"
    by (simp add: update_bbox_buffer_def Let_def length_remove_excess)
  ultimately show ?thesis
    using suffix_sorted_wrt [OF update_suffix] suffix_list_all [OF update_suffix] update(2)
    by (simp add: bbox_inv_def)
next
  case (take now t st bs n m st')
  then have "suffix (bbox_buffer st') (bbox_buffer st)"
    by (auto simp: take_due_def Let_def split: list.splits if_splits intro: suffix_ConsI)
  moreover have "list_all (\<lambda>e. timestamp e \<le> t) (bbox_buffer st)"
    using assms(1) take by (auto simp: bbox_inv_def list_all_iff)
  moreover have "length (bbox_buffer st') \<le> length (bbox_buffer st)"
    using \<open>suffix (bbox_buffer st') (bbox_buffer st)\<close> by (rule suffix_length_le)
  ultimately show ?thesis
    using assms(1) take by (auto simp: bbox_inv_def intro: suffix_sorted_wrt suffix_list_all)
qed (auto simp: bbox_inv_def clear_bbox_buffer_def start_metadata_parser_def stop_metadata_parser_def)

interpretation bbox: inv_system bbox_step bbox_inv
  by unfold_locales (rule bbox_inv_step)

lemma handed_out_entries:
  "\<exists>es. subseq es (bbox_buffer st @ recorded ops) \<and>
     list_all2 (\<lambda>(now, bs) e. bs = bboxes e \<and> bbox_buffer_delay_ms st \<le> age_ms now e) (handed_out st ops) es"
proof (induction ops arbitrary: st)
  case Nil
  then show ?case by auto
next
  case (Cons op ops)
  show ?case
  proof (cases op)
    case (Update t1 t2 bs)
    let ?st = "update_bbox_buffer t1 t2 bs st"
    obtain es where es: "subseq es (bbox_buffer ?st @ recorded ops)"
        "list_all2 (\<lambda>(now, bs) e. bs = bboxes e \<and> bbox_buffer_delay_ms ?st \<le> age_ms now e) (handed_out ?st ops) es"
      using Cons.IH by blast
    have "subseq (bbox_buffer ?st @ recorded ops) (bbox_buffer st @ recorded (op # ops))"
      using list_emb_append_mono [OF suffix_imp_subseq [OF update_suffix [of t1 t2 bs st]] subseq_order.refl [of "recorded ops"]]
      by (simp add: Update)
    with es show ?thesis
      using subseq_order.trans by (fastforce simp: Update update_bbox_buffer_def Let_def)
  next
    case (Take now)
    show ?thesis
    proof (cases "bbox_buffer st")
      case Nil
      with Cons.IH [of st] show ?thesis by (simp add: Take take_due_def)
    next
      case buf: (Cons e q)
      note IH = Cons.IH and buffer = buf
      show ?thesis
      proof (cases "bbox_buffer_delay_ms st \<le> age_ms now e")
        case True
        let ?st = "st\<lparr>bbox_buffer := q\<rparr>"
        obtain es where "subseq es (q @ recorded ops)"
            "list_all2 (\<lambda>(now, bs) e. bs = bboxes e \<and> bbox_buffer_delay_ms st \<le> age_ms now e) (handed_out ?st ops) es"
          using IH [of ?st] by auto
        then show ?thesis
          by (intro exI [of _ "e # es"]) (simp add: Take take_due_def buffer True)
      next
        case False
        with IH [of st] show ?thesis by (simp add: Take take_due_def buffer)
      qed
    qed
  next
    case Clear
    then show ?thesis using Cons.IH [of "clear_bbox_buffer st"]
      by (auto simp: clear_bbox_buffer_def intro: subseq_drop_many)
  qed
qed

section \<open>Cutting the stream into chunks\<close>

lemma find_sub_append: "find_sub p s = Some n \<Longrightarrow> find_sub p (s @ t) = Some n"
proof (induction s arbitrary: n)
  case Nil
  then show ?case by (cases t) (auto split: if_splits)
next
  case (Cons x s)
  show ?case
  proof (cases "take (length p) (x # s) = p")
    case True
    then have "take (length p) (x # s @ t) = p"
      by (metis append_Cons take_append length_take min.absorb2 min_def take_all append.right_neutral nat_le_linear diff_is_0_eq take0)
    with Cons.prems True show ?thesis by simp
  next
    case False
    then obtain m where m: "find_sub p s = Some m" "n = Suc m"
      using Cons.prems by (auto split: option.splits)
    have "take (length p) (x # s @ t) \<noteq> p"
    proof -
      have "m + length p \<le> length s" using find_sub_Some m(1) by blast
      then have "take (length p) (x # s @ t) = take (length p) (x # s)"
        by (cases "length p") auto
      with False show ?thesis by simp
    qed
    with m Cons.IH show ?thesis by simp
  qed
qed

lemma packet_shorter:
  assumes "find_sub stream_end x = Some n"
  shows "length (drop (n + length stream_end) x) < length x"
proof -
  have "n + length stream_end \<le> length x" using find_sub_Some assms by blast
  then show ?thesis by (simp add: stream_end_def)
qed

lemma forget_simps [simp]: "forget (Inl e) = Inl e" "forget (Inr (k, x)) = Inr x"
  by (simp_all add: forget_def)

lemma forget_bind [simp]: "forget (bind_res m f) = bind_res m (\<lambda>x. forget (f x))"
  by (cases m) simp_all

lemma steady_index: "forget (steady fl t k x st) = forget (steady fl t k' x st)"
proof (induction x arbitrary: k k' st rule: measure_induct_rule [where f = length])
  case (less x)
  show ?case
  proof (cases "find_sub stream_end x")
    case None
    then show ?thesis by (simp add: parse_packets.simps)
  next
    case (Some n)
    from less.IH [OF packet_shorter [OF Some], of "Suc k" _ "Suc k'"] show ?thesis
      using Some by (simp add: parse_packets.simps [of _ _ _ _ k] parse_packets.simps [of _ _ _ _ k'] cong: bind_res_cong)
  qed
qed

lemma steady_append:
  "forget (steady fl t k (x @ y) st) =
     bind_res (forget (steady fl t k x st)) (\<lambda>(x', st'). forget (steady fl t k (x' @ y) st'))"
proof (induction x arbitrary: k st rule: measure_induct_rule [where f = length])
  case (less x)
  show ?case
  proof (cases "find_sub stream_end x")
    case None
    then show ?thesis by (simp add: parse_packets.simps [of _ _ _ _ k x])
  next
    case (Some n)
    then have le: "n + length stream_end \<le> length x" using find_sub_Some by blast
    note IH = less.IH [OF packet_shorter [OF Some], of "Suc k"]
    show ?thesis
      using Some find_sub_append [OF Some, of y] le IH
      by (simp add: parse_packets.simps [of _ _ _ _ k "x @ y"] parse_packets.simps [of _ _ _ _ k x]
          bind_res_assoc steady_index [of _ _ k _ _ "Suc k"] case_prod_beta)
  qed
qed

lemma steady_rest: "steady fl t k x st = Inr (k', x', st') \<Longrightarrow> find_sub stream_end x' = None"
proof (induction x arbitrary: k st rule: measure_induct_rule [where f = length])
  case (less x)
  show ?case
  proof (cases "find_sub stream_end x")
    case None
    then show ?thesis using less.prems by (simp add: parse_packets.simps [of _ _ _ _ k])
  next
    case (Some n)
    with less.prems show ?thesis
      using less.IH [OF packet_shorter [OF Some]]
      by (auto simp: parse_packets.simps [of _ _ _ _ k x] bind_res_Inr_iff)
  qed
qed

lemma parse_chunks_steady:
  "find_sub stream_end x = None \<Longrightarrow> list_all (\<lambda>c. CHR 0x00 \<notin> set c) chunks \<Longrightarrow>
    parse_chunks fl (\<lambda>_. True) (\<lambda>_. t) (\<lambda>_. t) chunks k x st =
      bind_res (forget (steady fl t 0 (x @ concat chunks) st)) (\<lambda>(x', st'). Inr st')"
proof (induction chunks arbitrary: k x st)
  case Nil
  then show ?case by (simp add: parse_packets.simps)
next
  case (Cons c chunks)
  show ?case
  proof (cases "c = []")
    case True
    then show ?thesis using Cons by simp
  next
    case False
    have tw: "takeWhile (\<lambda>x. x \<noteq> CHR 0x00) c = c"
      using Cons.prems(2) by (auto simp: takeWhile_eq_all_conv)
    have idx: "forget (steady fl t 0 (x @ c) st) = forget (steady fl t (Suc k) (x @ c) st)"
      by (rule steady_index)
    show ?thesis
      using False Cons.prems(2) Cons.IH steady_rest [of fl t "Suc k" "x @ c" st] steady_append [of fl t 0 "x @ c" "concat chunks" st]
      unfolding idx by (cases "steady fl t (Suc k) (x @ c) st") (auto simp: tw)
  qed
qed

section \<open>Properties\<close>

text \<open>
  Claim C22: in every state that the threads sharing the buffer can reach, the buffer holds
  at most 50 entries, in the order of their time stamps, none of them from the future.
\<close>

theorem bbox_buffer_bounded:
  assumes "bbox_step\<^sup>*\<^sup>* (t0, bbox_init) (now, st)"
  shows "length (bbox_buffer st) \<le> 50 \<and>
    sorted_wrt (\<lambda>a b. timestamp a \<le> timestamp b) (bbox_buffer st) \<and>
    list_all (\<lambda>e. timestamp e \<le> now) (bbox_buffer st)"
proof -
  have "bbox_inv (t0, bbox_init)" by (simp add: bbox_inv_def bbox_init_def)
  with assms have "bbox_inv (now, st)" by (rule bbox.inv_reachable)
  then show ?thesis by (simp add: bbox_inv_def)
qed

theorem bbox_buffer_bounded_witness:
  "let st = update_bbox_buffer 5 6 [] (update_bbox_buffer 1 2 [] bbox_init)
   in map timestamp (bbox_buffer st) = [1, 5] \<and> sorted_wrt (\<lambda>a b. timestamp a \<le> timestamp b) (bbox_buffer st)"
proof -
  let ?st = "update_bbox_buffer 1 2 [] bbox_init"
  have "bbox_step (0, bbox_init) (2, ?st)" by (rule bbox_step.update) simp_all
  moreover have "bbox_step (2, ?st) (6, update_bbox_buffer 5 6 [] ?st)" by (rule bbox_step.update) simp_all
  ultimately have "bbox_step\<^sup>*\<^sup>* (0, bbox_init) (6, update_bbox_buffer 5 6 [] ?st)" by simp
  from bbox_buffer_bounded [OF this] show ?thesis
    by (simp add: update_bbox_buffer_def bbox_init_def age_ms_def signed_divide_int_def)
qed

text \<open>
  Claim C24: for every sequence of operations, what is handed out for sending is a selection
  of the recorded entries in the order of recording, each at most once and unchanged, and
  none before the delay of 2000 ms has passed since it was recorded.
\<close>

theorem bbox_delivery:
  "\<exists>entries. subseq entries (recorded ops) \<and>
     list_all2 (\<lambda>(now, bs) e. bs = bboxes e \<and> 2000 \<le> age_ms now e) (handed_out bbox_init ops) entries"
  using handed_out_entries [of bbox_init ops] by (simp add: bbox_init_def)

text \<open>
  Recording leaves no entry older than ten seconds in a buffer with ascending time
  stamps, and the new entry is the last one unless recording itself took longer.
\<close>

theorem update_bbox_buffer_fresh:
  assumes "bbox_inv (now, st)" "now \<le> t1" "t1 \<le> t2"
  shows "list_all (\<lambda>e. age_ms t2 e \<le> 10000) (bbox_buffer (update_bbox_buffer t1 t2 bs st)) \<and>
    (t2 - t1 \<le> 10000000000 \<longrightarrow>
      last (bbox_buffer (update_bbox_buffer t1 t2 bs st)) = \<lparr>timestamp = t1, bboxes = bs\<rparr>)"
proof -
  let ?new = "\<lparr>timestamp = t1, bboxes = bs\<rparr>" and ?q = "bbox_buffer st @ [\<lparr>timestamp = t1, bboxes = bs\<rparr>]"
  have "sorted_wrt (\<lambda>a b. timestamp a \<le> timestamp b) ?q"
    using assms by (auto simp: bbox_inv_def sorted_wrt_append list_all_iff)
  from suffix_list_all [OF remove_excess_suffix remove_old_young [OF this]]
  have "list_all (\<lambda>e. age_ms t2 e \<le> 10000) (bbox_buffer (update_bbox_buffer t1 t2 bs st))"
    by (simp add: update_bbox_buffer_def Let_def)
  moreover have "last (bbox_buffer (update_bbox_buffer t1 t2 bs st)) = ?new" if "t2 - t1 \<le> 10000000000"
    using that assms by (simp add: update_bbox_buffer_def Let_def remove_old_last remove_excess_last age_ms_new)
  ultimately show ?thesis by blast
qed

theorem update_bbox_buffer_fresh_witness:
  "let st = update_bbox_buffer 0 0 [] bbox_init
   in map timestamp (bbox_buffer (update_bbox_buffer 20000000000 20000000000 [] st)) = [20000000000]
      \<and> list_all (\<lambda>e. age_ms 20000000000 e \<le> 10000)
          (bbox_buffer (update_bbox_buffer 20000000000 20000000000 [] st))"
proof -
  have "bbox_inv (0, update_bbox_buffer 0 0 [] bbox_init)"
    by (simp add: bbox_inv_def update_bbox_buffer_def bbox_init_def age_ms_def)
  from update_bbox_buffer_fresh [OF this, of 20000000000 20000000000 "[]"] show ?thesis
    by (simp add: update_bbox_buffer_def bbox_init_def age_ms_def)
qed



end
