(* ===== verification/Config_Manager.thy ===== *)
theory Config_Manager
  imports Metadata_Parser
begin

text \<open>
  src/config_manager.cpp: the settings read from the files .env and config.json into the
  global \<open>g_config\<close>. The contents of the files (None when they cannot be opened) and the
  environment of the process are arguments.
\<close>

record AppConfig =
  username :: string
  password :: string
  host :: string
  rtsp_port :: string
  rtsp_path :: string
  db_file :: string
  trackid :: string
  dist_threshold :: real
  parallelism_threshold :: real
  frame_cache_size :: nat
  history_size :: int
  scale_x :: real
  scale_y :: real
  base_x :: real
  base_y :: real
  board_ports :: "string \<rightharpoonup> string"
  retry_count :: int
  timeout_ms :: int

type_synonym environ = "string \<rightharpoonup> string"

section \<open>The file .env\<close>

text \<open>\<open>getline\<close>: the lines of a text; a last line without a newline counts if it is not empty.\<close>

function text_lines :: "string \<Rightarrow> string list" where
  "text_lines s =
     (if s = [] then []
      else takeWhile (\<lambda>c. c \<noteq> CHR 0x0A) s
           # text_lines (drop 1 (dropWhile (\<lambda>c. c \<noteq> CHR 0x0A) s)))"
  by pat_completeness auto
termination
proof (relation "measure length")
  fix s :: string
  assume "s \<noteq> []"
  then show "(drop 1 (dropWhile (\<lambda>c. c \<noteq> CHR 0x0A) s), s) \<in> measure length"
    using length_dropWhile_le [of "\<lambda>c. c \<noteq> CHR 0x0A" s] by (cases s) (auto simp: less_Suc_eq_le)
qed simp

declare text_lines.simps [simp del]

definition is_blank :: "char \<Rightarrow> bool" where
  "is_blank c = (c = CHR '' '' \<or> c = CHR 0x09)"

definition trim :: "string \<Rightarrow> string" where
  "trim s = rev (dropWhile is_blank (rev (dropWhile is_blank s)))"

text \<open>\<open>setenv\<close> refuses an empty name and one with an equals sign.\<close>

definition setenv :: "string \<Rightarrow> string \<Rightarrow> environ \<Rightarrow> environ" where
  "setenv key v e = (if key = [] \<or> CHR ''='' \<in> set key then e else e(key \<mapsto> v))"

definition env_line :: "string \<Rightarrow> environ \<Rightarrow> environ" where
  "env_line line e =
     (if line = [] \<or> hd line = CHR ''#'' then e
      else case find_sub ''='' line of
             None \<Rightarrow> e
           | Some pos \<Rightarrow> setenv (c_str (trim (take pos line))) (c_str (trim (drop (pos + 1) line))) e)"

definition load_env_variables ::
  "string option \<Rightarrow> environ \<Rightarrow> AppConfig \<Rightarrow> bool \<times> environ \<times> AppConfig" where
  "load_env_variables file e g_config =
     (case file of
        None \<Rightarrow> (False, e, g_config)
      | Some text \<Rightarrow>
          let e = fold env_line (text_lines text) e
          in (case (e ''USERNAME'', e ''PASSWORD'', e ''HOST'', e ''RTSP_PORT'', e ''RTSP_PATH'', e ''DB_FILE'') of
                (Some u, Some p, Some h, Some port, Some path, Some dbf) \<Rightarrow>
                  (True, e, g_config\<lparr>username := u, password := p, host := h, rtsp_port := port,
                     rtsp_path := path, db_file := dbf,
                     trackid := (case e ''TRACKID'' of Some t \<Rightarrow> t | None \<Rightarrow> [])\<rparr>)
              | _ \<Rightarrow> (False, e, g_config)))"

section \<open>The file config.json\<close>

text \<open>\<open>get<size_t>\<close>: a negative integer wraps to 64 bits, a boolean is refused.\<close>

fun get_size :: "json \<Rightarrow> nat res" where
  "get_size (JInt i) = Inr (nat (i mod 2 ^ 64))"
| "get_size (JFloat r) =
     (let t = (if r < 0 then - \<lfloor>- r\<rfloor> else \<lfloor>r\<rfloor>)
      in if 0 \<le> t \<and> t < 2 ^ 64 then Inr (nat t) else Inl (UB ''double to size_t out of range''))"
| "get_size _ = Inl (Json_type_error 302)"

definition setting :: "json \<Rightarrow> string \<Rightarrow> string \<Rightarrow> (json \<Rightarrow> 'a res) \<Rightarrow> 'a res" where
  "setting config sec key get =
     bind_res (json_at config sec) (\<lambda>j. bind_res (json_at j key) get)"

text \<open>
  The assignments of the \<open>try\<close> block in order; \<open>fl\<close> rounds to \<open>float\<close>. The first exception
  ends the block, what has been assigned before stays.
\<close>

type_synonym assignment = "AppConfig \<Rightarrow> AppConfig res"

definition assign :: "('a \<Rightarrow> AppConfig \<Rightarrow> AppConfig) \<Rightarrow> 'a res \<Rightarrow> assignment" where
  "assign upd v g = bind_res v (\<lambda>x. Inr (upd x g))"

fun assign_all :: "assignment list \<Rightarrow> AppConfig \<Rightarrow> unit res \<times> AppConfig" where
  "assign_all [] g = (Inr (), g)"
| "assign_all (a # as) g = (case a g of Inl e \<Rightarrow> (Inl e, g) | Inr g \<Rightarrow> assign_all as g)"

definition port_assignment :: "json \<Rightarrow> int \<Rightarrow> assignment" where
  "port_assignment config i =
     assign (\<lambda>port g. g\<lparr>board_ports := (board_ports g)(to_string i \<mapsto> port)\<rparr>)
       (bind_res (setting config ''board'' ''ports'' Inr) (\<lambda>ports.
        bind_res (json_at ports (to_string i)) get_string))"

definition config_assignments :: "(real \<Rightarrow> real) \<Rightarrow> json \<Rightarrow> assignment list" where
  "config_assignments fl config =
     [assign (\<lambda>x g. g\<lparr>dist_threshold := x\<rparr>) (setting config ''detection'' ''dist_threshold'' (get_float fl)),
      assign (\<lambda>x g. g\<lparr>parallelism_threshold := x\<rparr>) (setting config ''detection'' ''parallelism_threshold'' (get_float fl)),
      assign (\<lambda>x g. g\<lparr>frame_cache_size := x\<rparr>) (setting config ''cache'' ''frame_cache_size'' get_size),
      assign (\<lambda>x g. g\<lparr>history_size := x\<rparr>) (setting config ''cache'' ''history_size'' get_int),
      assign (\<lambda>x g. g\<lparr>scale_x := x\<rparr>) (setting config ''scale'' ''x'' (get_float fl)),
      assign (\<lambda>x g. g\<lparr>scale_y := x\<rparr>) (setting config ''scale'' ''y'' (get_float fl)),
      assign (\<lambda>x g. g\<lparr>base_x := x\<rparr>) (setting config ''scale'' ''base_x'' (get_float fl)),
      assign (\<lambda>x g. g\<lparr>base_y := x\<rparr>) (setting config ''scale'' ''base_y'' (get_float fl)),
      assign (\<lambda>x g. g\<lparr>retry_count := x\<rparr>) (setting config ''board'' ''retry_count'' get_int),
      assign (\<lambda>x g. g\<lparr>timeout_ms := x\<rparr>) (setting config ''board'' ''timeout_ms'' get_int),
      assign (\<lambda>x g. g\<lparr>board_ports := Map.empty\<rparr>) (Inr ())]
     @ map (port_assignment config) [1, 2, 3, 4]"

text \<open>
  \<open>read_json\<close> is the extraction operator of the JSON library on the contents of the file.
  The handler catches every exception, but not undefined behaviour.
\<close>

definition load_json_config ::
  "(real \<Rightarrow> real) \<Rightarrow> (string \<Rightarrow> json option) \<Rightarrow> string option \<Rightarrow> AppConfig \<Rightarrow> bool res \<times> AppConfig" where
  "load_json_config fl read_json config_file g_config =
     (case config_file of
        None \<Rightarrow> (Inr False, g_config)
      | Some text \<Rightarrow>
          (case read_json text of
             None \<Rightarrow> (Inr False, g_config)
           | Some config \<Rightarrow>
               (case assign_all (config_assignments fl config) g_config of
                  (Inr _, g) \<Rightarrow> (Inr True, g)
                | (Inl (UB w), g) \<Rightarrow> (Inl (UB w), g)
                | (Inl _, g) \<Rightarrow> (Inr False, g))))"

definition load_all_config ::
  "(real \<Rightarrow> real) \<Rightarrow> (string \<Rightarrow> json option) \<Rightarrow> string option \<Rightarrow> string option \<Rightarrow> environ \<Rightarrow> AppConfig
     \<Rightarrow> bool res \<times> environ \<times> AppConfig" where
  "load_all_config fl read_json env_file config_file e g_config =
     (let (env_ok, e, g_config) = load_env_variables env_file e g_config;
          (json_ok, g_config) = load_json_config fl read_json config_file g_config
      in (bind_res json_ok (\<lambda>json_ok. Inr (env_ok \<and> json_ok)), e, g_config))"

definition get_rtsp_url :: "AppConfig \<Rightarrow> string" where
  "get_rtsp_url g_config =
     (let passwd = password g_config;
          passwd = (case find_sub ''@'' passwd of
                      Some at_pos \<Rightarrow> take at_pos passwd @ ''%40'' @ drop (at_pos + 1) passwd
                    | None \<Rightarrow> passwd)
      in ''rtsp://'' @ username g_config @ '':'' @ passwd @ ''@'' @ host g_config @ '':''
         @ rtsp_port g_config @ rtsp_path g_config)"

section \<open>Lemmas\<close>

text \<open>A successful load has filled exactly the four ports from the file.\<close>

lemma assign_all_append:
  "assign_all (as @ bs) g = (case assign_all as g of (Inl e, g) \<Rightarrow> (Inl e, g) | (Inr _, g) \<Rightarrow> assign_all bs g)"
  by (induction as arbitrary: g) (auto split: sum.splits)

lemma load_json_ports:
  assumes "load_json_config fl read_json (Some text) g = (Inr True, g')"
  shows "dom (board_ports g') = {''1'', ''2'', ''3'', ''4''}"
proof -
  obtain config where a: "assign_all (config_assignments fl config) g = (Inr (), g')"
    using assms by (auto simp: load_json_config_def split: option.splits prod.splits sum.splits exn.splits)
  have d: "to_string 1 = ''1''" "to_string 2 = ''2''" "to_string 3 = ''3''" "to_string 4 = ''4''"
    by code_simp+
  show ?thesis
    using a by (auto simp: config_assignments_def assign_def port_assignment_def d
        bind_res_Inr_iff split: sum.splits if_splits)
qed

lemma rtsp_url_second_at:
  "get_rtsp_url (g\<lparr>username := ''u'', password := ''a@b@c'', host := ''h'', rtsp_port := ''554'', rtsp_path := ''/p''\<rparr>)
     = ''rtsp://u:a%40b@c@h:554/p''"
  by (simp add: get_rtsp_url_def Let_def)

end
