(* ===== verification/Utils.thy ===== *)
theory Utils
  imports Prelude
begin

text \<open>
  src/utils.cpp and src/hash.cpp: the Base64 encoder of the screenshot path, the
  clearing of a password buffer, and the password and recovery-code hashing on top of
  libsodium. The functions of libsodium and the random draws are arguments.
\<close>

section \<open>Base64\<close>

definition b64_chars :: string where
  "b64_chars = ''ABCDEFGHIJKLMNOPQRSTUVWXYZ'' @ ''abcdefghijklmnopqrstuvwxyz'' @ ''0123456789+/''"

text \<open>
  The accumulator \<open>val\<close> is a 32-bit \<open>int\<close>: the shift to the left drops the bits
  beyond its width (as the compiler of the build does), the shift to the right is
  arithmetic.
\<close>

function b64_drain :: "u32 \<Rightarrow> int \<Rightarrow> string \<Rightarrow> int \<times> string" where
  "b64_drain val valb out =
     (if valb \<ge> 0
      then b64_drain val (valb - 6)
             (out @ [b64_chars ! unat (signed_drop_bit (nat valb) val AND 0x3F)])
      else (valb, out))"
  by pat_completeness auto
termination by (relation "measure (\<lambda>(val, valb, out). nat (valb + 6))") auto

declare b64_drain.simps [simp del]

fun b64_byte :: "u32 \<times> int \<times> string \<Rightarrow> byte \<Rightarrow> u32 \<times> int \<times> string" where
  "b64_byte (val, valb, out) c =
     (let val = push_bit 8 val + ucast c;
          (valb, out) = b64_drain val (valb + 8) out
      in (val, valb, out))"

function b64_pad :: "string \<Rightarrow> string" where
  "b64_pad out = (if length out mod 4 \<noteq> 0 then b64_pad (out @ ''='') else out)"
  by pat_completeness auto
termination
proof (relation "measure (\<lambda>out. (3 * length out) mod 4)")
  fix out :: string
  assume "length out mod 4 \<noteq> 0"
  then show "(out @ ''='', out) \<in> measure (\<lambda>out. (3 * length out) mod 4)"
    by simp presburger
qed simp

declare b64_pad.simps [simp del]

definition base64_encode :: "bytes \<Rightarrow> string" where
  "base64_encode input =
     (let (val, valb, out) = foldl b64_byte (0, -6, '''') input;
          out = (if valb > -6
                 then out @ [b64_chars ! unat (signed_drop_bit (nat (valb + 8)) (push_bit 8 val) AND 0x3F)]
                 else out)
      in b64_pad out)"

section \<open>Clearing a password\<close>

text \<open>
  A \<open>std::string\<close> as its storage and its length; \<open>clear\<close> sets the length to 0 and
  writes the terminating NUL.
\<close>

record cpp_string =
  storage :: bytes
  len :: nat

definition secure_clear_password :: "cpp_string \<Rightarrow> cpp_string" where
  "secure_clear_password passwd =
     (if len passwd \<noteq> 0
      then passwd\<lparr>storage := replicate (len passwd) 0 @ drop (len passwd) (storage passwd), len := 0\<rparr>
      else passwd)"

section \<open>Hashing\<close>

text \<open>
  \<open>pwhash\<close> is one call of \<open>crypto_pwhash_str\<close> (it draws a salt, so two calls may
  differ): the encoded hash, or None when it fails. \<open>pwverify\<close> is
  \<open>crypto_pwhash_str_verify\<close> returning 0.
\<close>

definition hash_password :: "(string \<Rightarrow> string option) \<Rightarrow> string \<Rightarrow> string res" where
  "hash_password pwhash password =
     (case pwhash password of
        None \<Rightarrow> Inl (Runtime_error ''password hashing failed'')
      | Some h \<Rightarrow> Inr h)"

definition verify_password :: "(string \<Rightarrow> string \<Rightarrow> bool) \<Rightarrow> string \<Rightarrow> string \<Rightarrow> bool" where
  "verify_password pwverify hashed_password password = pwverify hashed_password password"

text \<open>The calls are numbered: \<open>pwhash k\<close> is the call for the k-th code.\<close>

fun hash_recovery_codes_from ::
  "(nat \<Rightarrow> string \<Rightarrow> string option) \<Rightarrow> nat \<Rightarrow> string list \<Rightarrow> string list res" where
  "hash_recovery_codes_from pwhash k [] = Inr []"
| "hash_recovery_codes_from pwhash k (code # codes) =
     bind_res (hash_password (pwhash k) code) (\<lambda>h.
     bind_res (hash_recovery_codes_from pwhash (k + 1) codes) (\<lambda>hs. Inr (h # hs)))"

definition hash_recovery_codes ::
  "(nat \<Rightarrow> string \<Rightarrow> string option) \<Rightarrow> string list \<Rightarrow> string list res" where
  "hash_recovery_codes pwhash codes = hash_recovery_codes_from pwhash 0 codes"

definition alphanum :: string where
  "alphanum = ''0123456789ABCDEFGHIJKLMNOPQRSTUVWXYZabcdefghijklmnopqrstuvwxyz''"

text \<open>\<open>dis k\<close> is the k-th draw of the uniform distribution on 0..61.\<close>

definition generate_recovery_codes :: "(nat \<Rightarrow> nat) \<Rightarrow> string list" where
  "generate_recovery_codes dis =
     map (\<lambda>i. map (\<lambda>j. alphanum ! dis (10 * i + j)) [0..<10]) [0..<5]"

section \<open>Specification of Base64\<close>

text \<open>The encoding of RFC 4648, section 4, group by group, and its inverse.\<close>

definition sextet :: "byte \<Rightarrow> char" where
  "sextet w = b64_chars ! unat (w AND 0x3F)"

fun rfc4648 :: "bytes \<Rightarrow> string" where
  "rfc4648 [] = []"
| "rfc4648 [a] = [sextet (drop_bit 2 a), sextet (push_bit 4 a), CHR ''='', CHR ''='']"
| "rfc4648 [a, b] =
     [sextet (drop_bit 2 a), sextet (push_bit 4 a OR drop_bit 4 b), sextet (push_bit 2 b), CHR ''='']"
| "rfc4648 (a # b # c # rest) =
     [sextet (drop_bit 2 a), sextet (push_bit 4 a OR drop_bit 4 b),
      sextet (push_bit 2 b OR drop_bit 6 c), sextet c] @ rfc4648 rest"

definition b64_index :: "char \<Rightarrow> byte" where
  "b64_index c = of_nat (length (takeWhile (\<lambda>x. x \<noteq> c) b64_chars))"

fun b64_decode :: "string \<Rightarrow> bytes" where
  "b64_decode (p # q # r # s # rest) =
     (let a = push_bit 2 (b64_index p) OR drop_bit 4 (b64_index q);
          b = push_bit 4 (b64_index q) OR drop_bit 2 (b64_index r);
          c = push_bit 6 (b64_index r) OR b64_index s
      in if r = CHR ''='' then [a] else if s = CHR ''='' then [a, b]
         else a # b # c # b64_decode rest)"
| "b64_decode other = []"

lemma and_3F_byte: "x AND 0x3F = take_bit 6 x" for x :: byte
  by (simp add: take_bit_eq_mask mask_eq_exp_minus_1)

lemma and_3F_u32: "x AND 0x3F = take_bit 6 x" for x :: u32
  by (simp add: take_bit_eq_mask mask_eq_exp_minus_1)

lemma b64_char_sextet:
  fixes w :: u32 and x :: byte
  assumes "\<And>i. i < 6 \<Longrightarrow> bit w i \<longleftrightarrow> bit x i"
  shows "b64_chars ! unat (w AND 0x3F) = sextet x"
proof -
  have "w AND 0x3F = ucast (x AND 0x3F)"
    by (rule bit_word_eqI) (auto simp: and_3F_byte and_3F_u32 bit_take_bit_iff bit_ucast_iff assms)
  then show ?thesis
    by (simp add: sextet_def)
qed

lemma shift_in: "push_bit 8 v + ucast c = push_bit 8 v OR ucast c" for v :: u32 and c :: byte
  by (rule disjunctive_add_eq_or) (rule bit_word_eqI, auto simp: bit_simps dest: bit_imp_le_length)

lemma bit_shift_in:
  "bit (push_bit 8 v + ucast c :: u32) i \<longleftrightarrow> i < 32 \<and> (if i < 8 then bit c i else bit v (i - 8))"
  for v :: u32 and c :: byte
  by (auto simp: shift_in bit_simps dest: bit_imp_le_length)

lemma bit_sdrop: "n + i < 31 \<Longrightarrow> bit (signed_drop_bit n w) i \<longleftrightarrow> bit w (n + i)" for w :: u32
  by (auto simp: bit_signed_drop_bit_iff)


lemma b64_drain_steps:
  "b64_drain val 2 out = (- 4, out @ [b64_chars ! unat (signed_drop_bit 2 val AND 0x3F)])"
  "b64_drain val 4 out = (- 2, out @ [b64_chars ! unat (signed_drop_bit 4 val AND 0x3F)])"
  "b64_drain val 6 out = (- 6, out @ [b64_chars ! unat (signed_drop_bit 6 val AND 0x3F),
     b64_chars ! unat (signed_drop_bit 0 val AND 0x3F)])"
  by (simp_all add: b64_drain.simps del: signed_drop_bit_of_0 signed_drop_bit_0)

lemmas b64_bits = bit_sdrop bit_shift_in bit_push_bit_iff bit_drop_bit_eq bit_or_iff bit_imp_le_length

lemma b64_one:
  "b64_byte (v, - 6, out) a = (push_bit 8 v + ucast a, - 4, out @ [sextet (drop_bit 2 a)])"
proof -
  have "b64_chars ! unat (signed_drop_bit 2 (push_bit 8 v + ucast a) AND 0x3F) = sextet (drop_bit 2 a)"
    by (rule b64_char_sextet) (simp add: b64_bits)
  then show ?thesis by (simp add: b64_drain_steps)
qed

lemma b64_two:
  "b64_byte (push_bit 8 v + ucast a, - 4, out) b =
     (push_bit 8 (push_bit 8 v + ucast a) + ucast b, - 2, out @ [sextet (push_bit 4 a OR drop_bit 4 b)])"
proof -
  have "b64_chars ! unat (signed_drop_bit 4 (push_bit 8 (push_bit 8 v + ucast a) + ucast b) AND 0x3F)
      = sextet (push_bit 4 a OR drop_bit 4 b)"
    by (rule b64_char_sextet) (auto simp: b64_bits dest: bit_imp_le_length)
  then show ?thesis by (simp add: b64_drain_steps)
qed

lemma b64_three:
  "b64_byte (push_bit 8 v + ucast b, - 2, out) c =
     (push_bit 8 (push_bit 8 v + ucast b) + ucast c, - 6,
      out @ [sextet (push_bit 2 b OR drop_bit 6 c), sextet c])"
proof -
  have "b64_chars ! unat (signed_drop_bit 6 (push_bit 8 (push_bit 8 v + ucast b) + ucast c) AND 0x3F)
      = sextet (push_bit 2 b OR drop_bit 6 c)"
    by (rule b64_char_sextet) (auto simp: b64_bits dest: bit_imp_le_length)
  moreover have "b64_chars ! unat (signed_drop_bit 0 (push_bit 8 (push_bit 8 v + ucast b) + ucast c) AND 0x3F)
      = sextet c"
    by (rule b64_char_sextet) (simp add: b64_bits)
  ultimately show ?thesis by (simp add: b64_drain_steps del: signed_drop_bit_0)
qed

lemma b64_last:
  "b64_chars ! unat (signed_drop_bit 4 (push_bit 8 (push_bit 8 v + ucast a)) AND 0x3F) = sextet (push_bit 4 a)"
  "b64_chars ! unat (signed_drop_bit 6 (push_bit 8 (push_bit 8 v + ucast b)) AND 0x3F) = sextet (push_bit 2 b)"
  for v :: u32 and a b :: byte
  by (rule b64_char_sextet; auto simp: b64_bits dest: bit_imp_le_length)+

lemma b64_pad_steps:
  "length out mod 4 = 0 \<Longrightarrow> b64_pad out = out"
  "length out mod 4 = 3 \<Longrightarrow> b64_pad out = out @ ''=''"
  "length out mod 4 = 2 \<Longrightarrow> b64_pad out = out @ ''==''"
  by (simp_all add: b64_pad.simps mod_Suc)

lemma base64_encode_groups:
  "length out mod 4 = 0 \<Longrightarrow>
   (let (val, valb, out) = foldl b64_byte (v, -6, out) input;
        out = (if valb > -6
               then out @ [b64_chars ! unat (signed_drop_bit (nat (valb + 8)) (push_bit 8 val) AND 0x3F)]
               else out)
    in b64_pad out) = out @ rfc4648 input"
proof (induction input arbitrary: v out rule: rfc4648.induct)
  case (4 a b c rest)
  then show ?case
    by (simp add: b64_one b64_two b64_three del: b64_byte.simps)
qed (simp_all add: b64_one b64_two b64_last b64_pad_steps mod_Suc del: b64_byte.simps)

lemma base64_encode_eq: "base64_encode input = rfc4648 input"
  using base64_encode_groups [of "[]" 0 input] by (simp add: base64_encode_def)

lemma distinct_b64_chars: "distinct b64_chars" "length b64_chars = 64" "CHR ''='' \<notin> set b64_chars"
  by (simp_all add: b64_chars_def)


lemma b64_index_sextet: "b64_index (sextet w) = w AND 0x3F"
proof -
  define n where "n = unat (w AND 0x3F)"
  have "n < 64"
    unfolding n_def and_3F_byte using unat_take_bit_less [of 6 w] by simp
  then have "takeWhile (\<lambda>x. x \<noteq> b64_chars ! n) b64_chars = take n b64_chars"
    using distinct_b64_chars by (intro takeWhile_eq_take_P_nth) (auto simp: nth_eq_iff_index_eq)
  then have "length (takeWhile (\<lambda>x. x \<noteq> b64_chars ! n) b64_chars) = n"
    using \<open>n < 64\<close> distinct_b64_chars by simp
  then have "b64_index (sextet w) = of_nat n"
    unfolding b64_index_def sextet_def n_def by simp
  then show ?thesis by (simp add: n_def)
qed

lemma sextet_not_pad [simp]: "sextet w \<noteq> CHR ''=''"
proof -
  have "unat (w AND 0x3F) < 64"
    unfolding and_3F_byte using unat_take_bit_less [of 6 w] by simp
  then have "sextet w \<in> set b64_chars"
    using distinct_b64_chars by (simp add: sextet_def)
  then show ?thesis using distinct_b64_chars by auto
qed

lemma sextets_join:
  "push_bit 2 (drop_bit 2 a AND 0x3F) OR drop_bit 4 ((push_bit 4 a OR drop_bit 4 b) AND 0x3F) = a"
  "push_bit 2 (drop_bit 2 a AND 0x3F) OR drop_bit 4 (push_bit 4 a AND 0x3F) = a"
  "push_bit 4 ((push_bit 4 a OR drop_bit 4 b) AND 0x3F) OR drop_bit 2 ((push_bit 2 b OR drop_bit 6 c) AND 0x3F) = b"
  "push_bit 4 ((push_bit 4 a OR drop_bit 4 b) AND 0x3F) OR drop_bit 2 (push_bit 2 b AND 0x3F) = b"
  "push_bit 6 ((push_bit 2 b OR drop_bit 6 c) AND 0x3F) OR (c AND 0x3F) = c"
  for a b c :: byte
  by (rule byte_eqI; simp add: and_3F_byte bit_simps bit_byte_beyond)+

lemma b64_decode_rfc4648: "b64_decode (rfc4648 input) = input"
  by (induction input rule: rfc4648.induct)
    (simp_all add: b64_index_sextet sextets_join Let_def del: push_bit_and drop_bit_and push_bit_or drop_bit_or)

section \<open>Passwords and recovery codes\<close>

lemma secure_clear_password_zero:
  assumes "len s \<le> length (storage s)"
  shows "len (secure_clear_password s) = 0"
    and "\<forall>i < len s. storage (secure_clear_password s) ! i = 0"
    and "length (storage (secure_clear_password s)) = length (storage s)"
  using assms by (simp_all add: secure_clear_password_def nth_append)

lemma hash_recovery_codes_verify:
  assumes "\<And>k p h. pwhash k p = Some h \<Longrightarrow> pwverify h p"
  shows "hash_recovery_codes_from pwhash k codes = Inr hs \<Longrightarrow>
    list_all2 (\<lambda>h c. verify_password pwverify h c) hs codes"
  by (induction codes arbitrary: k hs)
    (auto simp: bind_res_Inr_iff hash_password_def verify_password_def assms split: option.splits)

lemma hash_recovery_codes_total:
  assumes "\<And>k p. pwhash k p \<noteq> None"
  shows "\<exists>hs. hash_recovery_codes_from pwhash k codes = Inr hs \<and> length hs = length codes"
proof (induction codes arbitrary: k)
  case (Cons c codes)
  obtain h where "pwhash k c = Some h" using assms by blast
  moreover obtain hs where "hash_recovery_codes_from pwhash (k + 1) codes = Inr hs" "length hs = length codes"
    using Cons.IH by blast
  ultimately show ?case by (simp add: hash_password_def)
qed simp

section \<open>Properties\<close>

text \<open>
  Claim C25: \<open>base64_encode\<close> is the padded Base64 encoding of RFC 4648 for every byte
  string, although its 32-bit accumulator overflows on inputs longer than four bytes, and
  decoding gives the input back.
\<close>

theorem base64_encode_rfc4648:
  "base64_encode input = rfc4648 input \<and> b64_decode (base64_encode input) = input"
  by (simp add: base64_encode_eq b64_decode_rfc4648)

text \<open>
  With draws in the range of the distribution, \<open>generate_recovery_codes\<close> gives
  five codes of ten characters, all letters or digits.
\<close>

theorem generate_recovery_codes_format:
  assumes "\<And>k. dis k \<le> 61"
  shows "length (generate_recovery_codes dis) = 5 \<and>
    list_all (\<lambda>code. length code = 10 \<and> set code \<subseteq> set alphanum) (generate_recovery_codes dis)"
proof -
  have "alphanum ! dis k \<in> set alphanum" for k
    using assms [of k] by (intro nth_mem) (simp add: alphanum_def)
  then show ?thesis
    by (auto simp: generate_recovery_codes_def list_all_iff)
qed

theorem generate_recovery_codes_format_witness:
  "length (generate_recovery_codes (\<lambda>k. k mod 62)) = 5 \<and>
    hd (generate_recovery_codes (\<lambda>k. k mod 62)) = ''0123456789''"
proof -
  have "k mod 62 \<le> 61" for k :: nat by presburger
  then have "length (generate_recovery_codes (\<lambda>k. k mod 62)) = 5"
    using generate_recovery_codes_format [of "\<lambda>k. k mod 62"] by blast
  moreover have "hd (generate_recovery_codes (\<lambda>k. k mod 62)) = ''0123456789''"
    by (simp add: generate_recovery_codes_def alphanum_def upt_rec)
  ultimately show ?thesis ..
qed

end
