(* ===== verification/Db_Management.thy ===== *)
theory Db_Management
  imports Sqlite Utils
begin

text \<open>
  src/db_management.cpp: the tables of the server and the operations on them. \<open>run\<close> is the
  SQLite engine. An exception of a statement ends the \<open>try\<close> block of its function, which is
  the branch of \<open>Fail\<close>; the functions that create tables have no such block.
\<close>

section \<open>Structures\<close>

record Detection =
  imageBlob :: bytes
  d_timestamp :: string

record CrossLine =
  cl_index :: int
  cl_x1 :: int
  cl_y1 :: int
  cl_x2 :: int
  cl_y2 :: int
  cl_name :: string
  cl_mode :: string

record BaseLine =
  bl_index :: int
  bl_matrixNum1 :: int
  bl_x1 :: int
  bl_y1 :: int
  bl_matrixNum2 :: int
  bl_x2 :: int
  bl_y2 :: int

record VerticalLineEquation =
  vl_index :: int
  vl_a :: real
  vl_b :: real

record Account =
  acc_id :: string
  acc_passwd :: string
  acc_otp_secret :: string
  acc_use_otp :: bool

section \<open>Reading columns\<close>

text \<open>
  \<open>getInt\<close>, \<open>getString\<close> and \<open>getBlob\<close> on values of the type of their column or NULL. A
  missing column throws.
\<close>

fun as_int :: "sql_value \<Rightarrow> int" where
  "as_int (SInt i) = wrap32 i"
| "as_int _ = 0"

fun as_text :: "sql_value \<Rightarrow> string" where
  "as_text (SText s) = s"
| "as_text (SInt i) = to_string i"
| "as_text _ = ''''"

fun as_blob :: "sql_value \<Rightarrow> bytes" where
  "as_blob (SBlob b) = b"
| "as_blob _ = []"

definition getColumn :: "row \<Rightarrow> string \<Rightarrow> sql_value option" where
  "getColumn r c = r c"

text \<open>A loop that converts row after row; an exception keeps what has been read.\<close>

fun read_rows :: "(row \<Rightarrow> 'a option) \<Rightarrow> row list \<Rightarrow> 'a list" where
  "read_rows f [] = []"
| "read_rows f (r # rs) = (case f r of None \<Rightarrow> [] | Some x \<Rightarrow> x # read_rows f rs)"

text \<open>The shapes of the operations: a statement in a try block, and a query loop.\<close>

definition try_exec :: "'d engine \<Rightarrow> 'd \<Rightarrow> sql \<Rightarrow> sql_value list \<Rightarrow> bool \<times> 'd" where
  "try_exec run d st args =
     (case run d st args of (Ok r, d) \<Rightarrow> (True, d) | (Fail rs, d) \<Rightarrow> (False, d))"

definition try_changes :: "'d engine \<Rightarrow> 'd \<Rightarrow> sql \<Rightarrow> sql_value list \<Rightarrow> bool \<times> 'd" where
  "try_changes run d st args =
     (case run d st args of
        (Ok (Changes changes), d) \<Rightarrow> (if changes = 0 then False else True, d)
      | (Ok (Rows rs), d) \<Rightarrow> (True, d)
      | (Fail rs, d) \<Rightarrow> (False, d))"

definition try_query :: "'d engine \<Rightarrow> 'd \<Rightarrow> sql \<Rightarrow> sql_value list \<Rightarrow> row list \<times> 'd" where
  "try_query run d st args =
     (case run d st args of
        (Ok (Rows rs), d) \<Rightarrow> (rs, d) | (Ok (Changes n), d) \<Rightarrow> ([], d) | (Fail rs, d) \<Rightarrow> (rs, d))"

definition exec_throw :: "'d engine \<Rightarrow> 'd \<Rightarrow> sql \<Rightarrow> sql_value list \<Rightarrow> unit res \<times> 'd" where
  "exec_throw run d st args =
     (case run d st args of
        (Ok r, d) \<Rightarrow> (Inr (), d) | (Fail rs, d) \<Rightarrow> (Inl (Runtime_error ''SQLite exception''), d))"

definition col :: "string \<Rightarrow> affinity \<Rightarrow> column" where
  "col n a = \<lparr>cname = n, aff = a, rowid = False, unique = False, notnull = False, dflt = SNull\<rparr>"

section \<open>Detections\<close>

definition detections_cols :: "column list" where
  "detections_cols =
     [(col ''id'' INTEGER)\<lparr>rowid := True\<rparr>, col ''image'' BLOB, (col ''timestamp'' NUMERIC)\<lparr>notnull := True\<rparr>]"

definition create_table_detections :: "'d engine \<Rightarrow> 'd \<Rightarrow> unit res \<times> 'd" where
  "create_table_detections run d = exec_throw run d (Create ''detections'' detections_cols) []"

text \<open>An empty vector has no data pointer and binds NULL.\<close>

definition bind_blob :: "bytes \<Rightarrow> sql_value" where
  "bind_blob b = (if b = [] then SNull else SBlob b)"

definition insert_data_detections :: "'d engine \<Rightarrow> Detection \<Rightarrow> 'd \<Rightarrow> bool \<times> 'd" where
  "insert_data_detections run detection d =
     try_exec run d (Insert ''detections'' [(''image'', Par 0), (''timestamp'', Par 1)])
       [bind_blob (imageBlob detection), SText (d_timestamp detection)]"

definition read_detection :: "row \<Rightarrow> Detection option" where
  "read_detection r =
     Option.bind (getColumn r ''image'') (\<lambda>image.
     Option.bind (getColumn r ''timestamp'') (\<lambda>timestamp.
       Some \<lparr>imageBlob = as_blob image, d_timestamp = as_text timestamp\<rparr>))"

definition select_data_for_timestamp_range_detections ::
  "'d engine \<Rightarrow> string \<Rightarrow> string \<Rightarrow> 'd \<Rightarrow> Detection list \<times> 'd" where
  "select_data_for_timestamp_range_detections run startTimestamp endTimestamp d =
     (let (rs, d) = try_query run d
            (Select None ''detections'' [Between ''timestamp'' (Par 0) (Par 1)] (Some ''timestamp''))
            [SText startTimestamp, SText endTimestamp]
      in (read_rows read_detection rs, d))"

definition delete_all_data_detections :: "'d engine \<Rightarrow> 'd \<Rightarrow> 'd" where
  "delete_all_data_detections run d = snd (try_exec run d (Delete ''detections'' []) [])"

section \<open>Lines\<close>

definition lines_cols :: "column list" where
  "lines_cols =
     [(col ''indexNum'' INTEGER)\<lparr>rowid := True, notnull := True\<rparr>,
      (col ''x1'' INTEGER)\<lparr>notnull := True\<rparr>, (col ''y1'' INTEGER)\<lparr>notnull := True\<rparr>,
      (col ''x2'' INTEGER)\<lparr>notnull := True\<rparr>, (col ''y2'' INTEGER)\<lparr>notnull := True\<rparr>,
      (col ''name'' TEXT)\<lparr>unique := True, notnull := True\<rparr>, col ''mode'' TEXT]"

definition create_table_lines :: "'d engine \<Rightarrow> 'd \<Rightarrow> unit res \<times> 'd" where
  "create_table_lines run d = exec_throw run d (Create ''lines'' lines_cols) []"

definition insert_data_lines :: "'d engine \<Rightarrow> CrossLine \<Rightarrow> 'd \<Rightarrow> bool \<times> 'd" where
  "insert_data_lines run crossLine d =
     try_exec run d
       (Insert ''lines'' [(''indexNum'', Par 0), (''x1'', Par 1), (''y1'', Par 2), (''x2'', Par 3),
          (''y2'', Par 4), (''name'', Par 5), (''mode'', Par 6)])
       [SInt (cl_index crossLine), SInt (cl_x1 crossLine), SInt (cl_y1 crossLine), SInt (cl_x2 crossLine),
        SInt (cl_y2 crossLine), SText (cl_name crossLine), SText (cl_mode crossLine)]"

definition read_line :: "row \<Rightarrow> CrossLine option" where
  "read_line r =
     Option.bind (getColumn r ''indexNum'') (\<lambda>indexNum.
     Option.bind (getColumn r ''x1'') (\<lambda>x1.
     Option.bind (getColumn r ''y1'') (\<lambda>y1.
     Option.bind (getColumn r ''x2'') (\<lambda>x2.
     Option.bind (getColumn r ''y2'') (\<lambda>y2.
     Option.bind (getColumn r ''name'') (\<lambda>name.
     Option.bind (getColumn r ''mode'') (\<lambda>mode.
       Some \<lparr>cl_index = as_int indexNum, cl_x1 = as_int x1, cl_y1 = as_int y1, cl_x2 = as_int x2,
             cl_y2 = as_int y2, cl_name = as_text name, cl_mode = as_text mode\<rparr>)))))))"

definition select_all_data_lines :: "'d engine \<Rightarrow> 'd \<Rightarrow> CrossLine list \<times> 'd" where
  "select_all_data_lines run d =
     (let (rs, d) = try_query run d (Select None ''lines'' [] (Some ''name'')) []
      in (read_rows read_line rs, d))"

definition delete_data_lines :: "'d engine \<Rightarrow> int \<Rightarrow> 'd \<Rightarrow> bool \<times> 'd" where
  "delete_data_lines run indexNum d =
     try_changes run d (Delete ''lines'' [Eq ''indexNum'' (Par 0)]) [SInt indexNum]"

definition delete_all_data_lines :: "'d engine \<Rightarrow> 'd \<Rightarrow> bool \<times> 'd" where
  "delete_all_data_lines run d = try_changes run d (Delete ''lines'' []) []"

section \<open>Base lines\<close>

definition baseLines_cols :: "column list" where
  "baseLines_cols =
     [(col ''indexNum'' INTEGER)\<lparr>rowid := True\<rparr>,
      (col ''matrixNum1'' INTEGER)\<lparr>notnull := True\<rparr>, (col ''x1'' INTEGER)\<lparr>notnull := True\<rparr>,
      (col ''y1'' INTEGER)\<lparr>notnull := True\<rparr>, (col ''matrixNum2'' INTEGER)\<lparr>notnull := True\<rparr>,
      (col ''x2'' INTEGER)\<lparr>notnull := True\<rparr>, (col ''y2'' INTEGER)\<lparr>notnull := True\<rparr>]"

definition create_table_baseLines :: "'d engine \<Rightarrow> 'd \<Rightarrow> unit res \<times> 'd" where
  "create_table_baseLines run d = exec_throw run d (Create ''baseLines'' baseLines_cols) []"

definition read_baseLine :: "row \<Rightarrow> BaseLine option" where
  "read_baseLine r =
     Option.bind (getColumn r ''indexNum'') (\<lambda>indexNum.
     Option.bind (getColumn r ''matrixNum1'') (\<lambda>matrixNum1.
     Option.bind (getColumn r ''x1'') (\<lambda>x1.
     Option.bind (getColumn r ''y1'') (\<lambda>y1.
     Option.bind (getColumn r ''matrixNum2'') (\<lambda>matrixNum2.
     Option.bind (getColumn r ''x2'') (\<lambda>x2.
     Option.bind (getColumn r ''y2'') (\<lambda>y2.
       Some \<lparr>bl_index = as_int indexNum, bl_matrixNum1 = as_int matrixNum1, bl_x1 = as_int x1,
             bl_y1 = as_int y1, bl_matrixNum2 = as_int matrixNum2, bl_x2 = as_int x2,
             bl_y2 = as_int y2\<rparr>)))))))"

definition select_all_data_baseLines :: "'d engine \<Rightarrow> 'd \<Rightarrow> BaseLine list \<times> 'd" where
  "select_all_data_baseLines run d =
     (let (rs, d) = try_query run d (Select None ''baseLines'' [] None) []
      in (read_rows read_baseLine rs, d))"

definition insert_data_baseLines :: "'d engine \<Rightarrow> BaseLine \<Rightarrow> 'd \<Rightarrow> bool \<times> 'd" where
  "insert_data_baseLines run baseLine d =
     try_exec run d
       (Insert ''baseLines'' [(''indexNum'', Par 0), (''matrixNum1'', Par 1), (''x1'', Par 2), (''y1'', Par 3),
          (''matrixNum2'', Par 4), (''x2'', Par 5), (''y2'', Par 6)])
       [SInt (bl_index baseLine), SInt (bl_matrixNum1 baseLine), SInt (bl_x1 baseLine), SInt (bl_y1 baseLine),
        SInt (bl_matrixNum2 baseLine), SInt (bl_x2 baseLine), SInt (bl_y2 baseLine)]"

definition update_data_baseLines :: "'d engine \<Rightarrow> BaseLine \<Rightarrow> 'd \<Rightarrow> bool \<times> 'd" where
  "update_data_baseLines run baseLine d =
     try_exec run d
       (Update ''baseLines'' [(''matrixNum1'', Par 0), (''matrixNum2'', Par 1)] [Eq ''indexNum'' (Par 2)])
       [SInt (bl_matrixNum1 baseLine), SInt (bl_matrixNum2 baseLine), SInt (bl_index baseLine)]"

text \<open>The source writes the table name in lower case here.\<close>

definition delete_all_data_baseLines :: "'d engine \<Rightarrow> 'd \<Rightarrow> bool \<times> 'd" where
  "delete_all_data_baseLines run d = try_changes run d (Delete ''baselines'' []) []"

section \<open>Vertical line equations\<close>

definition verticalLineEquations_cols :: "column list" where
  "verticalLineEquations_cols =
     [(col ''indexNum'' INTEGER)\<lparr>rowid := True\<rparr>, (col ''a'' REAL)\<lparr>notnull := True\<rparr>, (col ''b'' REAL)\<lparr>notnull := True\<rparr>]"

definition create_table_verticalLineEquations :: "'d engine \<Rightarrow> 'd \<Rightarrow> unit res \<times> 'd" where
  "create_table_verticalLineEquations run d =
     exec_throw run d (Create ''verticalLineEquations'' verticalLineEquations_cols) []"

text \<open>
  The row a statement stands on: none before the first step; \<open>Statement::exec\<close> of the
  wrapper throws when the statement yields a row, and \<open>getColumn\<close> throws when there is none.
  None is the uninitialised structure the function returns after an exception.
\<close>

definition current_column :: "row option \<Rightarrow> string \<Rightarrow> sql_value option" where
  "current_column cur c = Option.bind cur (\<lambda>r. getColumn r c)"

definition select_data_verticalLineEquations ::
  "'d engine \<Rightarrow> int \<Rightarrow> 'd \<Rightarrow> VerticalLineEquation option \<times> 'd" where
  "select_data_verticalLineEquations run index d =
     (case run d (Select None ''verticalLineEquations'' [Eq ''index'' (Par 0)] None) [SInt index] of
        (Ok (Rows []), d) \<Rightarrow>
          (Option.bind (current_column None ''indexNum'') (\<lambda>indexNum.
           Option.bind (current_column None ''x'') (\<lambda>x.
           Option.bind (current_column None ''y'') (\<lambda>y.
             Some \<lparr>vl_index = as_int indexNum,
                   vl_a = (case x of SReal r \<Rightarrow> r | _ \<Rightarrow> 0), vl_b = (case y of SReal r \<Rightarrow> r | _ \<Rightarrow> 0)\<rparr>))), d)
      | (_, d) \<Rightarrow> (None, d))"

definition insert_data_verticalLineEquations :: "'d engine \<Rightarrow> VerticalLineEquation \<Rightarrow> 'd \<Rightarrow> bool \<times> 'd" where
  "insert_data_verticalLineEquations run verticalLineEquation d =
     try_exec run d
       (Insert ''verticalLineEquations'' [(''indexNum'', Par 0), (''a'', Par 1), (''b'', Par 2)])
       [SInt (vl_index verticalLineEquation), SReal (vl_a verticalLineEquation), SReal (vl_b verticalLineEquation)]"

definition delete_all_data_verticalLineEquations :: "'d engine \<Rightarrow> 'd \<Rightarrow> bool \<times> 'd" where
  "delete_all_data_verticalLineEquations run d = try_changes run d (Delete ''verticalLineEquations'' []) []"

section \<open>Accounts\<close>

definition accounts_cols :: "column list" where
  "accounts_cols =
     [(col ''id'' TEXT)\<lparr>unique := True\<rparr>, (col ''passwd'' TEXT)\<lparr>notnull := True\<rparr>,
      col ''otp_secret'' TEXT, (col ''use_otp'' INTEGER)\<lparr>dflt := SInt 0\<rparr>]"

definition create_table_accounts :: "'d engine \<Rightarrow> 'd \<Rightarrow> unit res \<times> 'd" where
  "create_table_accounts run d = exec_throw run d (Create ''accounts'' accounts_cols) []"

text \<open>The statement is prepared and bound but never stepped; None is a null pointer.\<close>

definition select_data_accounts :: "string \<Rightarrow> string \<Rightarrow> Account option" where
  "select_data_accounts user_id passwd =
     (if user_id = '''' \<or> passwd = '''' then None
      else Option.bind (current_column None ''id'') (\<lambda>user_id.
           Option.bind (current_column None ''passwd'') (\<lambda>passwd.
             Some \<lparr>acc_id = as_text user_id, acc_passwd = as_text passwd, acc_otp_secret = '''', acc_use_otp = False\<rparr>)))"

definition insert_data_accounts :: "'d engine \<Rightarrow> Account \<Rightarrow> 'd \<Rightarrow> bool \<times> 'd" where
  "insert_data_accounts run account d =
     try_exec run d
       (Insert ''accounts'' [(''id'', Par 0), (''passwd'', Par 1), (''otp_secret'', Par 2), (''use_otp'', Par 3)])
       [SText (acc_id account), SText (acc_passwd account), SText (acc_otp_secret account),
        SInt (if acc_use_otp account then 1 else 0)]"

definition read_account :: "row \<Rightarrow> Account option" where
  "read_account r =
     Option.bind (getColumn r ''id'') (\<lambda>user_id.
     Option.bind (getColumn r ''passwd'') (\<lambda>passwd.
     Option.bind (getColumn r ''otp_secret'') (\<lambda>otp_secret.
     Option.bind (getColumn r ''use_otp'') (\<lambda>use_otp.
       Some \<lparr>acc_id = as_text user_id, acc_passwd = as_text passwd, acc_otp_secret = as_text otp_secret,
             acc_use_otp = (as_int use_otp = 1)\<rparr>))))"

text \<open>The first step of the statement gives a row, no row, or throws.\<close>

definition get_account_by_id :: "'d engine \<Rightarrow> string \<Rightarrow> 'd \<Rightarrow> Account option \<times> 'd" where
  "get_account_by_id run user_id d =
     (case run d (Select (Some [''id'', ''passwd'', ''otp_secret'', ''use_otp'']) ''accounts'' [Eq ''id'' (Par 0)] None)
             [SText user_id] of
        (Ok (Rows (r # rs)), d) \<Rightarrow> (read_account r, d)
      | (Fail (r # rs), d) \<Rightarrow> (read_account r, d)
      | (_, d) \<Rightarrow> (None, d))"

definition store_otp_secret :: "'d engine \<Rightarrow> string \<Rightarrow> string \<Rightarrow> 'd \<Rightarrow> bool \<times> 'd" where
  "store_otp_secret run user_id secret d =
     try_exec run d (Update ''accounts'' [(''otp_secret'', Par 0)] [Eq ''id'' (Par 1)]) [SText secret, SText user_id]"

section \<open>Recovery codes\<close>

definition recovery_codes_cols :: "column list" where
  "recovery_codes_cols =
     [(col ''id'' TEXT)\<lparr>notnull := True\<rparr>, (col ''code'' TEXT)\<lparr>notnull := True\<rparr>, (col ''used'' INTEGER)\<lparr>dflt := SInt 0\<rparr>]"

definition create_table_recovery_codes :: "'d engine \<Rightarrow> 'd \<Rightarrow> unit res \<times> 'd" where
  "create_table_recovery_codes run d = exec_throw run d (Create ''recovery_codes'' recovery_codes_cols) []"

fun insert_codes :: "'d engine \<Rightarrow> string \<Rightarrow> string list \<Rightarrow> 'd \<Rightarrow> bool \<times> 'd" where
  "insert_codes run user_id [] d = (True, d)"
| "insert_codes run user_id (code # codes) d =
     (case try_exec run d (Insert ''recovery_codes'' [(''id'', Par 0), (''code'', Par 1)]) [SText user_id, SText code] of
        (True, d) \<Rightarrow> insert_codes run user_id codes d
      | (False, d) \<Rightarrow> (False, d))"

text \<open>
  The destructor of the transaction rolls back when it has not been committed and ignores
  an exception of that statement.
\<close>

definition store_recovery_codes :: "'d engine \<Rightarrow> string \<Rightarrow> string list \<Rightarrow> 'd \<Rightarrow> bool \<times> 'd" where
  "store_recovery_codes run user_id codes d =
     (case run d Begin [] of
        (Fail rs, d) \<Rightarrow> (False, d)
      | (Ok r, d) \<Rightarrow>
          (case insert_codes run user_id codes d of
             (False, d) \<Rightarrow> (False, snd (run d Rollback []))
           | (True, d) \<Rightarrow>
               (case run d Commit [] of
                  (Ok r, d) \<Rightarrow> (True, d)
                | (Fail rs, d) \<Rightarrow> (False, snd (run d Rollback [])))))"

definition get_hashed_recovery_codes :: "'d engine \<Rightarrow> string \<Rightarrow> 'd \<Rightarrow> string list \<times> 'd" where
  "get_hashed_recovery_codes run user_id d =
     (let (rs, d) = try_query run d
            (Select (Some [''code'']) ''recovery_codes'' [Eq ''id'' (Par 0), Eq ''used'' (Lit (SInt 0))] None) [SText user_id]
      in (read_rows (\<lambda>r. map_option as_text (getColumn r ''code'')) rs, d))"

fun first_match :: "(string \<Rightarrow> string \<Rightarrow> bool) \<Rightarrow> string \<Rightarrow> string list \<Rightarrow> string" where
  "first_match pwverify input [] = ''''"
| "first_match pwverify input (hash # hashes) =
     (if verify_password pwverify hash input then hash else first_match pwverify input hashes)"

definition verify_recovery_code ::
  "(string \<Rightarrow> string \<Rightarrow> bool) \<Rightarrow> 'd engine \<Rightarrow> string \<Rightarrow> string \<Rightarrow> 'd \<Rightarrow> bool \<times> 'd" where
  "verify_recovery_code pwverify run user_id input d =
     (let (hashed_codes, d) = get_hashed_recovery_codes run user_id d
      in (list_ex (\<lambda>hashed. verify_password pwverify hashed input) hashed_codes, d))"

definition invalidate_recovery_code ::
  "(string \<Rightarrow> string \<Rightarrow> bool) \<Rightarrow> 'd engine \<Rightarrow> string \<Rightarrow> string \<Rightarrow> 'd \<Rightarrow> bool \<times> 'd" where
  "invalidate_recovery_code pwverify run user_id input_code d =
     (let (hashed_codes, d) = get_hashed_recovery_codes run user_id d;
          matched_hash = first_match pwverify input_code hashed_codes
      in if matched_hash = '''' then (False, d)
         else try_changes run d
                (Update ''recovery_codes'' [(''used'', Lit (SInt 1))] [Eq ''id'' (Par 0), Eq ''code'' (Par 1)])
                [SText user_id, SText matched_hash])"

section \<open>Creating all tables\<close>

text \<open>\<open>initialize_database_tables\<close> of src/tcp_server.cpp; the first exception ends it.\<close>

fun do_all :: "('d \<Rightarrow> unit res \<times> 'd) list \<Rightarrow> 'd \<Rightarrow> unit res \<times> 'd" where
  "do_all [] d = (Inr (), d)"
| "do_all (f # fs) d = (case f d of (Inl e, d) \<Rightarrow> (Inl e, d) | (Inr _, d) \<Rightarrow> do_all fs d)"

definition initialize_database_tables :: "'d engine \<Rightarrow> 'd \<Rightarrow> unit res \<times> 'd" where
  "initialize_database_tables run d =
     do_all [create_table_detections run, create_table_lines run, create_table_baseLines run,
             create_table_verticalLineEquations run, create_table_accounts run, create_table_recovery_codes run] d"

end
