(* ===== verification/Db_Contents.thy ===== *)
theory Db_Contents
  imports Db_Management
begin

text \<open>
  What the operations of Db_Management do to the contents of the tables, for every engine
  that satisfies the contract of Sqlite. A table holds a list of structures, one per row;
  the operations are shown to refine the corresponding operations on these lists.
\<close>

section \<open>Abstract contents of the tables\<close>

definition int32 :: "int \<Rightarrow> bool" where
  "int32 i = (- (2 ^ 31) \<le> i \<and> i < 2 ^ 31)"

definition holds_rows :: "string \<Rightarrow> column list \<Rightarrow> ('a \<Rightarrow> row) \<Rightarrow> database \<Rightarrow> 'a list \<Rightarrow> bool" where
  "holds_rows t cols f db xs \<longleftrightarrow>
     (case tabs db (lower t) of None \<Rightarrow> False | Some T \<Rightarrow> columns T = cols \<and> rows T = map f xs)"

definition line_row :: "CrossLine \<Rightarrow> row" where
  "line_row l = map_of [(''indexNum'', SInt (cl_index l)), (''x1'', SInt (cl_x1 l)), (''y1'', SInt (cl_y1 l)),
     (''x2'', SInt (cl_x2 l)), (''y2'', SInt (cl_y2 l)), (''name'', SText (cl_name l)), (''mode'', SText (cl_mode l))]"

definition line_ok :: "CrossLine \<Rightarrow> bool" where
  "line_ok l = (int32 (cl_index l) \<and> int32 (cl_x1 l) \<and> int32 (cl_y1 l) \<and> int32 (cl_x2 l) \<and> int32 (cl_y2 l))"

definition lines_in :: "database \<Rightarrow> CrossLine list \<Rightarrow> bool" where
  "lines_in db ls = (holds_rows ''lines'' lines_cols line_row db ls \<and> list_all line_ok ls)"

definition new_line :: "CrossLine \<Rightarrow> CrossLine list \<Rightarrow> bool" where
  "new_line l ls = list_all (\<lambda>l'. cl_index l' \<noteq> cl_index l \<and> cl_name l' \<noteq> cl_name l) ls"

definition account_row :: "Account \<Rightarrow> row" where
  "account_row a = map_of [(''id'', SText (acc_id a)), (''passwd'', SText (acc_passwd a)),
     (''otp_secret'', SText (acc_otp_secret a)), (''use_otp'', SInt (if acc_use_otp a then 1 else 0))]"

definition accounts_in :: "database \<Rightarrow> Account list \<Rightarrow> bool" where
  "accounts_in db as = (holds_rows ''accounts'' accounts_cols account_row db as \<and> distinct (map acc_id as))"

record RecoveryCode =
  rc_id :: string
  rc_code :: string
  rc_used :: int

definition rc_row :: "RecoveryCode \<Rightarrow> row" where
  "rc_row c = map_of [(''id'', SText (rc_id c)), (''code'', SText (rc_code c)), (''used'', SInt (rc_used c))]"

definition codes_in :: "database \<Rightarrow> RecoveryCode list \<Rightarrow> bool" where
  "codes_in db cs = holds_rows ''recovery_codes'' recovery_codes_cols rc_row db cs"

definition unused :: "string \<Rightarrow> RecoveryCode list \<Rightarrow> string list" where
  "unused user_id cs = map rc_code (filter (\<lambda>c. rc_id c = user_id \<and> rc_used c = 0) cs)"

definition mark_used :: "string \<Rightarrow> string \<Rightarrow> RecoveryCode list \<Rightarrow> RecoveryCode list" where
  "mark_used user_id h cs = map (\<lambda>c. if rc_id c = user_id \<and> rc_code c = h then c\<lparr>rc_used := 1\<rparr> else c) cs"

definition fresh_codes :: "string \<Rightarrow> string list \<Rightarrow> RecoveryCode list" where
  "fresh_codes user_id codes = map (\<lambda>c. \<lparr>rc_id = user_id, rc_code = c, rc_used = 0\<rparr>) codes"

section \<open>Lines\<close>

lemma wrap32_id: "int32 i \<Longrightarrow> wrap32 i = i"
  unfolding int32_def wrap32_def by (rule signed_take_bit_int_eq_self) simp_all

lemma SInt_le [simp]: "SInt i \<le> SInt j \<longleftrightarrow> i \<le> j"
  by (auto simp: less_eq_sql_value_def)

lemma SText_le [simp]: "SText s \<le> SText t \<longleftrightarrow> s \<le> t"
  by (auto simp: less_eq_sql_value_def)

lemma read_line_row: "line_ok l \<Longrightarrow> read_line (line_row l) = Some l"
  by (simp add: read_line_def line_row_def getColumn_def line_ok_def wrap32_id)

lemma read_rows_map: "(\<And>x. x \<in> set xs \<Longrightarrow> g (f x) = Some x) \<Longrightarrow> read_rows g (map f xs) = xs"
  by (induction xs) auto

lemma read_rows_prefix: "prefix rs rs' \<Longrightarrow> prefix (read_rows g rs) (read_rows g rs')"
proof (induction rs arbitrary: rs')
  case (Cons r rs)
  then show ?case by (cases rs') (auto split: option.splits)
qed simp

lemma lower_names [simp]:
  "lower ''lines'' = ''lines''" "lower ''detections'' = ''detections''"
  "lower ''accounts'' = ''accounts''" "lower ''recovery_codes'' = ''recovery_codes''"
  "lower ''baseLines'' = ''baselines''" "lower ''baselines'' = ''baselines''"
  "lower ''verticalLineEquations'' = ''verticallineequations''"
  by (simp_all add: lower_def less_eq_char_def char_of_def bit_0)

lemma insert_lines_exec:
  assumes "lines_in db ls"
  shows "sql_exec db
       (Insert ''lines'' [(''indexNum'', Par 0), (''x1'', Par 1), (''y1'', Par 2), (''x2'', Par 3),
          (''y2'', Par 4), (''name'', Par 5), (''mode'', Par 6)])
       [SInt (cl_index l), SInt (cl_x1 l), SInt (cl_y1 l), SInt (cl_x2 l),
        SInt (cl_y2 l), SText (cl_name l), SText (cl_mode l)] = Inr (r, db') \<longleftrightarrow>
     new_line l ls \<and> r = Changes 1 \<and> (\<exists>T. tabs db ''lines'' = Some T \<and>
       db' = put_table ''lines'' (T\<lparr>rows := map line_row (insort_key cl_index l ls), seq := new_seq T (line_row l)\<rparr>) db)"
proof -
  from assms obtain T where T: "tabs db ''lines'' = Some T" "columns T = lines_cols" "rows T = map line_row ls"
    by (auto simp: lines_in_def holds_rows_def split: option.splits)
  have k: "list_all (known T) [''indexNum'', ''x1'', ''y1'', ''x2'', ''y2'', ''name'', ''mode'']"
    by (simp add: known_def T lines_cols_def col_def is_keyword_def lower_def less_eq_char_def)
  have r: "new_row T [(''indexNum'', SInt (cl_index l)), (''x1'', SInt (cl_x1 l)), (''y1'', SInt (cl_y1 l)),
      (''x2'', SInt (cl_x2 l)), (''y2'', SInt (cl_y2 l)), (''name'', SText (cl_name l)), (''mode'', SText (cl_mode l))] = line_row l"
    by (simp add: new_row_def T lines_cols_def col_def line_row_def)
  have c: "list_ex (\<lambda>col. conflict col (rows T) (line_row l)) (columns T) \<longleftrightarrow> \<not> new_line l ls"
    by (auto simp: T lines_cols_def col_def conflict_def getcol_def line_row_def list_ex_iff new_line_def list_all_iff)
  have p: "place T (line_row l) = map line_row (insort_key cl_index l ls)"
    using insort_key_embed [of SInt cl_index l ls]
    by (simp add: place_def T lines_cols_def col_def insort_key_map) (simp add: getcol_def line_row_def)
  show ?thesis
    using k by (auto simp: sql_exec.simps with_table_def T(1) r c p Let_def simp del: map_of.simps)
qed

lemma pick_None [simp]: "pick None = (\<lambda>r. r)"
  by (simp add: pick_def fun_eq_iff)

lemma select_lines_exec:
  assumes "lines_in db ls"
  shows "sql_exec db (Select None ''lines'' [] (Some ''name'')) [] =
    Inr (Rows (map line_row (sort_key cl_name ls)), db)"
proof -
  obtain T where T: "tabs db ''lines'' = Some T" "columns T = lines_cols" "rows T = map line_row ls"
    using assms by (auto simp: lines_in_def holds_rows_def split: option.splits)
  have "sql_exec db (Select None ''lines'' [] (Some ''name'')) [] =
      Inr (Rows (sort_key (\<lambda>r. getcol r ''name'') (map line_row ls)), db)"
    by (simp add: sql_exec.simps with_table_def T known_def lines_cols_def col_def is_keyword_def lower_def less_eq_char_def
        sort_rows_def selected_def pick_def)
  also have "sort_key (\<lambda>r. getcol r ''name'') (map line_row ls) = map line_row (sort_key cl_name ls)"
    using sort_key_embed [of SText cl_name ls] by (simp add: sort_key_map) (simp add: getcol_def line_row_def)
  finally show ?thesis .
qed

lemma read_line_rows:
  assumes "lines_in db ls"
  shows "read_rows read_line (map line_row (sort_key cl_name ls)) = sort_key cl_name ls"
  using assms by (intro read_rows_map read_line_row) (auto simp: lines_in_def list_all_iff)

lemma lines_in_put:
  "columns T = lines_cols \<Longrightarrow> rows T = map line_row ls \<Longrightarrow> list_all line_ok ls \<Longrightarrow>
     lines_in (put_table ''lines'' T db) ls"
  by (simp add: lines_in_def holds_rows_def put_table_def)

lemma lines_in_table:
  assumes "lines_in db ls"
  obtains T where "tabs db ''lines'' = Some T" "columns T = lines_cols" "rows T = map line_row ls"
    "list_all line_ok ls"
  using assms by (auto simp: lines_in_def holds_rows_def split: option.splits)

context sqlite begin

lemma try_exec_True:
  assumes "try_exec run d st args = (True, d')" "well_typed num (view d) st args"
  shows "\<exists>r. sql_exec (view d) st args = Inr (r, view d')"
proof -
  obtain r where "run d st args = (Ok r, d')"
    using assms(1) by (auto simp: try_exec_def split: prod.splits reply.splits)
  from run_Ok [OF assms(2) this] show ?thesis ..
qed

lemma try_exec_False:
  assumes "try_exec run d st args = (False, d')" "well_typed num (view d) st args"
  shows "view d' = view d"
proof -
  obtain rs where "run d st args = (Fail rs, d')"
    using assms(1) by (auto simp: try_exec_def split: prod.splits reply.splits)
  from run_Fail [OF assms(2) this] show ?thesis .
qed

lemma try_changes_True:
  assumes "try_changes run d st args = (True, d')" "well_typed num (view d) st args"
  shows "\<exists>r. r \<noteq> Changes 0 \<and> sql_exec (view d) st args = Inr (r, view d')"
proof -
  obtain r where "r \<noteq> Changes 0" "run d st args = (Ok r, d')"
    using assms(1) by (auto simp: try_changes_def split: prod.splits reply.splits sql_result.splits if_splits)
  then show ?thesis using run_Ok [OF assms(2)] by blast
qed

lemma try_changes_False:
  assumes "try_changes run d st args = (False, d')" "well_typed num (view d) st args"
  shows "view d' = view d \<or> sql_exec (view d) st args = Inr (Changes 0, view d')"
proof -
  have "(\<exists>rs. run d st args = (Fail rs, d')) \<or> run d st args = (Ok (Changes 0), d')"
    using assms(1) by (auto simp: try_changes_def split: prod.splits reply.splits sql_result.splits if_splits)
  then show ?thesis using run_Ok [OF assms(2)] run_Fail [OF assms(2)] by blast
qed

lemma try_query_rows:
  assumes "try_query run d st args = (rs, d')" "well_typed num (view d) st args"
    and "sql_exec (view d) st args = Inr (Rows rs', view d)"
  shows "prefix rs rs' \<and> view d' = view d"
proof -
  obtain a where r: "run d st args = (a, d')"
    using assms(1) by (auto simp: try_query_def split: prod.splits reply.splits sql_result.splits)
  show ?thesis
  proof (cases a)
    case (Ok x)
    from run_Ok [OF assms(2) r [unfolded Ok]] assms(3) have "x = Rows rs'" "view d' = view d" by simp_all
    with assms(1) r Ok show ?thesis by (simp add: try_query_def)
  next
    case (Fail x)
    from assms(1) r Fail have "x = rs" by (simp add: try_query_def)
    with run_Fail [OF assms(2) r [unfolded Fail]] run_Fail_prefix [OF assms(2) r [unfolded Fail] assms(3)]
    show ?thesis by simp
  qed
qed

lemma line_insert_typed:
  assumes "lines_in (view d) ls" "line_ok l"
  shows "well_typed num (view d)
     (Insert ''lines'' [(''indexNum'', Par 0), (''x1'', Par 1), (''y1'', Par 2), (''x2'', Par 3),
          (''y2'', Par 4), (''name'', Par 5), (''mode'', Par 6)])
     [SInt (cl_index l), SInt (cl_x1 l), SInt (cl_y1 l), SInt (cl_x2 l),
        SInt (cl_y2 l), SText (cl_name l), SText (cl_mode l)]"
proof -
  obtain T where "tabs (view d) ''lines'' = Some T" "columns T = lines_cols"
    using assms(1) by (rule lines_in_table)
  then show ?thesis
    using assms(2) by (simp add: on_table_def fits_col_def lines_cols_def col_def line_ok_def int32_def)
qed

lemma insert_data_lines_True:
  assumes "lines_in (view d) ls" "line_ok l" "insert_data_lines run l d = (True, d')"
  shows "new_line l ls \<and> lines_in (view d') (insort_key cl_index l ls)"
proof -
  obtain T where T: "tabs (view d) ''lines'' = Some T" "columns T = lines_cols" "rows T = map line_row ls"
    "list_all line_ok ls" using assms(1) by (rule lines_in_table)
  from try_exec_True [OF assms(3) [unfolded insert_data_lines_def] line_insert_typed [OF assms(1, 2)]] T
  show ?thesis
    unfolding insert_lines_exec [OF assms(1)]
    by (auto simp: set_insort_key list_all_iff assms(2) intro!: lines_in_put)
qed

lemma insert_data_lines_False:
  assumes "lines_in (view d) ls" "line_ok l" "insert_data_lines run l d = (False, d')"
  shows "view d' = view d"
  using try_exec_False [OF assms(3) [unfolded insert_data_lines_def] line_insert_typed [OF assms(1, 2)]] .

lemma select_all_data_lines_prefix:
  assumes "lines_in (view d) ls" "select_all_data_lines run d = (out, d')"
  shows "prefix out (sort_key cl_name ls) \<and> view d' = view d"
proof -
  let ?st = "Select None ''lines'' [] (Some ''name'')"
  obtain T where T: "tabs (view d) ''lines'' = Some T" "columns T = lines_cols" "rows T = map line_row ls"
    "list_all line_ok ls" using assms(1) by (rule lines_in_table)
  obtain rs where rs: "try_query run d ?st [] = (rs, d')" "out = read_rows read_line rs"
    using assms(2) by (auto simp: select_all_data_lines_def split: prod.splits)
  have "prefix rs (map line_row (sort_key cl_name ls)) \<and> view d' = view d"
    by (intro try_query_rows [OF rs(1) _ select_lines_exec [OF assms(1)]]) (simp add: on_table_def T)
  then show ?thesis
    using read_rows_prefix [of rs "map line_row (sort_key cl_name ls)" read_line] read_line_rows [OF assms(1)] rs(2)
    by simp
qed

lemma delete_all_data_lines_result:
  assumes "lines_in (view d) ls" "delete_all_data_lines run d = (ok, d')"
  shows "if ok then ls \<noteq> [] \<and> lines_in (view d') [] else view d' = view d \<or> ls = [] \<and> lines_in (view d') []"
proof -
  obtain T where T: "tabs (view d) ''lines'' = Some T" "columns T = lines_cols" "rows T = map line_row ls"
    "list_all line_ok ls" using assms(1) by (rule lines_in_table)
  have ex: "sql_exec (view d) (Delete ''lines'' []) [] =
      Inr (Changes (length ls), put_table ''lines'' (T\<lparr>rows := []\<rparr>) (view d))"
    by (simp add: sql_exec.simps with_table_def T selected_def)
  have wt: "well_typed num (view d) (Delete ''lines'' []) []" by (simp add: on_table_def T)
  have l: "lines_in (put_table ''lines'' (T\<lparr>rows := []\<rparr>) (view d)) []"
    by (rule lines_in_put) (simp_all add: T)
  show ?thesis
  proof (cases ok)
    case True
    with assms(2) have "try_changes run d (Delete ''lines'' []) [] = (True, d')"
      by (simp add: delete_all_data_lines_def)
    from try_changes_True [OF this wt, unfolded ex] l True show ?thesis by auto
  next
    case False
    with assms(2) have "try_changes run d (Delete ''lines'' []) [] = (False, d')"
      by (simp add: delete_all_data_lines_def)
    from try_changes_False [OF this wt, unfolded ex] l False show ?thesis by auto
  qed
qed

end

section \<open>Accounts\<close>

lemma accounts_in_table:
  assumes "accounts_in db as"
  obtains T where "tabs db ''accounts'' = Some T" "columns T = accounts_cols" "rows T = map account_row as"
    "distinct (map acc_id as)"
  using assms by (auto simp: accounts_in_def holds_rows_def split: option.splits)

lemma accounts_in_put:
  "columns T = accounts_cols \<Longrightarrow> rows T = map account_row as \<Longrightarrow> distinct (map acc_id as) \<Longrightarrow>
     accounts_in (put_table ''accounts'' T db) as"
  by (simp add: accounts_in_def holds_rows_def put_table_def)

lemma read_account_row:
  "read_account (pick (Some [''id'', ''passwd'', ''otp_secret'', ''use_otp'']) (account_row a)) = Some a"
  by (simp add: read_account_def getColumn_def pick_def account_row_def wrap32_def)

lemma insert_accounts_exec:
  assumes "accounts_in db as"
  shows "sql_exec db
      (Insert ''accounts'' [(''id'', Par 0), (''passwd'', Par 1), (''otp_secret'', Par 2), (''use_otp'', Par 3)])
      [SText (acc_id a), SText (acc_passwd a), SText (acc_otp_secret a), SInt (if acc_use_otp a then 1 else 0)]
      = Inr (r, db') \<longleftrightarrow>
    acc_id a \<notin> set (map acc_id as) \<and> r = Changes 1 \<and> (\<exists>T. tabs db ''accounts'' = Some T \<and>
      db' = put_table ''accounts'' (T\<lparr>rows := map account_row (as @ [a]), seq := seq T\<rparr>) db)"
proof -
  from assms obtain T where T: "tabs db ''accounts'' = Some T" "columns T = accounts_cols" "rows T = map account_row as"
    by (rule accounts_in_table)
  have k: "list_all (known T) [''id'', ''passwd'', ''otp_secret'', ''use_otp'']"
    by (simp add: known_def T accounts_cols_def col_def is_keyword_def lower_def less_eq_char_def)
  have r: "new_row T [(''id'', SText (acc_id a)), (''passwd'', SText (acc_passwd a)),
      (''otp_secret'', SText (acc_otp_secret a)), (''use_otp'', SInt (if acc_use_otp a then 1 else 0))] = account_row a"
    by (simp add: new_row_def T accounts_cols_def col_def account_row_def)
  have c: "list_ex (\<lambda>col. conflict col (rows T) (account_row a)) (columns T) \<longleftrightarrow> acc_id a \<in> set (map acc_id as)"
    by (auto simp: T accounts_cols_def col_def conflict_def getcol_def account_row_def list_ex_iff image_iff eq_commute)
  have p: "place T (account_row a) = map account_row (as @ [a])" "new_seq T (account_row a) = seq T"
    by (simp_all add: place_def new_seq_def T accounts_cols_def col_def)
  show ?thesis
    using k by (auto simp: sql_exec.simps with_table_def T(1) r c p Let_def simp del: map_of.simps)
qed

lemma select_account_exec:
  assumes "accounts_in db as"
  shows "sql_exec db (Select (Some [''id'', ''passwd'', ''otp_secret'', ''use_otp'']) ''accounts'' [Eq ''id'' (Par 0)] None)
      [SText user_id] =
    Inr (Rows (map (pick (Some [''id'', ''passwd'', ''otp_secret'', ''use_otp'']) \<circ> account_row)
           (filter (\<lambda>a. acc_id a = user_id) as)), db)"
proof -
  from assms obtain T where T: "tabs db ''accounts'' = Some T" "columns T = accounts_cols" "rows T = map account_row as"
    by (rule accounts_in_table)
  have "selected [SText user_id] [Eq ''id'' (Par 0)] (account_row a) \<longleftrightarrow> acc_id a = user_id" for a
    by (auto simp: selected_def getcol_def account_row_def)
  then show ?thesis
    by (simp add: sql_exec.simps with_table_def T known_def accounts_cols_def col_def is_keyword_def lower_def
        less_eq_char_def sort_rows_def filter_map o_def)
qed

lemma filter_unique_id:
  "distinct (map f xs) \<Longrightarrow>
     filter (\<lambda>x. f x = k) xs = (case find (\<lambda>x. f x = k) xs of None \<Rightarrow> [] | Some x \<Rightarrow> [x])"
proof (induction xs)
  case (Cons x xs)
  show ?case
  proof (cases "f x = k")
    case True
    with Cons.prems have "filter (\<lambda>x. f x = k) xs = []" by (auto simp: filter_empty_conv) (metis imageI)
    with True show ?thesis by simp
  qed (use Cons in simp)
qed simp

context sqlite begin

lemma account_typed:
  assumes "accounts_in (view d) as"
  shows "well_typed num (view d)
      (Insert ''accounts'' [(''id'', Par 0), (''passwd'', Par 1), (''otp_secret'', Par 2), (''use_otp'', Par 3)])
      [SText (acc_id a), SText (acc_passwd a), SText (acc_otp_secret a), SInt (if acc_use_otp a then 1 else 0)]"
    and "well_typed num (view d)
      (Select (Some [''id'', ''passwd'', ''otp_secret'', ''use_otp'']) ''accounts'' [Eq ''id'' (Par 0)] None) [SText user_id]"
proof -
  obtain T where "tabs (view d) ''accounts'' = Some T" "columns T = accounts_cols"
    using assms by (rule accounts_in_table)
  then show "well_typed num (view d)
      (Insert ''accounts'' [(''id'', Par 0), (''passwd'', Par 1), (''otp_secret'', Par 2), (''use_otp'', Par 3)])
      [SText (acc_id a), SText (acc_passwd a), SText (acc_otp_secret a), SInt (if acc_use_otp a then 1 else 0)]"
    and "well_typed num (view d)
      (Select (Some [''id'', ''passwd'', ''otp_secret'', ''use_otp'']) ''accounts'' [Eq ''id'' (Par 0)] None) [SText user_id]"
    by (simp_all add: on_table_def fits_col_def accounts_cols_def col_def)
qed

lemma insert_data_accounts_result:
  assumes "accounts_in (view d) as" "insert_data_accounts run a d = (ok, d')"
  shows "if ok then acc_id a \<notin> set (map acc_id as) \<and> accounts_in (view d') (as @ [a]) else view d' = view d"
proof -
  obtain T where T: "tabs (view d) ''accounts'' = Some T" "columns T = accounts_cols" "rows T = map account_row as"
    "distinct (map acc_id as)" using assms(1) by (rule accounts_in_table)
  show ?thesis
  proof (cases ok)
    case True
    from assms(2) True have "insert_data_accounts run a d = (True, d')" by simp
    from try_exec_True [OF this [unfolded insert_data_accounts_def] account_typed(1) [OF assms(1)]] T
    show ?thesis
      unfolding insert_accounts_exec [OF assms(1)] using True by (auto intro!: accounts_in_put)
  next
    case False
    with assms(2) have "insert_data_accounts run a d = (False, d')" by simp
    from try_exec_False [OF this [unfolded insert_data_accounts_def] account_typed(1) [OF assms(1)]] False
    show ?thesis by simp
  qed
qed

lemma get_account_by_id_result:
  assumes "accounts_in (view d) as" "get_account_by_id run user_id d = (r, d')"
  shows "view d' = view d \<and> (r = None \<or> r = find (\<lambda>a. acc_id a = user_id) as)"
proof -
  let ?cols = "[''id'', ''passwd'', ''otp_secret'', ''use_otp'']"
  let ?st = "Select (Some ?cols) ''accounts'' [Eq ''id'' (Par 0)] None"
  let ?rs = "map (pick (Some ?cols) \<circ> account_row) (filter (\<lambda>a. acc_id a = user_id) as)"
  have "distinct (map acc_id as)" using assms(1) by (rule accounts_in_table)
  note fl = filter_unique_id [OF this]
  obtain a d'' where run: "run d ?st [SText user_id] = (a, d'')" by (cases "run d ?st [SText user_id]")
  show ?thesis
  proof (cases a)
    case (Ok x)
    from run_Ok [OF account_typed(2) [OF assms(1)] run [unfolded Ok]] select_account_exec [OF assms(1)]
    have "x = Rows ?rs" "view d'' = view d" by simp_all
    then show ?thesis
      using assms(2) run Ok
      by (auto simp: get_account_by_id_def fl read_account_row split: option.splits)
  next
    case (Fail x)
    note t = account_typed(2) [OF assms(1)] run [unfolded Fail]
    have "view d'' = view d" using run_Fail [OF t] .
    moreover have "prefix x ?rs" using run_Fail_prefix [OF t select_account_exec [OF assms(1)]] .
    ultimately show ?thesis
      using assms(2) run Fail
      by (auto simp: get_account_by_id_def fl read_account_row prefix_Cons split: option.splits list.splits)
  qed
qed

end

section \<open>Recovery codes\<close>

lemma codes_in_table:
  assumes "codes_in db cs"
  obtains T where "tabs db ''recovery_codes'' = Some T" "columns T = recovery_codes_cols" "rows T = map rc_row cs"
  using assms by (auto simp: codes_in_def holds_rows_def split: option.splits)

lemma codes_in_put:
  "columns T = recovery_codes_cols \<Longrightarrow> rows T = map rc_row cs \<Longrightarrow> codes_in (put_table ''recovery_codes'' T db) cs"
  by (simp add: codes_in_def holds_rows_def put_table_def)

lemma insert_code_exec:
  assumes "codes_in db cs"
  shows "\<exists>db'. sql_exec db (Insert ''recovery_codes'' [(''id'', Par 0), (''code'', Par 1)]) [SText user_id, SText code]
      = Inr (Changes 1, db') \<and> codes_in db' (cs @ fresh_codes user_id [code]) \<and> saved db' = saved db"
proof -
  from assms obtain T where T: "tabs db ''recovery_codes'' = Some T" "columns T = recovery_codes_cols" "rows T = map rc_row cs"
    by (rule codes_in_table)
  let ?c = "\<lparr>rc_id = user_id, rc_code = code, rc_used = 0\<rparr>"
  have k: "list_all (known T) [''id'', ''code'']"
    by (simp add: known_def T recovery_codes_cols_def col_def is_keyword_def lower_def less_eq_char_def)
  have r: "new_row T [(''id'', SText user_id), (''code'', SText code)] = rc_row ?c"
    by (simp add: new_row_def T recovery_codes_cols_def col_def rc_row_def)
  have c: "\<not> list_ex (\<lambda>col. conflict col (rows T) (rc_row ?c)) (columns T)"
    by (auto simp: T recovery_codes_cols_def col_def conflict_def getcol_def rc_row_def)
  have p: "place T (rc_row ?c) = map rc_row (cs @ [?c])"
    by (simp add: place_def T recovery_codes_cols_def col_def)
  show ?thesis
    using k T(2)
    by (auto simp: sql_exec.simps with_table_def T(1) r c [unfolded T(2)] p Let_def fresh_codes_def
        simp del: map_of.simps intro!: codes_in_put) (simp add: put_table_def)
qed

lemma unused_exec:
  assumes "codes_in db cs"
  shows "sql_exec db (Select (Some [''code'']) ''recovery_codes'' [Eq ''id'' (Par 0), Eq ''used'' (Lit (SInt 0))] None)
      [SText user_id] =
    Inr (Rows (map (pick (Some [''code'']) \<circ> rc_row) (filter (\<lambda>c. rc_id c = user_id \<and> rc_used c = 0) cs)), db)"
proof -
  from assms obtain T where T: "tabs db ''recovery_codes'' = Some T" "columns T = recovery_codes_cols" "rows T = map rc_row cs"
    by (rule codes_in_table)
  have "selected [SText user_id] [Eq ''id'' (Par 0), Eq ''used'' (Lit (SInt 0))] (rc_row c) \<longleftrightarrow>
      rc_id c = user_id \<and> rc_used c = 0" for c
    by (auto simp: selected_def getcol_def rc_row_def)
  then show ?thesis
    by (simp add: sql_exec.simps with_table_def T known_def recovery_codes_cols_def col_def is_keyword_def lower_def
        less_eq_char_def sort_rows_def filter_map o_def)
qed

lemma mark_used_exec:
  assumes "codes_in db cs"
  shows "\<exists>db'. sql_exec db (Update ''recovery_codes'' [(''used'', Lit (SInt 1))] [Eq ''id'' (Par 0), Eq ''code'' (Par 1)])
      [SText user_id, SText h] =
    Inr (Changes (length (filter (\<lambda>c. rc_id c = user_id \<and> rc_code c = h) cs)), db') \<and> codes_in db' (mark_used user_id h cs)"
proof -
  from assms obtain T where T: "tabs db ''recovery_codes'' = Some T" "columns T = recovery_codes_cols" "rows T = map rc_row cs"
    by (rule codes_in_table)
  let ?sel = "selected [SText user_id, SText h] [Eq ''id'' (Par 0), Eq ''code'' (Par 1)]"
  have sel: "?sel (rc_row c) \<longleftrightarrow> rc_id c = user_id \<and> rc_code c = h" for c
    by (auto simp: selected_def getcol_def rc_row_def)
  have upd: "(if ?sel (rc_row c) then set_cols [(''used'', SInt 1)] (rc_row c) else rc_row c) =
      rc_row (if rc_id c = user_id \<and> rc_code c = h then c\<lparr>rc_used := 1\<rparr> else c)" for c
    unfolding sel by (auto simp: set_cols_def rc_row_def fun_eq_iff)
  show ?thesis
    by (simp add: sql_exec.simps with_table_def T known_def recovery_codes_cols_def col_def is_keyword_def lower_def
        less_eq_char_def Let_def filter_map o_def sel [unfolded One_nat_def])
      (simp add: upd [unfolded sel] codes_in_def holds_rows_def put_table_def T mark_used_def recovery_codes_cols_def col_def
        sel [unfolded One_nat_def])
qed

lemma read_codes:
  "read_rows (\<lambda>r. map_option as_text (getColumn r ''code'')) (map (pick (Some [''code'']) \<circ> rc_row) cs) = map rc_code cs"
  by (induction cs) (simp_all add: getColumn_def pick_def rc_row_def)

lemma unused_mark_used: "unused user_id (mark_used user_id h cs) = filter (\<lambda>c. c \<noteq> h) (unused user_id cs)"
  by (induction cs) (auto simp: unused_def mark_used_def)

lemma first_match_Some:
  "first_match pwverify input hs \<noteq> '''' \<Longrightarrow>
     first_match pwverify input hs \<in> set hs \<and> pwverify (first_match pwverify input hs) input"
  by (induction hs) (auto simp: verify_password_def split: if_splits)

context sqlite begin

lemma code_typed:
  assumes "codes_in (view d) cs"
  shows "well_typed num (view d) (Insert ''recovery_codes'' [(''id'', Par 0), (''code'', Par 1)]) [SText user_id, SText code]"
    and "well_typed num (view d)
      (Select (Some [''code'']) ''recovery_codes'' [Eq ''id'' (Par 0), Eq ''used'' (Lit (SInt 0))] None) [SText user_id]"
    and "well_typed num (view d)
      (Update ''recovery_codes'' [(''used'', Lit (SInt 1))] [Eq ''id'' (Par 0), Eq ''code'' (Par 1)]) [SText user_id, SText code]"
  using assms
  by (auto elim!: codes_in_table simp: on_table_def fits_col_def recovery_codes_cols_def col_def)

lemma get_hashed_recovery_codes_result:
  assumes "codes_in (view d) cs" "get_hashed_recovery_codes run user_id d = (out, d')"
  shows "prefix out (unused user_id cs) \<and> view d' = view d"
proof -
  let ?st = "Select (Some [''code'']) ''recovery_codes'' [Eq ''id'' (Par 0), Eq ''used'' (Lit (SInt 0))] None"
  obtain rs where rs: "try_query run d ?st [SText user_id] = (rs, d')"
      "out = read_rows (\<lambda>r. map_option as_text (getColumn r ''code'')) rs"
    using assms(2) by (auto simp: get_hashed_recovery_codes_def split: prod.splits)
  from try_query_rows [OF rs(1) code_typed(2) [OF assms(1)] unused_exec [OF assms(1)]]
  have "prefix rs (map (pick (Some [''code'']) \<circ> rc_row) (filter (\<lambda>c. rc_id c = user_id \<and> rc_used c = 0) cs))"
    "view d' = view d" by blast+
  from read_rows_prefix [OF this(1), of "\<lambda>r. map_option as_text (getColumn r ''code'')"] this(2)
  show ?thesis unfolding read_codes unused_def rs(2) by blast
qed

lemma invalidate_recovery_code_True:
  assumes "codes_in (view d) cs" "invalidate_recovery_code pwverify run user_id input d = (True, d')"
  shows "\<exists>h. h \<in> set (unused user_id cs) \<and> pwverify h input \<and> codes_in (view d') (mark_used user_id h cs)"
proof -
  obtain hs d1 where g: "get_hashed_recovery_codes run user_id d = (hs, d1)" by (cases "get_hashed_recovery_codes run user_id d")
  note hs = get_hashed_recovery_codes_result [OF assms(1) g]
  let ?h = "first_match pwverify input hs"
  have h: "?h \<noteq> ''''" and ch: "try_changes run d1 (Update ''recovery_codes'' [(''used'', Lit (SInt 1))]
      [Eq ''id'' (Par 0), Eq ''code'' (Par 1)]) [SText user_id, SText ?h] = (True, d')"
    using assms(2) g by (auto simp: invalidate_recovery_code_def Let_def split: if_splits)
  have c1: "codes_in (view d1) cs" using hs assms(1) by simp
  have "codes_in (view d') (mark_used user_id ?h cs)"
    using try_changes_True [OF ch code_typed(3) [OF c1]] mark_used_exec [OF c1, of user_id ?h] by auto
  moreover have "?h \<in> set (unused user_id cs)" "pwverify ?h input"
    using first_match_Some [OF h] hs by (auto dest: set_mono_prefix)
  ultimately show ?thesis by blast
qed

lemma verify_recovery_code_result:
  assumes "codes_in (view d) cs" "verify_recovery_code pwverify run user_id input d = (ok, d')"
  shows "view d' = view d \<and> (ok \<longrightarrow> (\<exists>h. h \<in> set (unused user_id cs) \<and> pwverify h input))"
proof -
  obtain hs d1 where g: "get_hashed_recovery_codes run user_id d = (hs, d1)" by (cases "get_hashed_recovery_codes run user_id d")
  then show ?thesis
    using get_hashed_recovery_codes_result [OF assms(1) g] assms(2)
    by (auto simp: verify_recovery_code_def verify_password_def list_ex_iff dest: set_mono_prefix)
qed

lemma insert_codes_result:
  assumes "codes_in (view d) cs" "insert_codes run user_id codes d = (ok, d')"
  shows "saved (view d') = saved (view d) \<and> (ok \<longrightarrow> codes_in (view d') (cs @ fresh_codes user_id codes))"
  using assms
proof (induction codes arbitrary: cs d)
  case (Cons code codes)
  let ?st = "Insert ''recovery_codes'' [(''id'', Par 0), (''code'', Par 1)]" and ?args = "[SText user_id, SText code]"
  obtain b d1 where e: "try_exec run d ?st ?args = (b, d1)" by (cases "try_exec run d ?st ?args")
  show ?case
  proof (cases b)
    case True
    from e True have "try_exec run d ?st ?args = (True, d1)" by simp
    from try_exec_True [OF this code_typed(1) [OF Cons.prems(1)]] insert_code_exec [OF Cons.prems(1), of user_id code]
    have 1: "codes_in (view d1) (cs @ fresh_codes user_id [code])" "saved (view d1) = saved (view d)" by auto
    show ?thesis
      using Cons.IH [OF 1(1)] Cons.prems(2) e True 1(2) by (simp add: fresh_codes_def)
  next
    case False
    with e have f: "try_exec run d ?st ?args = (False, d1)" by simp
    from try_exec_False [OF this code_typed(1) [OF Cons.prems(1)]] f Cons.prems(2) show ?thesis by simp
  qed
qed (simp add: fresh_codes_def)

end

context sqlite begin

lemma try_query_reliable:
  assumes "try_query run d st args = (rs, d')" "well_typed num (view d) st args"
    and "sql_exec (view d) st args = Inr (Rows rs', view d)" "reliable num run view"
  shows "rs = rs'"
proof -
  obtain r d1 where r: "run d st args = (Ok r, d1)"
    using assms(2-4) unfolding reliable_def by blast
  from run_Ok [OF assms(2) r] assms(3) have "r = Rows rs'" by simp
  with assms(1) r show ?thesis by (simp add: try_query_def)
qed

lemma select_all_data_lines_reliable:
  assumes "lines_in (view d) ls" "select_all_data_lines run d = (out, d')" "reliable num run view"
  shows "out = sort_key cl_name ls"
proof -
  obtain rs where rs: "try_query run d (Select None ''lines'' [] (Some ''name'')) [] = (rs, d')" "out = read_rows read_line rs"
    using assms(2) by (auto simp: select_all_data_lines_def split: prod.splits)
  have "rs = map line_row (sort_key cl_name ls)"
    using try_query_reliable [OF rs(1) _ select_lines_exec [OF assms(1)] assms(3)] by (simp add: on_table_def split: option.split)
  then show ?thesis using read_line_rows [OF assms(1)] rs(2) by simp
qed

lemma get_account_by_id_reliable:
  assumes "accounts_in (view d) as" "get_account_by_id run user_id d = (r, d')" "reliable num run view"
  shows "r = find (\<lambda>a. acc_id a = user_id) as"
proof -
  let ?st = "Select (Some [''id'', ''passwd'', ''otp_secret'', ''use_otp'']) ''accounts'' [Eq ''id'' (Par 0)] None"
  have "distinct (map acc_id as)" using assms(1) by (rule accounts_in_table)
  note fl = filter_unique_id [OF this]
  obtain x d1 where x: "run d ?st [SText user_id] = (Ok x, d1)"
    using assms(3) account_typed(2) [OF assms(1)] select_account_exec [OF assms(1)] unfolding reliable_def by blast
  from run_Ok [OF account_typed(2) [OF assms(1)] x] select_account_exec [OF assms(1), of user_id] assms(2) x
  show ?thesis
    by (auto simp: get_account_by_id_def fl read_account_row split: option.splits)
qed

lemma store_recovery_codes_result:
  assumes "codes_in (view d) cs" "saved (view d) = None" "store_recovery_codes run user_id codes d = (ok, d')"
  shows "if ok then codes_in (view d') (cs @ fresh_codes user_id codes) \<and> saved (view d') = None
    else view d' = view d \<or> saved (view d') = Some (tabs (view d))"
proof -
  have wt: "well_typed num db Begin []" "well_typed num db Commit []" "well_typed num db Rollback []" for db by simp_all
  have rb: "view (snd (run d2 Rollback [])) = view d \<or> saved (view (snd (run d2 Rollback []))) = Some (tabs (view d))"
    if s: "saved (view d2) = Some (tabs (view d))" for d2
  proof -
    obtain a d3 where r: "run d2 Rollback [] = (a, d3)" by (cases "run d2 Rollback []")
    show ?thesis
    proof (cases a)
      case (Ok x)
      from run_Ok [OF wt(3) r [unfolded Ok]] s
      have "view d3 = (view d2)\<lparr>tabs := tabs (view d), saved := None\<rparr>" by (simp add: sql_exec.simps)
      then have "view d3 = view d" using assms(2) by (intro database.equality) simp_all
      then show ?thesis using r by simp
    next
      case (Fail x)
      from run_Fail [OF wt(3) r [unfolded Fail]] s r show ?thesis by simp
    qed
  qed
  obtain a d1 where b: "run d Begin [] = (a, d1)" by (cases "run d Begin []")
  show ?thesis
  proof (cases a)
    case (Fail x)
    from run_Fail [OF wt(1) b [unfolded Fail]] assms(3) b Fail show ?thesis by (simp add: store_recovery_codes_def)
  next
    case (Ok x)
    from run_Ok [OF wt(1) b [unfolded Ok]] assms(2)
    have v1: "view d1 = (view d)\<lparr>saved := Some (tabs (view d))\<rparr>" by (simp add: sql_exec.simps)
    then have c1: "codes_in (view d1) cs" using assms(1) by (simp add: codes_in_def holds_rows_def)
    obtain ok2 d2 where i: "insert_codes run user_id codes d1 = (ok2, d2)" by (cases "insert_codes run user_id codes d1")
    note i2 = insert_codes_result [OF c1 i]
    obtain y d3 where c: "run d2 Commit [] = (y, d3)" by (cases "run d2 Commit []")
    show ?thesis
    proof (cases "ok2 \<and> (\<exists>r. y = Ok r)")
      case True
      then obtain r where y: "y = Ok r" by blast
      from run_Ok [OF wt(2) c [unfolded y]] have "view d3 = (view d2)\<lparr>saved := None\<rparr>"
        by (auto simp: sql_exec.simps split: option.splits)
      then show ?thesis
        using True i2 assms(3) b Ok i c y by (auto simp: store_recovery_codes_def codes_in_def holds_rows_def)
    next
      case False
      obtain d4 where d4: "ok = False" "d' = snd (run d4 Rollback [])" "view d4 = view d2"
        using False assms(3) b Ok i c run_Fail [OF wt(2)]
        by (cases ok2; cases y) (auto simp: store_recovery_codes_def)
      then show ?thesis using rb [of d4] i2 v1 by simp
    qed
  qed
qed

end

section \<open>Example databases\<close>

definition gate :: CrossLine where
  "gate = \<lparr>cl_index = 1, cl_x1 = 10, cl_y1 = 20, cl_x2 = 30, cl_y2 = 40, cl_name = ''gate'', cl_mode = ''Right''\<rparr>"

definition exit_line :: CrossLine where
  "exit_line = \<lparr>cl_index = 0, cl_x1 = 5, cl_y1 = 5, cl_x2 = 9, cl_y2 = 9, cl_name = ''exit'', cl_mode = ''Left''\<rparr>"

definition lines_db :: "CrossLine list \<Rightarrow> database" where
  "lines_db ls = put_table ''lines'' \<lparr>columns = lines_cols, rows = map line_row ls, seq = 0\<rparr> empty_db"

definition codes_db :: "RecoveryCode list \<Rightarrow> database" where
  "codes_db cs = put_table ''recovery_codes'' \<lparr>columns = recovery_codes_cols, rows = map rc_row cs, seq = 0\<rparr> empty_db"

definition accounts_db :: "Account list \<Rightarrow> database" where
  "accounts_db as = put_table ''accounts'' \<lparr>columns = accounts_cols, rows = map account_row as, seq = 0\<rparr> empty_db"

lemma example_dbs:
  "list_all line_ok ls \<Longrightarrow> lines_in (lines_db ls) ls"
  "codes_in (codes_db cs) cs"
  "distinct (map acc_id as) \<Longrightarrow> accounts_in (accounts_db as) as"
  "saved (codes_db cs) = None"
  by (simp_all add: lines_db_def codes_db_def accounts_db_def lines_in_put codes_in_put accounts_in_put)
    (simp add: put_table_def empty_db_def)

lemma tape_Ok: "sql_exec db st args = Inr (r, db') \<Longrightarrow> tape_run (db, []) st args = (Ok r, (db', []))"
  by (simp add: tape_run_def)

lemma insert_lines_succeeds:
  assumes "lines_in db ls" "new_line l ls"
  shows "\<exists>db'. insert_data_lines tape_run l (db, []) = (True, (db', []))"
proof -
  obtain T where "tabs db ''lines'' = Some T" using assms(1) by (rule lines_in_table)
  then show ?thesis
    unfolding insert_data_lines_def try_exec_def
    using insert_lines_exec [OF assms(1), of l, THEN iffD2, THEN tape_Ok] assms(2) by fastforce
qed

lemma insert_accounts_succeeds:
  assumes "accounts_in db as" "acc_id a \<notin> set (map acc_id as)"
  shows "\<exists>db'. insert_data_accounts sure_run a db = (True, db')"
proof -
  obtain T where T: "tabs db ''accounts'' = Some T" using assms(1) by (rule accounts_in_table)
  show ?thesis
    unfolding insert_data_accounts_def try_exec_def sure_run_def
    using insert_accounts_exec [OF assms(1), of a, THEN iffD2] assms(2) T by fastforce
qed

lemma example_lines_ok: "line_ok gate" "line_ok exit_line"
  by (simp_all add: line_ok_def gate_def exit_line_def int32_def)

section \<open>Properties\<close>

text \<open>
  Claim C18: \<open>insert_data_lines\<close> refines insertion into a list ordered by index: it returns
  true exactly with the line added, which then had a new index and a new name, and leaves
  the database as it was when it returns false, whatever failures the engine has.
\<close>

theorem insert_data_lines_refines:
  assumes "conforms num run view" "lines_in (view d) ls" "line_ok l"
  shows "case insert_data_lines run l d of
      (True, d') \<Rightarrow> new_line l ls \<and> lines_in (view d') (insort_key cl_index l ls)
    | (False, d') \<Rightarrow> view d' = view d"
  using sqlite.insert_data_lines_True [OF sqlite.intro [OF assms(1)] assms(2, 3)]
    sqlite.insert_data_lines_False [OF sqlite.intro [OF assms(1)] assms(2, 3)]
  by (auto split: prod.split bool.split)

theorem insert_data_lines_refines_witness:
  "new_line exit_line [gate] \<and>
     lines_in (fst (snd (insert_data_lines tape_run exit_line (lines_db [gate], [])))) [exit_line, gate]"
proof -
  have l: "lines_in (fst (lines_db [gate], [] :: nat option list)) [gate]"
    using example_dbs(1) example_lines_ok by simp
  have "new_line exit_line [gate]" by (simp add: new_line_def exit_line_def gate_def)
  with insert_lines_succeeds [OF l] obtain db' where
    "insert_data_lines tape_run exit_line (lines_db [gate], []) = (True, (db', []))" by auto
  moreover have "insort_key cl_index exit_line [gate] = [exit_line, gate]" by (simp add: exit_line_def gate_def)
  ultimately show ?thesis
    using insert_data_lines_refines [OF conforms_tape [of "\<lambda>_. False"] l example_lines_ok(2)] by simp
qed

text \<open>
  Claim C37: \<open>select_all_data_lines\<close> does not change the database and returns the lines in
  the order of their names; when the engine fails on the way, the first lines of that order.
\<close>

theorem select_all_data_lines_sorted:
  assumes "conforms num run view" "lines_in (view d) ls"
  shows "case select_all_data_lines run d of (out, d') \<Rightarrow>
    view d' = view d \<and> prefix out (sort_key cl_name ls) \<and>
    (reliable num run view \<longrightarrow> out = sort_key cl_name ls)"
  using sqlite.select_all_data_lines_prefix [OF sqlite.intro [OF assms(1)] assms(2)]
    sqlite.select_all_data_lines_reliable [OF sqlite.intro [OF assms(1)] assms(2)]
  by (auto split: prod.split)

theorem select_all_data_lines_sorted_witness:
  "prefix (fst (select_all_data_lines tape_run (lines_db [gate, exit_line], [Some 1]))) [exit_line, gate]"
proof -
  have l: "lines_in (fst (lines_db [gate, exit_line], [Some 1 :: nat option])) [gate, exit_line]"
    using example_dbs(1) example_lines_ok by simp
  have s: "sort_key cl_name [gate, exit_line] = [exit_line, gate]"
    by (simp add: gate_def exit_line_def less_eq_char_def less_char_def)
  obtain out d' where o: "select_all_data_lines tape_run (lines_db [gate, exit_line], [Some 1]) = (out, d')"
    by (cases "select_all_data_lines tape_run (lines_db [gate, exit_line], [Some 1])")
  from select_all_data_lines_sorted [OF conforms_tape [of "\<lambda>_. False"] l] show ?thesis
    unfolding o s by simp
qed

text \<open>
  Claim C14: once \<open>invalidate_recovery_code\<close> has returned true for a code, the code is not
  accepted again by \<open>verify_recovery_code\<close>, unless the user has another stored hash that the
  same input matches.
\<close>

theorem recovery_code_single_use:
  assumes "conforms num run view" "codes_in (view d) cs"
    and "\<And>h h'. h \<in> set (unused user_id cs) \<Longrightarrow> h' \<in> set (unused user_id cs) \<Longrightarrow>
      pwverify h input \<Longrightarrow> pwverify h' input \<Longrightarrow> h = h'"
    and "invalidate_recovery_code pwverify run user_id input d = (True, d')"
  shows "\<not> fst (verify_recovery_code pwverify run user_id input d')"
proof -
  note S = sqlite.intro [OF assms(1)]
  obtain h where h: "h \<in> set (unused user_id cs)" "pwverify h input" "codes_in (view d') (mark_used user_id h cs)"
    using sqlite.invalidate_recovery_code_True [OF S assms(2, 4)] by blast
  obtain ok d2 where v: "verify_recovery_code pwverify run user_id input d' = (ok, d2)"
    by (cases "verify_recovery_code pwverify run user_id input d'")
  from sqlite.verify_recovery_code_result [OF S h(3) v] h(1, 2) assms(3)
  show ?thesis by (auto simp: v unused_mark_used)
qed

theorem recovery_code_single_use_witness:
  "let cs = [\<lparr>rc_id = ''u'', rc_code = ''h1'', rc_used = 0\<rparr>, \<lparr>rc_id = ''u'', rc_code = ''h2'', rc_used = 0\<rparr>];
       check = (\<lambda>h p. h = CHR ''h'' # p)
   in \<exists>d'. invalidate_recovery_code check tape_run ''u'' ''1'' (codes_db cs, []) = (True, d') \<and>
        \<not> fst (verify_recovery_code check tape_run ''u'' ''1'' d')"
proof -
  let ?cs = "[\<lparr>rc_id = ''u'', rc_code = ''h1'', rc_used = 0\<rparr>, \<lparr>rc_id = ''u'', rc_code = ''h2'', rc_used = 0\<rparr>]"
  let ?check = "\<lambda>h p. h = CHR ''h'' # p"
  have c: "codes_in (fst (codes_db ?cs, [] :: nat option list)) ?cs" by (simp add: example_dbs(2))
  obtain d' where i: "invalidate_recovery_code ?check tape_run ''u'' ''1'' (codes_db ?cs, []) = (True, d')"
    using unused_exec [OF example_dbs(2), of ?cs "''u''"] mark_used_exec [OF example_dbs(2), of ?cs "''u''" "''h1''"]
    by (auto simp: invalidate_recovery_code_def get_hashed_recovery_codes_def try_query_def try_changes_def tape_run_def
        getColumn_def pick_def rc_row_def verify_password_def)
  have "\<not> fst (verify_recovery_code ?check tape_run ''u'' ''1'' d')"
    by (rule recovery_code_single_use [OF conforms_tape [of "\<lambda>_. False"] c _ i]) simp
  with i show ?thesis unfolding Let_def by blast
qed



text \<open>
  Claim C36: after a successful \<open>insert_data_accounts\<close>, \<open>get_account_by_id\<close> returns the new
  account for its id and the accounts stored before for theirs; a failing engine can only
  make it return a null pointer.
\<close>

theorem account_roundtrip:
  assumes "conforms num run view" "accounts_in (view d) as"
    and "insert_data_accounts run a d = (True, d')" "get_account_by_id run user_id d' = (r, d'')"
  shows "view d'' = view d' \<and>
    (r = (if acc_id a = user_id then Some a else find (\<lambda>a. acc_id a = user_id) as) \<or>
     r = None \<and> \<not> reliable num run view)"
proof -
  note S = sqlite.intro [OF assms(1)]
  from sqlite.insert_data_accounts_result [OF S assms(2, 3)]
  have n: "acc_id a \<notin> set (map acc_id as)" "accounts_in (view d') (as @ [a])" by simp_all
  have "find (\<lambda>a. acc_id a = user_id) (as @ [a]) =
      (if acc_id a = user_id then Some a else find (\<lambda>a. acc_id a = user_id) as)"
    using n(1) by (induction as) auto
  then show ?thesis
    using sqlite.get_account_by_id_result [OF S n(2) assms(4)] sqlite.get_account_by_id_reliable [OF S n(2) assms(4)]
    by auto
qed

theorem account_roundtrip_witness:
  "let a = \<lparr>acc_id = ''kim'', acc_passwd = ''h'', acc_otp_secret = ''S'', acc_use_otp = True\<rparr>
   in \<exists>d'. insert_data_accounts sure_run a (accounts_db []) = (True, d') \<and>
        fst (get_account_by_id sure_run ''kim'' d') = Some a"
proof -
  let ?a = "\<lparr>acc_id = ''kim'', acc_passwd = ''h'', acc_otp_secret = ''S'', acc_use_otp = True\<rparr>"
  have a: "accounts_in (accounts_db []) []" by (simp add: example_dbs)
  obtain db' where i: "insert_data_accounts sure_run ?a (accounts_db []) = (True, db')"
    using insert_accounts_succeeds [OF a, of ?a] by auto
  obtain r d'' where g: "get_account_by_id sure_run ''kim'' db' = (r, d'')"
    by (cases "get_account_by_id sure_run ''kim'' db'")
  from account_roundtrip [OF conforms_sure a i g] reliable_sure have "r = Some ?a" by simp
  with i g show ?thesis unfolding Let_def by auto
qed


end
