(* ===== verification/Main_Control.thy ===== *)
theory Main_Control
  imports Floats Calendar Config_Manager Db_Contents "HOL-Library.AList"
begin

text \<open>
  src/metadata/main_control.cpp: the monitor. It reads the camera's metadata stream from a
  pipe, tracks the vehicles of the last frames, and when a person crosses a rule line while a
  vehicle approaches the centre of the dot matrices in a direction parallel to that line, it
  starts a thread that lights the matrix across from the vehicle and saves a picture.

  Every floating-point operation is rounded to its type, without contraction. The vehicles are
  visited in the order of an association list (the order of an \<open>unordered_map\<close> is not
  specified). An uninitialised variable that is read is undefined behaviour.
\<close>

section \<open>State\<close>

record Point =
  pt_x :: flt
  pt_y :: flt

record Line =
  ln_start :: Point
  ln_end :: Point
  ln_mode :: string
  ln_name :: string

definition board_info :: "(int \<times> string) list" where
  "board_info = [(1, ''/dev/ttyAMA0''), (2, ''/dev/ttyAMA2''), (3, ''/dev/ttyAMA1''), (4, ''/dev/ttyAMA3'')]"

definition get_uart_port_for_board :: "int \<Rightarrow> string" where
  "get_uart_port_for_board board_id =
     (case find (\<lambda>(b, port). b = board_id) board_info of Some (b, port) \<Rightarrow> port | None \<Rightarrow> '''')"

type_synonym dot_pair = "int \<times> Point \<times> int \<times> Point"
type_synonym histories = "(int \<times> Point list) list"

text \<open>The global state; \<open>started\<close> records the threads \<open>control_board_async\<close> with their arguments.\<close>

record monitor =
  base_line_pairs :: "dot_pair list"
  dot_center :: Point
  rule_lines :: "string \<rightharpoonup> Line"
  vehicle_trajectory_history :: histories
  started :: "(int \<times> string) list"

definition monitor_init :: monitor where
  "monitor_init = \<lparr>base_line_pairs = [], dot_center = \<lparr>pt_x = Fin 0, pt_y = Fin 0\<rparr>,
     rule_lines = (\<lambda>n. None), vehicle_trajectory_history = [], started = []\<rparr>"

section \<open>Boards\<close>

text \<open>
  What a thread does: \<open>opens port\<close> tells whether the device can be opened, \<open>line\<close> what its
  polls deliver. A port that cannot be opened ends the whole process.
\<close>

datatype board_event =
    Unknown_board int
  | Open string
  | Serial string serial_op
  | Close string
  | Report bool
  | Capture string
  | Sleep nat
  | Exit int

definition control_board ::
  "(string \<Rightarrow> bool) \<Rightarrow> (int \<Rightarrow> byte option list) \<Rightarrow> int \<Rightarrow> byte \<Rightarrow> board_event list" where
  "control_board opens line board_id cmd =
     (let port = get_uart_port_for_board board_id
      in if port = [] then [Unknown_board board_id]
         else if \<not> opens port then [Open port, Exit 1]
         else let (ok, ops) =
                    (if cmd = CMD_LCD_ON then send_lcd_on_with_ack board_id 3 500 line
                     else if cmd = CMD_LCD_OFF then send_lcd_off_with_ack board_id 3 500 line
                     else (False, []))
              in [Open port] @ map (Serial port) ops @ [Report ok, Close port])"

definition exited :: "board_event list \<Rightarrow> bool" where
  "exited es = list_ex (\<lambda>e. case e of Exit c \<Rightarrow> True | _ \<Rightarrow> False) es"

definition control_board_async ::
  "(nat \<Rightarrow> string \<Rightarrow> bool) \<Rightarrow> (nat \<Rightarrow> int \<Rightarrow> byte option list) \<Rightarrow> int \<Rightarrow> string \<Rightarrow> board_event list" where
  "control_board_async opens line board_id utc_time_str =
     (let on = control_board (opens 0) (line 0) board_id 0x01
      in if exited on then on
         else on @ [Capture utc_time_str, Sleep 5] @ control_board (opens 1) (line 1) board_id 0x02)"

section \<open>Database\<close>

definition create_detections_table :: "'d engine \<Rightarrow> 'd \<Rightarrow> unit res \<times> 'd" where
  "create_detections_table run d = exec_throw run d (Create ''detections'' detections_cols) []"

definition insert_data :: "'d engine \<Rightarrow> bytes \<Rightarrow> string \<Rightarrow> 'd \<Rightarrow> 'd" where
  "insert_data run image_data stamp d =
     snd (try_exec run d (Insert ''detections'' [(''image'', Par 0), (''timestamp'', Par 1)])
       [bind_blob image_data, SText stamp])"

definition calculate_intersection :: "rounding \<Rightarrow> Point \<Rightarrow> Point \<Rightarrow> Point \<Rightarrow> Point \<Rightarrow> Point option" where
  "calculate_intersection R a1 a2 b1 b2 =
     (let sub = f_sub (r32 R); add = f_add (r32 R); mul = f_mul (r32 R);
          A1 = sub (pt_y a2) (pt_y a1);
          B1 = sub (pt_x a1) (pt_x a2);
          C1 = add (mul A1 (pt_x a1)) (mul B1 (pt_y a1));
          A2 = sub (pt_y b2) (pt_y b1);
          B2 = sub (pt_x b1) (pt_x b2);
          C2 = add (mul A2 (pt_x b1)) (mul B2 (pt_y b1));
          det = sub (mul A1 B2) (mul A2 B1)
      in if f_less (f_abs det) (r64 R (1 / 100000)) then None
         else Some \<lparr>pt_x = f_div (r32 R) (sub (mul B2 C1) (mul B1 C2)) det,
                    pt_y = f_div (r32 R) (sub (mul A1 C2) (mul A2 C1)) det\<rparr>)"

definition scale_of :: "rounding \<Rightarrow> real \<Rightarrow> real \<Rightarrow> flt" where
  "scale_of R scale base = f_div (r32 R) (Fin scale) (Fin base)"

definition scaled_point :: "rounding \<Rightarrow> AppConfig \<Rightarrow> int \<Rightarrow> int \<Rightarrow> Point" where
  "scaled_point R g_config x y =
     \<lparr>pt_x = f_mul (r32 R) (r32 R (of_int x)) (scale_of R (scale_x g_config) (base_x g_config)),
      pt_y = f_mul (r32 R) (r32 R (of_int y)) (scale_of R (scale_y g_config) (base_y g_config))\<rparr>"

definition dot_pair_of :: "rounding \<Rightarrow> AppConfig \<Rightarrow> row \<Rightarrow> dot_pair" where
  "dot_pair_of R g_config r =
     (as_int (getcol r ''matrixNum1''),
      scaled_point R g_config (as_int (getcol r ''x1'')) (as_int (getcol r ''y1'')),
      as_int (getcol r ''matrixNum2''),
      scaled_point R g_config (as_int (getcol r ''x2'')) (as_int (getcol r ''y2'')))"

definition midpoint :: "rounding \<Rightarrow> dot_pair \<Rightarrow> Point" where
  "midpoint R pair =
     (case pair of (id1, p1, id2, p2) \<Rightarrow>
        \<lparr>pt_x = f_div (r32 R) (f_add (r32 R) (pt_x p1) (pt_x p2)) (Fin 2),
         pt_y = f_div (r32 R) (f_add (r32 R) (pt_y p1) (pt_y p2)) (Fin 2)\<rparr>)"

fun center_of :: "rounding \<Rightarrow> dot_pair list \<Rightarrow> Point \<Rightarrow> Point" where
  "center_of R ((i1, p1, i2, p2) # (j1, q1, j2, q2) # _) c =
     (case calculate_intersection R p1 p2 q1 q2 of
        Some meet \<Rightarrow> meet
      | None \<Rightarrow> midpoint R (i1, p1, i2, p2))"
| "center_of R [pair] c = midpoint R pair"
| "center_of R [] c = c"

definition load_dots_and_center ::
  "rounding \<Rightarrow> AppConfig \<Rightarrow> 'd engine \<Rightarrow> monitor \<Rightarrow> 'd \<Rightarrow> monitor \<times> 'd" where
  "load_dots_and_center R g_config run s d =
     (case run d (Select (Some [''matrixNum1'', ''x1'', ''y1'', ''matrixNum2'', ''x2'', ''y2'']) ''baseLines'' [] None) [] of
        (Ok (Rows rs), d) \<Rightarrow>
          (let pairs = map (dot_pair_of R g_config) rs
           in (s\<lparr>base_line_pairs := pairs, dot_center := center_of R pairs (dot_center s)\<rparr>, d))
      | (Ok (Changes n), d) \<Rightarrow> (s\<lparr>base_line_pairs := []\<rparr>, d)
      | (Fail rs, d) \<Rightarrow> (s\<lparr>base_line_pairs := map (dot_pair_of R g_config) rs\<rparr>, d))"

definition line_of :: "rounding \<Rightarrow> AppConfig \<Rightarrow> row \<Rightarrow> Line" where
  "line_of R g_config r =
     \<lparr>ln_start = scaled_point R g_config (as_int (getcol r ''x1'')) (as_int (getcol r ''y1'')),
      ln_end = scaled_point R g_config (as_int (getcol r ''x2'')) (as_int (getcol r ''y2'')),
      ln_mode = as_text (getcol r ''mode''), ln_name = as_text (getcol r ''name'')\<rparr>"

text \<open>LIMIT 8 ends the query after eight rows.\<close>

definition load_rule_lines ::
  "rounding \<Rightarrow> AppConfig \<Rightarrow> 'd engine \<Rightarrow> monitor \<Rightarrow> 'd \<Rightarrow> monitor \<times> 'd" where
  "load_rule_lines R g_config run s d =
     (let (rs, d) = try_query run d (Select (Some [''x1'', ''y1'', ''x2'', ''y2'', ''name'', ''mode'']) ''lines'' [] None) [];
          ls = map (line_of R g_config) (take 8 rs)
      in (s\<lparr>rule_lines := foldl (\<lambda>m l. m(ln_name l \<mapsto> l)) (rule_lines s) ls\<rparr>, d))"

section \<open>Pictures\<close>

definition kst_timestamp :: "string \<Rightarrow> string option" where
  "kst_timestamp utc_time_str =
     (case get_time ''%Y-%m-%dT%H:%M:%S'' utc_time_str of
        None \<Rightarrow> None
      | Some tm \<Rightarrow>
          (let time_utc = timegm tm
           in if time_utc = -1 then None
              else let time_kst = time_utc + 9 * 3600;
                       kst_tm = gmtime time_kst
                   in Some (strftime ''%Y-%m-%dT%H:%M:%SKST'' kst_tm)))"

text \<open>\<open>pipe\<close> holds what the successive calls of \<open>fread\<close> deliver; None when \<open>popen\<close> fails.\<close>

definition read_pipe :: "bytes list \<Rightarrow> bytes" where
  "read_pipe reads = concat (takeWhile (\<lambda>r. r \<noteq> []) reads)"

definition capture_cmd :: "AppConfig \<Rightarrow> string" where
  "capture_cmd g_config =
     ''ffmpeg -i '' @ get_rtsp_url g_config @ '' -vframes 1 -c:v mjpeg -f image2pipe - 2>/dev/null''"

definition capture_screen_and_save ::
  "AppConfig \<Rightarrow> (string \<Rightarrow> bytes list option) \<Rightarrow> 'd engine \<Rightarrow> string \<Rightarrow> 'd \<Rightarrow> 'd" where
  "capture_screen_and_save g_config popen run utc_time_str d =
     (if utc_time_str = [] then d
      else case kst_timestamp utc_time_str of
             None \<Rightarrow> d
           | Some kst_timestamp_str \<Rightarrow>
               (case popen (capture_cmd g_config) of
                  None \<Rightarrow> d
                | Some reads \<Rightarrow>
                    (let image_data = read_pipe reads
                     in if image_data \<noteq> [] then insert_data run image_data kst_timestamp_str d
                        else d)))"

section \<open>Parsing a block\<close>

definition contains_frame_block :: "string \<Rightarrow> bool" where
  "contains_frame_block block =
     (find_sub ''<tt:VideoAnalytics>'' block \<noteq> None \<and> find_sub ''<tt:Frame'' block \<noteq> None)"

text \<open>The character classes \<open>[^c]\<close> and \<open>[\d.]\<close>.\<close>

definition none_of :: "char \<Rightarrow> re" where
  "none_of c = Cls (\<lambda>x. x \<noteq> c)"
definition digit_or_point :: re where
  "digit_or_point = Cls (\<lambda>x. is_digit x \<or> x = CHR ''.'')"

definition topic_regex :: re where
  "topic_regex = seqs [lit ''<wsnt:Topic'', Star True (none_of CHR ''>''), lit ''>'',
     Grp 1 (Star True (none_of CHR ''<'')), lit ''</wsnt:Topic>'']"
definition id_regex :: re where
  "id_regex = seqs [lit ''<tt:SimpleItem Name=\"ObjectId\" Value=\"'', Grp 1 (plus (Cls is_digit)), lit ''\"/>'']"
definition rule_regex :: re where
  "rule_regex = seqs [lit ''<tt:SimpleItem Name=\"RuleName\" Value=\"'', Grp 1 (plus (none_of CHR 0x22)), lit ''\"/>'']"
definition state_regex :: re where
  "state_regex = lit ''<tt:SimpleItem Name=\"State\" Value=\"true\"''"

text \<open>\<open>group1\<close>: the text of group 1 of the first match.\<close>

definition group1 :: "re \<Rightarrow> string \<Rightarrow> string option" where
  "group1 r s = (case regex_search r s of Some (_, _, _, c) \<Rightarrow> Some (cap c 1) | None \<Rightarrow> None)"

definition is_linecrossing_event :: "string \<Rightarrow> (string \<times> string) option" where
  "is_linecrossing_event event_block =
     (case group1 topic_regex event_block of
        None \<Rightarrow> None
      | Some topic \<Rightarrow>
          if find_sub ''LineCrossing'' topic = None then None
          else (case (group1 id_regex event_block, group1 rule_regex event_block, regex_search state_regex event_block) of
                  (Some oid, Some rule_name, Some _) \<Rightarrow> Some (oid, rule_name)
                | _ \<Rightarrow> None))"

definition human_regex :: "string \<Rightarrow> re" where
  "human_regex oid = seqs [lit (''<tt:Object ObjectId=\"'' @ oid @ ''\"''),
     Star False (Cls any_char), lit ''<tt:Type'', Star True (none_of CHR ''>''), lit ''>'',
     Grp 1 (Star True (none_of CHR ''<'')), lit ''</tt:Type>'']"

definition is_human :: "string \<Rightarrow> string \<Rightarrow> bool" where
  "is_human block oid =
     (case group1 (human_regex oid) block of Some kind \<Rightarrow> kind = ''Human'' | None \<Rightarrow> False)"

section \<open>Tracking\<close>

definition object_block_regex :: re where
  "object_block_regex = seqs [lit ''<tt:Object ObjectId=\"'', Grp 1 (plus (Cls is_digit)), lit ''\">'',
     Grp 2 (Star False (Cls any_char)), lit ''</tt:Object>'']"
definition type_regex :: re where
  "type_regex = seqs [lit ''<tt:Type'', Star True (none_of CHR ''>''), lit ''>'',
     Grp 1 (Star True (none_of CHR ''<'')), lit ''</tt:Type>'']"
definition cog_regex :: re where
  "cog_regex = seqs [lit ''<tt:CenterOfGravity'', Star True (none_of CHR ''>''), lit ''x=\"'',
     Grp 1 (plus digit_or_point), lit ''\" y=\"'', Grp 2 (plus digit_or_point), lit ''\"'']"

text \<open>
  The size is compared with the \<open>int\<close> \<open>history_size\<close> as an unsigned number: no history exceeds
  a negative one.
\<close>

definition push_history :: "int \<Rightarrow> int \<Rightarrow> Point \<Rightarrow> histories \<Rightarrow> histories" where
  "push_history n vid cog hs =
     (let h = (case map_of hs vid of Some h \<Rightarrow> h | None \<Rightarrow> []) @ [cog];
          h = (if 0 \<le> n \<and> n < int (length h) then tl h else h)
      in AList.update vid h hs)"

definition track_object ::
  "rounding \<Rightarrow> AppConfig \<Rightarrow> caps \<Rightarrow> int list \<times> histories \<Rightarrow> (int list \<times> histories) res" where
  "track_object R g_config m acc =
     (case acc of (seen_vehicles, hs) \<Rightarrow>
        bind_res (stoi (cap m 1)) (\<lambda>vid.
          let object_content = cap m 2
          in case group1 type_regex object_content of
               None \<Rightarrow> Inr (seen_vehicles, hs)
             | Some kind \<Rightarrow>
                 if kind \<noteq> ''Vehicle'' \<and> kind \<noteq> ''Vehical'' then Inr (seen_vehicles, hs)
                 else (case regex_search cog_regex object_content of
                         None \<Rightarrow> Inr (seen_vehicles, hs)
                       | Some (_, _, _, c) \<Rightarrow>
                           bind_res (stof (\<lambda>x. x) (cap c 1)) (\<lambda>x.
                           bind_res (stof (\<lambda>x. x) (cap c 2)) (\<lambda>y.
                             Inr (vid # seen_vehicles,
                                  push_history (history_size g_config) vid \<lparr>pt_x = r32 R x, pt_y = r32 R y\<rparr> hs))))))"

definition in_frame :: "int \<Rightarrow> string \<Rightarrow> bool" where
  "in_frame vid cached_frame = (find_sub (''<tt:Object ObjectId=\"'' @ to_string vid @ ''\"'') cached_frame \<noteq> None)"

definition update_vehicle_positions ::
  "rounding \<Rightarrow> AppConfig \<Rightarrow> string \<Rightarrow> string list \<Rightarrow> monitor \<Rightarrow> monitor res" where
  "update_vehicle_positions R g_config frame_block frame_cache s =
     bind_res (fold_res (track_object R g_config) (regex_all object_block_regex frame_block)
         ([], vehicle_trajectory_history s)) (\<lambda>(seen_vehicles, hs).
       Inr (s\<lparr>vehicle_trajectory_history :=
         filter (\<lambda>(vid, h). vid \<in> set seen_vehicles \<or> list_ex (in_frame vid) frame_cache) hs\<rparr>))"

section \<open>Risk\<close>

definition compute_cosine_similarity :: "rounding \<Rightarrow> Point \<Rightarrow> Point \<Rightarrow> flt" where
  "compute_cosine_similarity R a b =
     (let add = f_add (r32 R); mul = f_mul (r32 R);
          dot = add (mul (pt_x a) (pt_x b)) (mul (pt_y a) (pt_y b));
          mag_a = f_sqrt (r32 R) (add (mul (pt_x a) (pt_x a)) (mul (pt_y a) (pt_y a)));
          mag_b = f_sqrt (r32 R) (add (mul (pt_x b) (pt_x b)) (mul (pt_y b) (pt_y b)))
      in if f_eq0 mag_a \<or> f_eq0 mag_b then Fin (- 2)
         else f_div (r32 R) dot (mul mag_a mag_b))"

text \<open>\<open>pow\<close> and the sum are computed in double; the float values convert without change.\<close>

definition dist_sq :: "rounding \<Rightarrow> Point \<Rightarrow> Point \<Rightarrow> flt" where
  "dist_sq R p q =
     (let dx = f_sub (r32 R) (pt_x p) (pt_x q); dy = f_sub (r32 R) (pt_y p) (pt_y q)
      in f_conv (r32 R) (f_add (r64 R) (f_mul (r64 R) dx dx) (f_mul (r64 R) dy dy)))"

definition FLT_MAX :: flt where
  "FLT_MAX = Fin (2 ^ 128 - 2 ^ 104)"

text \<open>A dot with its id and the id of the dot at the other end of its line.\<close>

type_synonym dot = "Point \<times> int \<times> int"

definition consider_dot :: "rounding \<Rightarrow> Point \<Rightarrow> flt \<times> dot option \<Rightarrow> dot \<Rightarrow> flt \<times> dot option" where
  "consider_dot R oldest_pos acc dot =
     (case acc of (min_dist_sq, closest) \<Rightarrow>
        let d = dist_sq R oldest_pos (fst dot)
        in if f_less d min_dist_sq then (d, Some dot) else (min_dist_sq, closest))"

definition closest_dot :: "rounding \<Rightarrow> Point \<Rightarrow> dot_pair list \<Rightarrow> dot option" where
  "closest_dot R oldest_pos pairs =
     snd (foldl (\<lambda>acc (id1, p1, id2, p2).
            consider_dot R oldest_pos (consider_dot R oldest_pos acc (p1, id1, id2)) (p2, id2, id1))
          (FLT_MAX, None) pairs)"

definition center_distance :: "rounding \<Rightarrow> Point \<Rightarrow> Point \<Rightarrow> flt" where
  "center_distance R p c =
     f_hypot (r32 R) (f_sub (r32 R) (pt_x p) (pt_x c)) (f_sub (r32 R) (pt_y p) (pt_y c))"

definition vector :: "rounding \<Rightarrow> Point \<Rightarrow> Point \<Rightarrow> Point" where
  "vector R a b = \<lparr>pt_x = f_sub (r32 R) (pt_x b) (pt_x a), pt_y = f_sub (r32 R) (pt_y b) (pt_y a)\<rparr>"

text \<open>The body of the loop over the vehicles: the board to light, if any.\<close>

definition vehicle_risk :: "rounding \<Rightarrow> AppConfig \<Rightarrow> monitor \<Rightarrow> Point \<Rightarrow> Point list \<Rightarrow> int option res" where
  "vehicle_risk R g_config s line_vector history =
     (if length history < 2 then Inr None
      else
        let oldest_pos = hd history; newest_pos = last history
        in case closest_dot R oldest_pos (base_line_pairs s) of
             None \<Rightarrow> Inl (UB ''closest_dot'')
           | Some (dot, matched_id, board_id) \<Rightarrow>
               let dist_old = center_distance R oldest_pos (dot_center s);
                   dist_new = center_distance R newest_pos (dot_center s)
               in if f_less (f_sub (r32 R) dist_old (Fin (dist_threshold g_config))) dist_new then Inr None
                  else
                    let vehicle_vector = vector R dot (dot_center s);
                        similarity = compute_cosine_similarity R vehicle_vector line_vector
                    in if f_ge (f_abs similarity) (Fin (parallelism_threshold g_config)) then Inr (Some board_id)
                       else Inr None)"

definition alert_step :: "rounding \<Rightarrow> AppConfig \<Rightarrow> Point \<Rightarrow> string \<Rightarrow> int \<times> Point list \<Rightarrow> monitor \<Rightarrow> monitor res" where
  "alert_step R g_config line_vector utc_time_str = (\<lambda>(vehicle_id, history) s.
     bind_res (vehicle_risk R g_config s line_vector history) (\<lambda>board.
       case board of None \<Rightarrow> Inr s | Some board_id \<Rightarrow> Inr (s\<lparr>started := started s @ [(board_id, utc_time_str)]\<rparr>)))"

definition analyze_risk_and_alert ::
  "rounding \<Rightarrow> AppConfig \<Rightarrow> string \<Rightarrow> string \<Rightarrow> monitor \<Rightarrow> monitor res" where
  "analyze_risk_and_alert R g_config rule_name utc_time_str s =
     (case rule_lines s rule_name of
        None \<Rightarrow> Inr s
      | Some crossed_line \<Rightarrow>
          let line_vector = vector R (ln_start crossed_line) (ln_end crossed_line)
          in if vehicle_trajectory_history s = [] then Inr s
             else fold_res (alert_step R g_config line_vector utc_time_str) (vehicle_trajectory_history s) s)"

section \<open>The loop\<close>

definition utc_regex :: re where
  "utc_regex = seqs [lit ''<tt:Frame'', Star True (none_of CHR ''>''), lit ''UtcTime=\"'',
     Grp 1 (plus (none_of CHR 0x22)), lit ''\"'', Star True (none_of CHR ''>''), lit ''>'']"

definition process_frame ::
  "rounding \<Rightarrow> AppConfig \<Rightarrow> string \<Rightarrow> string list \<times> monitor \<Rightarrow> (string list \<times> monitor) res" where
  "process_frame R g_config block cs =
     (case cs of (frame_cache, s) \<Rightarrow>
        if contains_frame_block block then
          let frame_cache = frame_cache @ [block];
              frame_cache = (if frame_cache_size g_config < length frame_cache then tl frame_cache else frame_cache)
          in bind_res (update_vehicle_positions R g_config block frame_cache s) (\<lambda>s. Inr (frame_cache, s))
        else Inr (frame_cache, s))"

definition process_event ::
  "rounding \<Rightarrow> AppConfig \<Rightarrow> string \<Rightarrow> string list \<times> monitor \<Rightarrow> (string list \<times> monitor) res" where
  "process_event R g_config block cs =
     (case cs of (frame_cache, s) \<Rightarrow>
        case is_linecrossing_event block of
          None \<Rightarrow> Inr (frame_cache, s)
        | Some (oid, rule_name) \<Rightarrow>
            (case find (\<lambda>frame. is_human frame oid) (rev frame_cache) of
               None \<Rightarrow> Inr (frame_cache, s)
             | Some frame \<Rightarrow>
                 let utc_time_str = (case group1 utc_regex frame of Some utc \<Rightarrow> utc | None \<Rightarrow> [])
                 in bind_res (stoi oid) (\<lambda>human_id.
                    bind_res (analyze_risk_and_alert R g_config rule_name utc_time_str s) (\<lambda>s.
                      Inr (frame_cache, s)))))"

definition process_block ::
  "rounding \<Rightarrow> AppConfig \<Rightarrow> string \<Rightarrow> string list \<times> monitor \<Rightarrow> (string list \<times> monitor) res" where
  "process_block R g_config block cs =
     bind_res (process_frame R g_config block cs) (process_event R g_config block)"

definition reload ::
  "rounding \<Rightarrow> AppConfig \<Rightarrow> 'd engine \<Rightarrow> monitor \<Rightarrow> 'd \<Rightarrow> monitor \<times> 'd" where
  "reload R g_config run s d =
     (case load_dots_and_center R g_config run s d of (s, d) \<Rightarrow> load_rule_lines R g_config run s d)"

text \<open>
  \<open>fgets\<close> with a buffer of 8192 bytes: a line with its newline, or 8191 bytes of it. The
  buffer is appended as a C string.
\<close>

function fgets_lines :: "string \<Rightarrow> string list" where
  "fgets_lines out =
     (if out = [] then []
      else let k = min 8191 (length (takeWhile (\<lambda>c. c \<noteq> CHR 0x0A) out) + 1)
           in take k out # fgets_lines (drop k out))"
  by pat_completeness auto
termination by (relation "measure length") auto

declare fgets_lines.simps [simp del]

text \<open>
  The loop over the buffers, each with the reading of the clock in nanoseconds. An exception
  leaves the loop; the state is then the one before the block.
\<close>

fun metadata_loop ::
  "rounding \<Rightarrow> AppConfig \<Rightarrow> 'd engine \<Rightarrow> (string \<times> int) list \<Rightarrow> string \<Rightarrow> int \<Rightarrow> string list \<times> monitor \<Rightarrow> 'd \<Rightarrow>
     unit res \<times> (string list \<times> monitor) \<times> 'd" where
  "metadata_loop R g_config run [] xml_buffer last_reload cs d = (Inr (), cs, d)"
| "metadata_loop R g_config run ((buffer, now) # rest) xml_buffer last_reload cs d =
     (let xml_buffer = xml_buffer @ c_str buffer;
          (last_reload, cs, d) =
            (if now - last_reload > 30 * 10 ^ 9
             then (case reload R g_config run (snd cs) d of (s, d) \<Rightarrow> (now, (fst cs, s), d))
             else (last_reload, cs, d))
      in if find_sub stream_end xml_buffer \<noteq> None
         then (case process_block R g_config xml_buffer cs of
                 Inl e \<Rightarrow> (Inl e, cs, d)
               | Inr cs \<Rightarrow> metadata_loop R g_config run rest [] last_reload cs d)
         else metadata_loop R g_config run rest xml_buffer last_reload cs d)"

definition metadata_cmd :: "AppConfig \<Rightarrow> string" where
  "metadata_cmd g_config = ''ffmpeg -i '' @ get_rtsp_url g_config @ '' -map 0:1 -f data - 2>/dev/null''"

definition metadata_thread ::
  "rounding \<Rightarrow> AppConfig \<Rightarrow> 'd engine \<Rightarrow> (string \<Rightarrow> string option) \<Rightarrow> (nat \<Rightarrow> int) \<Rightarrow> monitor \<Rightarrow> 'd \<Rightarrow>
     unit res \<times> (string list \<times> monitor) \<times> 'd" where
  "metadata_thread R g_config run popen clock s d =
     (case popen (metadata_cmd g_config) of
        None \<Rightarrow> (Inr (), ([], s), d)
      | Some out \<Rightarrow>
          (let buffers = fgets_lines out
           in metadata_loop R g_config run (zip buffers (map clock [1..<Suc (length buffers)])) [] (clock 0) ([], s) d))"

text \<open>
  \<open>main\<close>: the exit code, or the exception that ends the process; \<open>load\<close> is the outcome of
  \<open>load_all_config\<close>, which stands outside the \<open>try\<close>, and \<open>open_db\<close> the opened database.
\<close>

definition monitor_main ::
  "rounding \<Rightarrow> bool res \<times> AppConfig \<Rightarrow> (string \<Rightarrow> 'd option) \<Rightarrow> 'd engine \<Rightarrow> (string \<Rightarrow> string option) \<Rightarrow> (nat \<Rightarrow> int) \<Rightarrow>
     int res \<times> monitor" where
  "monitor_main R load open_db run popen clock =
     (case load of
        (Inl e, g_config) \<Rightarrow> (Inl e, monitor_init)
      | (Inr ok, g_config) \<Rightarrow>
          if \<not> ok then (Inr 1, monitor_init)
          else (case open_db (db_file g_config) of
                  None \<Rightarrow> (Inr 1, monitor_init)
                | Some d \<Rightarrow>
                    (case create_detections_table run d of
                       (Inl e, d) \<Rightarrow> (Inr 1, monitor_init)
                     | (Inr _, d) \<Rightarrow>
                         (case reload R g_config run monitor_init d of (s, d) \<Rightarrow>
                            (case metadata_thread R g_config run popen clock s d of
                               (Inr _, (_, s), d) \<Rightarrow> (Inr 0, s)
                             | (Inl (UB w), (_, s), d) \<Rightarrow> (Inl (UB w), s)
                             | (Inl e, (_, s), d) \<Rightarrow> (Inr 1, s))))))"

section \<open>The type of an object\<close>

text \<open>
  The pattern for the type of an object does not stop at the end of that object: an object
  without a type takes the type of a later one.
\<close>

lemma is_human_next_object:
  "is_human ''<tt:Object ObjectId=\"7\"/><tt:Object ObjectId=\"8\"><tt:Type>Human</tt:Type>'' ''7''"
  by code_simp

section \<open>The nearest dot\<close>

text \<open>Both ends of every base line, each with the board at the other end.\<close>

definition dots :: "dot_pair list \<Rightarrow> dot list" where
  "dots pairs = concat (map (\<lambda>(id1, p1, id2, p2). [(p1, id1, id2), (p2, id2, id1)]) pairs)"

lemma closest_dot_dots:
  "closest_dot R oldest pairs = snd (foldl (consider_dot R oldest) (FLT_MAX, None) (dots pairs))"
proof -
  have "foldl (\<lambda>acc (id1, p1, id2, p2).
          consider_dot R oldest (consider_dot R oldest acc (p1, id1, id2)) (p2, id2, id1)) acc pairs
      = foldl (consider_dot R oldest) acc (dots pairs)" for acc
    by (induction pairs arbitrary: acc) (auto simp: dots_def)
  then show ?thesis by (simp add: closest_dot_def)
qed

text \<open>What the scan has found in the dots seen so far.\<close>

definition scan_inv :: "(dot \<Rightarrow> flt) \<Rightarrow> dot list \<Rightarrow> flt \<times> dot option \<Rightarrow> bool" where
  "scan_inv D ds acc =
     (case acc of
        (m, None) \<Rightarrow> m = FLT_MAX \<and> list_all (\<lambda>q. \<not> f_less (D q) FLT_MAX) ds
      | (m, Some p) \<Rightarrow> p \<in> set ds \<and> m = D p \<and> f_less m FLT_MAX \<and> list_all (\<lambda>q. \<not> f_less (D q) m) ds)"

lemma scan_inv_step:
  assumes "scan_inv (\<lambda>q. dist_sq R oldest (fst q)) ds acc"
  shows "scan_inv (\<lambda>q. dist_sq R oldest (fst q)) (ds @ [p]) (consider_dot R oldest acc p)"
proof (cases acc)
  case (Pair m c)
  then show ?thesis
    using assms by (cases c) (auto simp: scan_inv_def consider_dot_def Let_def list_all_iff dest: f_less_trans)
qed

lemma scan_inv_all: "scan_inv (\<lambda>q. dist_sq R oldest (fst q)) ds (foldl (consider_dot R oldest) (FLT_MAX, None) ds)"
proof (induction ds rule: rev_induct)
  case Nil
  show ?case by (simp add: scan_inv_def)
next
  case (snoc p ds)
  then show ?case by (simp add: scan_inv_step)
qed

lemma closest_dot_Some:
  assumes "closest_dot R oldest pairs = Some p"
  shows "p \<in> set (dots pairs)"
    and "q \<in> set (dots pairs) \<Longrightarrow> \<not> f_less (dist_sq R oldest (fst q)) (dist_sq R oldest (fst p))"
  using assms scan_inv_all [of R oldest "dots pairs"]
  by (auto simp: closest_dot_dots scan_inv_def list_all_iff split: prod.splits option.splits)

lemma closest_dot_None:
  "closest_dot R oldest pairs = None \<longleftrightarrow> list_all (\<lambda>q. \<not> f_less (dist_sq R oldest (fst q)) FLT_MAX) (dots pairs)"
  using scan_inv_all [of R oldest "dots pairs"]
  by (auto simp: closest_dot_dots scan_inv_def list_all_iff split: prod.splits option.splits)

section \<open>When an alert is raised\<close>

text \<open>
  The condition of an alert: a vehicle with at least two positions, the dot nearest to the
  oldest one with the board \<open>b\<close> at the other end of its line, the newest position nearer to
  the centre by the threshold, and the way from the dot to the centre parallel to the line.
\<close>

definition nearest :: "rounding \<Rightarrow> Point \<Rightarrow> dot list \<Rightarrow> dot \<Rightarrow> bool" where
  "nearest R p ds q =
     (q \<in> set ds \<and> list_all (\<lambda>q'. \<not> f_less (dist_sq R p (fst q')) (dist_sq R p (fst q))) ds)"

definition endangers :: "rounding \<Rightarrow> AppConfig \<Rightarrow> monitor \<Rightarrow> Line \<Rightarrow> Point list \<Rightarrow> int \<Rightarrow> bool" where
  "endangers R g s l h b \<longleftrightarrow>
     2 \<le> length h \<and>
     (\<exists>p i. nearest R (hd h) (dots (base_line_pairs s)) (p, i, b) \<and>
        \<not> f_less (f_sub (r32 R) (center_distance R (hd h) (dot_center s)) (Fin (dist_threshold g)))
            (center_distance R (last h) (dot_center s)) \<and>
        f_ge (f_abs (compute_cosine_similarity R (vector R p (dot_center s)) (vector R (ln_start l) (ln_end l))))
          (Fin (parallelism_threshold g)))"

lemma vehicle_risk_endangers:
  assumes "vehicle_risk R g s (vector R (ln_start l) (ln_end l)) h = Inr (Some b)"
  shows "endangers R g s l h b"
proof -
  obtain p i where c: "closest_dot R (hd h) (base_line_pairs s) = Some (p, i, b)"
    using assms by (auto simp: vehicle_risk_def Let_def split: if_splits option.splits)
  then have "nearest R (hd h) (dots (base_line_pairs s)) (p, i, b)"
    using closest_dot_Some [OF c] by (auto simp: nearest_def list_all_iff)
  then show ?thesis
    using assms c by (auto simp: endangers_def vehicle_risk_def Let_def split: if_splits)
qed

lemma vehicle_risk_started [simp]: "vehicle_risk R g (s\<lparr>started := x\<rparr>) = vehicle_risk R g s"
  by (auto simp: vehicle_risk_def fun_eq_iff Let_def split: option.split)

lemma vehicle_risk_Inl: "vehicle_risk R g s v h = Inl e \<Longrightarrow> e = UB ''closest_dot''"
  by (auto simp: vehicle_risk_def Let_def split: if_splits option.splits)

text \<open>The boards lit for a list of vehicles.\<close>

fun boards_lit :: "(Point list \<Rightarrow> int option res) \<Rightarrow> histories \<Rightarrow> int list" where
  "boards_lit risk [] = []"
| "boards_lit risk ((v, h) # hs) =
     (case risk h of Inr (Some b) \<Rightarrow> b # boards_lit risk hs | _ \<Rightarrow> boards_lit risk hs)"

lemma boards_lit_set: "b \<in> set (boards_lit risk hs) \<Longrightarrow> \<exists>v h. (v, h) \<in> set hs \<and> risk h = Inr (Some b)"
  by (induction risk hs rule: boards_lit.induct) (auto split: sum.splits option.splits)

lemma alert_fold:
  "fold_res (alert_step R g v utc) hs s = Inr s' \<Longrightarrow>
     s' = s\<lparr>started := started s @ map (\<lambda>b. (b, utc)) (boards_lit (vehicle_risk R g s v) hs)\<rparr>"
proof (induction hs arbitrary: s)
  case (Cons x hs)
  obtain vid h where x: "x = (vid, h)" by fastforce
  then obtain board where r: "vehicle_risk R g s v h = Inr board"
    using Cons.prems by (cases "vehicle_risk R g s v h") (auto simp: alert_step_def)
  show ?case
    using Cons.prems Cons.IH [of s] Cons.IH [of "s\<lparr>started := started s @ [(the board, utc)]\<rparr>"] r x
    by (cases board) (auto simp: alert_step_def)
qed simp

lemma alert_fold_Inl: "fold_res (alert_step R g v utc) hs s = Inl e \<Longrightarrow> e = UB ''closest_dot''"
proof (induction hs arbitrary: s)
  case (Cons x hs)
  then show ?case
    by (cases x; cases "vehicle_risk R g s v (snd x)")
      (auto simp: alert_step_def vehicle_risk_Inl split: option.splits)
qed simp

lemma analyze_alerts:
  assumes "analyze_risk_and_alert R g rule utc s = Inr s'"
  shows "s' = s \<or>
    (\<exists>l new. rule_lines s rule = Some l \<and> s' = s\<lparr>started := started s @ map (\<lambda>b. (b, utc)) new\<rparr> \<and>
       list_all (\<lambda>b. \<exists>v h. (v, h) \<in> set (vehicle_trajectory_history s) \<and> endangers R g s l h b) new)"
proof (cases "rule_lines s rule")
  case (Some l)
  define v where "v = vector R (ln_start l) (ln_end l)"
  have "s' = s \<or> fold_res (alert_step R g v utc) (vehicle_trajectory_history s) s = Inr s'"
    using assms Some by (auto simp: analyze_risk_and_alert_def v_def Let_def split: if_splits)
  moreover have "list_all (\<lambda>b. \<exists>v h. (v, h) \<in> set (vehicle_trajectory_history s) \<and> endangers R g s l h b)
      (boards_lit (vehicle_risk R g s v) (vehicle_trajectory_history s))"
    unfolding list_all_iff v_def using boards_lit_set vehicle_risk_endangers by blast
  ultimately show ?thesis using Some alert_fold [of R g v utc _ s s'] by blast
qed (use assms in \<open>simp add: analyze_risk_and_alert_def\<close>)

lemma update_started [simp]:
  "update_vehicle_positions R g block cache s = Inr s' \<Longrightarrow>
     started s' = started s \<and> rule_lines s' = rule_lines s \<and>
     base_line_pairs s' = base_line_pairs s \<and> dot_center s' = dot_center s"
  by (auto simp: update_vehicle_positions_def bind_res_Inr_iff)

text \<open>The time of the newest cached frame that shows the object as a person.\<close>

definition seen_as_human :: "string list \<Rightarrow> string \<Rightarrow> string \<Rightarrow> bool" where
  "seen_as_human cache oid utc =
     list_ex (\<lambda>frame. is_human frame oid \<and>
       utc = (case group1 utc_regex frame of Some utc \<Rightarrow> utc | None \<Rightarrow> [])) cache"

lemma process_event_alerts:
  assumes "process_event R g block (cache, s) = Inr (cache', s')"
  shows "cache' = cache \<and>
    (s' = s \<or>
     (\<exists>oid rule utc l new. is_linecrossing_event block = Some (oid, rule) \<and> seen_as_human cache oid utc \<and>
        rule_lines s rule = Some l \<and> s' = s\<lparr>started := started s @ map (\<lambda>b. (b, utc)) new\<rparr> \<and>
        list_all (\<lambda>b. \<exists>v h. (v, h) \<in> set (vehicle_trajectory_history s) \<and> endangers R g s l h b) new))"
proof (cases "is_linecrossing_event block")
  case (Some ev)
  then obtain oid rule where ev: "is_linecrossing_event block = Some (oid, rule)" by (cases ev) auto
  show ?thesis
  proof (cases "find (\<lambda>frame. is_human frame oid) (rev cache)")
    case (Some frame)
    define utc where "utc = (case group1 utc_regex frame of Some utc \<Rightarrow> utc | None \<Rightarrow> [])"
    have "seen_as_human cache oid utc"
      using Some by (auto simp: seen_as_human_def list_ex_iff utc_def find_Some_iff) (metis nth_mem set_rev length_rev)
    moreover have "analyze_risk_and_alert R g rule utc s = Inr s'" "cache' = cache"
      using assms ev Some by (auto simp: process_event_def utc_def Let_def bind_res_Inr_iff)
    ultimately show ?thesis using analyze_alerts [of R g rule utc s s'] ev by blast
  qed (use assms ev in \<open>auto simp: process_event_def\<close>)
qed (use assms in \<open>auto simp: process_event_def\<close>)

lemma endangers_cong:
  "base_line_pairs s' = base_line_pairs s \<Longrightarrow> dot_center s' = dot_center s \<Longrightarrow>
     endangers R g s' l h b = endangers R g s l h b"
  by (simp add: endangers_def)

lemma process_frame_keeps:
  assumes "process_frame R g block (cache, s) = Inr (cache', s')"
  shows "started s' = started s \<and> rule_lines s' = rule_lines s \<and>
    base_line_pairs s' = base_line_pairs s \<and> dot_center s' = dot_center s"
  using assms update_started by (auto simp: process_frame_def Let_def bind_res_Inr_iff split: if_splits)

definition block_alerts ::
  "rounding \<Rightarrow> AppConfig \<Rightarrow> string \<Rightarrow> string list \<Rightarrow> monitor \<Rightarrow> (int \<times> string) list \<Rightarrow> bool" where
  "block_alerts R g block cache s new =
     list_all (\<lambda>(b, utc). \<exists>oid rule l v h.
        is_linecrossing_event block = Some (oid, rule) \<and> seen_as_human cache oid utc \<and>
        rule_lines s rule = Some l \<and> (v, h) \<in> set (vehicle_trajectory_history s) \<and> endangers R g s l h b) new"

lemma process_block_alerts:
  assumes "process_block R g block (cache, s) = Inr (cache', s')"
  shows "rule_lines s' = rule_lines s \<and> base_line_pairs s' = base_line_pairs s \<and> dot_center s' = dot_center s \<and>
    (\<exists>new. started s' = started s @ new \<and> block_alerts R g block cache' s' new)"
proof -
  obtain s1 where f: "process_frame R g block (cache, s) = Inr (cache', s1)"
    and e: "process_event R g block (cache', s1) = Inr (cache', s')"
    using assms process_event_alerts by (fastforce simp: process_block_def bind_res_Inr_iff)
  have keeps: "started s1 = started s \<and> rule_lines s1 = rule_lines s \<and>
      base_line_pairs s1 = base_line_pairs s \<and> dot_center s1 = dot_center s"
    using process_frame_keeps [OF f] .
  consider "s' = s1" | oid rule utc l new where "is_linecrossing_event block = Some (oid, rule)"
      "seen_as_human cache' oid utc" "rule_lines s1 rule = Some l"
      "s' = s1\<lparr>started := started s1 @ map (\<lambda>b. (b, utc)) new\<rparr>"
      "list_all (\<lambda>b. \<exists>v h. (v, h) \<in> set (vehicle_trajectory_history s1) \<and> endangers R g s1 l h b) new"
    using process_event_alerts [OF e] by blast
  then show ?thesis
  proof cases
    case 1
    then show ?thesis using keeps by (simp add: block_alerts_def)
  next
    case 2
    have "endangers R g s' l' h b = endangers R g s1 l' h b" for l' h b
      by (rule endangers_cong) (simp_all add: 2(4))
    then have "block_alerts R g block cache' s' (map (\<lambda>b. (b, utc)) new)"
      using 2 by (auto simp: block_alerts_def list_all_iff)
    then show ?thesis using keeps 2(4) by simp
  qed
qed

text \<open>The exceptions that leave the loop.\<close>

fun block_error :: "exn \<Rightarrow> bool" where
  "block_error (UB w) = (w = ''closest_dot'')"
| "block_error (Out_of_range w) = True"
| "block_error (Invalid_argument w) = True"
| "block_error _ = False"

lemma stoi_error: "stoi t = Inl e \<Longrightarrow> block_error e"
  by (auto simp: stoi_def Let_def split: if_splits)

lemma stof_error: "stof fl t = Inl e \<Longrightarrow> block_error e"
  by (auto simp: stof_def Let_def split: if_splits)

lemma track_object_error: "track_object R g m acc = Inl e \<Longrightarrow> block_error e"
  by (cases acc) (auto simp: track_object_def bind_res_def Let_def
      split: sum.splits option.splits if_splits prod.splits dest: stoi_error stof_error)

lemma fold_res_error: "(\<And>x s e. f x s = Inl e \<Longrightarrow> P e) \<Longrightarrow> fold_res f xs s = Inl e \<Longrightarrow> P e"
  by (induction xs arbitrary: s) (auto simp: bind_res_def split: sum.splits)

lemma update_error: "update_vehicle_positions R g block cache s = Inl e \<Longrightarrow> block_error e"
  by (auto simp: update_vehicle_positions_def bind_res_def split: sum.splits
      intro: fold_res_error [of "track_object R g", rotated] track_object_error)

lemma analyze_error: "analyze_risk_and_alert R g rule utc s = Inl e \<Longrightarrow> block_error e"
  using alert_fold_Inl by (fastforce simp: analyze_risk_and_alert_def Let_def split: option.splits if_splits)

lemma process_block_error: "process_block R g block cs = Inl e \<Longrightarrow> block_error e"
  by (cases cs) (auto simp: process_block_def process_frame_def process_event_def bind_res_def Let_def
      split: sum.splits option.splits if_splits prod.splits dest: stoi_error update_error analyze_error)

section \<open>Runs of the loop\<close>

inductive monitor_step ::
  "rounding \<Rightarrow> AppConfig \<Rightarrow> 'd engine \<Rightarrow> string list \<times> monitor \<Rightarrow> string list \<times> monitor \<Rightarrow> bool"
  for R g run where
  Block: "process_block R g block cs = Inr cs' \<Longrightarrow> monitor_step R g run cs cs'"
| Reload: "reload R g run s d = (s', d') \<Longrightarrow> monitor_step R g run (cache, s) (cache, s')"

lemma metadata_loop_steps:
  "metadata_loop R g run bs xml since cs d = (r, cs', d') \<Longrightarrow> (monitor_step R g run)\<^sup>*\<^sup>* cs cs'"
proof (induction R g run bs xml since cs d arbitrary: r cs' d' rule: metadata_loop.induct)
  case (2 R g run buffer now rest xml since cs d)
  define xml' where "xml' = xml @ c_str buffer"
  obtain l1 cs1 d1 where r1: "(if now - since > 30 * 10 ^ 9
      then (case reload R g run (snd cs) d of (s, d) \<Rightarrow> (now, (fst cs, s), d)) else (since, cs, d)) = (l1, cs1, d1)"
    by (metis prod_cases3)
  have s1: "(monitor_step R g run)\<^sup>*\<^sup>* cs cs1"
    using r1 by (cases cs) (auto split: if_splits prod.splits intro: monitor_step.Reload)
  have eq: "metadata_loop R g run ((buffer, now) # rest) xml since cs d =
      (if find_sub stream_end xml' \<noteq> None
       then (case process_block R g xml' cs1 of Inl e \<Rightarrow> (Inl e, cs1, d1)
             | Inr cs2 \<Rightarrow> metadata_loop R g run rest [] l1 cs2 d1)
       else metadata_loop R g run rest xml' l1 cs1 d1)"
    by (simp only: metadata_loop.simps r1 xml'_def [symmetric] Let_def prod.case)
  show ?case
  proof (cases "find_sub stream_end xml' \<noteq> None")
    case True
    show ?thesis
    proof (cases "process_block R g xml' cs1")
      case (Inl e)
      then show ?thesis using "2.prems" eq True s1 by simp
    next
      case (Inr cs2)
      then have "metadata_loop R g run rest [] l1 cs2 d1 = (r, cs', d')" using "2.prems" eq True by simp
      then have "(monitor_step R g run)\<^sup>*\<^sup>* cs2 cs'"
        using "2.IH"(1) [OF xml'_def r1 [symmetric] refl refl True Inr] by blast
      with Inr s1 show ?thesis
        by (meson monitor_step.Block converse_rtranclp_into_rtranclp rtranclp_trans)
    qed
  next
    case False
    then have "metadata_loop R g run rest xml' l1 cs1 d1 = (r, cs', d')" using "2.prems" eq by simp
    then have "(monitor_step R g run)\<^sup>*\<^sup>* cs1 cs'"
      using "2.IH"(2) [OF xml'_def r1 [symmetric] refl refl False] by blast
    with s1 show ?thesis by (rule rtranclp_trans)
  qed
qed simp

lemma metadata_thread_steps:
  "metadata_thread R g run popen clock s d = (r, cs', d') \<Longrightarrow> (monitor_step R g run)\<^sup>*\<^sup>* ([], s) cs'"
  unfolding metadata_thread_def Let_def
  by (cases "popen (metadata_cmd g)") (auto simp del: upt_Suc intro: metadata_loop_steps)

text \<open>The memory of the tracker is bounded by the settings.\<close>

definition history_ok :: "int \<Rightarrow> Point list \<Rightarrow> bool" where
  "history_ok n h = (0 \<le> n \<longrightarrow> int (length h) \<le> n)"

definition tracker_inv :: "AppConfig \<Rightarrow> string list \<times> monitor \<Rightarrow> bool" where
  "tracker_inv g = (\<lambda>(cache, s).
     length cache \<le> frame_cache_size g \<and>
     distinct (map fst (vehicle_trajectory_history s)) \<and>
     list_all (\<lambda>(v, h). history_ok (history_size g) h) (vehicle_trajectory_history s))"

lemma list_all_update: "list_all P al \<Longrightarrow> P (k, v) \<Longrightarrow> list_all P (AList.update k v al)"
  by (induction al) auto

lemma push_history_ok:
  assumes "distinct (map fst hs)" "list_all (\<lambda>(v, h). history_ok n h) hs"
  shows "distinct (map fst (push_history n v c hs)) \<and> list_all (\<lambda>(v, h). history_ok n h) (push_history n v c hs)"
proof -
  have "history_ok n (case map_of hs v of Some h \<Rightarrow> h | None \<Rightarrow> [])"
    using assms(2) by (auto simp: list_all_iff history_ok_def split: option.splits dest: map_of_SomeD)
  then have "history_ok n (let h = (case map_of hs v of Some h \<Rightarrow> h | None \<Rightarrow> []) @ [c]
      in if 0 \<le> n \<and> n < int (length h) then tl h else h)"
    by (auto simp: history_ok_def Let_def)
  then show ?thesis
    using assms by (simp add: push_history_def Let_def distinct_update list_all_update del: if_split)
qed

lemma track_object_ok:
  assumes "track_object R g m (seen, hs) = Inr (seen', hs')"
    and "distinct (map fst hs) \<and> list_all (\<lambda>(v, h). history_ok (history_size g) h) hs"
  shows "distinct (map fst hs') \<and> list_all (\<lambda>(v, h). history_ok (history_size g) h) hs'"
  using assms push_history_ok
  by (auto simp: track_object_def bind_res_Inr_iff Let_def split: option.splits if_splits prod.splits)

lemma track_objects_ok:
  assumes "fold_res (track_object R g) ms (seen, hs) = Inr (seen', hs')"
    and "distinct (map fst hs) \<and> list_all (\<lambda>(v, h). history_ok (history_size g) h) hs"
  shows "distinct (map fst hs') \<and> list_all (\<lambda>(v, h). history_ok (history_size g) h) hs'"
  using assms
proof (induction ms arbitrary: seen hs)
  case (Cons m ms)
  then obtain seen1 hs1 where 1: "track_object R g m (seen, hs) = Inr (seen1, hs1)"
    "fold_res (track_object R g) ms (seen1, hs1) = Inr (seen', hs')"
    by (auto simp: bind_res_Inr_iff)
  then show ?case using Cons.IH [OF 1(2) track_object_ok [OF 1(1) Cons.prems(2)]] by simp
qed simp

lemma list_all_filter: "list_all P xs \<Longrightarrow> list_all P (filter Q xs)"
  by (simp add: list_all_iff)

lemma update_ok:
  assumes "update_vehicle_positions R g block cache s = Inr s'"
    and "distinct (map fst (vehicle_trajectory_history s)) \<and>
      list_all (\<lambda>(v, h). history_ok (history_size g) h) (vehicle_trajectory_history s)"
  shows "distinct (map fst (vehicle_trajectory_history s')) \<and>
    list_all (\<lambda>(v, h). history_ok (history_size g) h) (vehicle_trajectory_history s')"
proof -
  obtain acc where
    t: "fold_res (track_object R g) (regex_all object_block_regex block) ([], vehicle_trajectory_history s) = Inr acc"
    and u: "(case acc of (seen, hs) \<Rightarrow> Inr (s\<lparr>vehicle_trajectory_history :=
         filter (\<lambda>(vid, h). vid \<in> set seen \<or> list_ex (in_frame vid) cache) hs\<rparr>)) = (Inr s' :: monitor res)"
    using assms(1) unfolding update_vehicle_positions_def bind_res_Inr_iff
    by (elim exE conjE) (rule that)
  obtain seen hs where acc: "acc = (seen, hs)" by fastforce
  have s': "vehicle_trajectory_history s' =
      filter (\<lambda>(vid, h). vid \<in> set seen \<or> list_ex (in_frame vid) cache) hs"
    using u by (auto simp: acc)
  have "distinct (map fst hs) \<and> list_all (\<lambda>(v, h). history_ok (history_size g) h) hs"
    using track_objects_ok t assms(2) unfolding acc by blast
  then show ?thesis unfolding s' by (simp add: list_all_filter distinct_map_filter)
qed

lemma cache_trim: "length c \<le> n \<Longrightarrow> length (if n < length (c @ [x]) then tl (c @ [x]) else c @ [x]) \<le> n"
  by simp

lemma process_frame_ok:
  assumes "tracker_inv g cs" "process_frame R g block cs = Inr cs'"
  shows "tracker_inv g cs'"
proof (cases "contains_frame_block block")
  case True
  obtain cache s where cs: "cs = (cache, s)" by fastforce
  then obtain s' where u: "update_vehicle_positions R g block
        (if frame_cache_size g < length (cache @ [block]) then tl (cache @ [block]) else cache @ [block]) s = Inr s'"
    and cs': "cs' = (if frame_cache_size g < length (cache @ [block]) then tl (cache @ [block]) else cache @ [block], s')"
    using assms(2) unfolding process_frame_def cs prod.case Let_def if_P [OF True] bind_res_Inr_iff
    by (elim exE conjE) (rule that, assumption, simp)
  show ?thesis
    using assms(1) update_ok [OF u] cache_trim [of cache "frame_cache_size g" block]
    unfolding cs cs' tracker_inv_def prod.case by blast
qed (use assms in \<open>auto simp: process_frame_def\<close>)

lemma process_event_ok:
  assumes "tracker_inv g cs" "process_event R g block cs = Inr cs'"
  shows "tracker_inv g cs'"
proof -
  obtain cache s cache' s' where cs: "cs = (cache, s)" "cs' = (cache', s')" by fastforce
  from process_event_alerts [OF assms(2) [unfolded cs]]
  have "cache' = cache \<and> vehicle_trajectory_history s' = vehicle_trajectory_history s"
    by (elim conjE disjE exE) simp_all
  then show ?thesis using assms(1) by (simp add: cs tracker_inv_def)
qed

lemma reload_keeps: "reload R g run s d = (s', d') \<Longrightarrow>
    vehicle_trajectory_history s' = vehicle_trajectory_history s \<and> started s' = started s"
  by (auto simp: reload_def load_dots_and_center_def load_rule_lines_def Let_def
      split: prod.splits reply.splits sql_result.splits)

lemma monitor_step_ok: "tracker_inv g cs \<Longrightarrow> monitor_step R g run cs cs' \<Longrightarrow> tracker_inv g cs'"
proof (erule monitor_step.cases, goal_cases)
  case (1 block cs1 cs2)
  then obtain cs3 where "process_frame R g block cs1 = Inr cs3" "process_event R g block cs3 = Inr cs2"
    unfolding process_block_def bind_res_Inr_iff by blast
  then show ?case using 1 process_frame_ok process_event_ok by metis
next
  case (2 s d s' d' cache)
  then show ?case using reload_keeps [of R g run s d s' d'] by (simp add: tracker_inv_def)
qed

interpretation mon: inv_system "monitor_step R g run" "tracker_inv g" for R g run
  by unfold_locales (rule monitor_step_ok)

section \<open>Loading the rule lines\<close>

definition watched_line :: "rounding \<Rightarrow> AppConfig \<Rightarrow> CrossLine \<Rightarrow> Line" where
  "watched_line R g l =
     \<lparr>ln_start = scaled_point R g (cl_x1 l) (cl_y1 l), ln_end = scaled_point R g (cl_x2 l) (cl_y2 l),
      ln_mode = cl_mode l, ln_name = cl_name l\<rparr>"

abbreviation rule_columns :: "string list" where
  "rule_columns \<equiv> [''x1'', ''y1'', ''x2'', ''y2'', ''name'', ''mode'']"

lemma line_of_row: "line_ok l \<Longrightarrow> line_of R g (pick (Some rule_columns) (line_row l)) = watched_line R g l"
  by (simp add: line_of_def watched_line_def pick_def line_row_def getcol_def line_ok_def wrap32_id)

lemma rule_select_exec:
  assumes "lines_in db ls"
  shows "sql_exec db (Select (Some rule_columns) ''lines'' [] None) [] =
    Inr (Rows (map (\<lambda>l. pick (Some rule_columns) (line_row l)) ls), db)"
proof -
  obtain T where T: "tabs db ''lines'' = Some T" "columns T = lines_cols" "rows T = map line_row ls"
    using assms by (rule lines_in_table)
  have k: "list_all (known T) rule_columns"
    by (simp add: known_def T lines_cols_def col_def is_keyword_def lower_def less_eq_char_def)
  show ?thesis
    using k by (simp add: sql_exec.simps with_table_def T sort_rows_def selected_def comp_def)
qed

lemma foldl_lines:
  "foldl (\<lambda>m l. m(ln_name l \<mapsto> l)) m (map f ls) n =
     (case find (\<lambda>l. ln_name (f l) = n) (rev ls) of Some l \<Rightarrow> Some (f l) | None \<Rightarrow> m n)"
  by (induction ls rule: rev_induct) auto

lemma rule_lines_loaded:
  assumes "sqlite num run view" "reliable num run view" "lines_in (view d) ls"
  shows "rule_lines (fst (load_rule_lines R g run s d)) =
    foldl (\<lambda>m l. m(ln_name l \<mapsto> l)) (rule_lines s) (map (watched_line R g) (take 8 ls))"
proof -
  obtain rs d' where q: "try_query run d (Select (Some rule_columns) ''lines'' [] None) [] = (rs, d')" by fastforce
  have "rs = map (\<lambda>l. pick (Some rule_columns) (line_row l)) ls"
    using sqlite.try_query_reliable [OF assms(1) q _ rule_select_exec [OF assms(3)] assms(2)]
    by (simp add: on_table_def split: option.split)
  then have "map (line_of R g) (take 8 rs) = map (\<lambda>l. line_of R g (pick (Some rule_columns) (line_row l))) (take 8 ls)"
    by (simp add: take_map comp_def)
  also have "\<dots> = map (watched_line R g) (take 8 ls)"
    using assms(3) by (intro map_cong refl line_of_row) (auto simp: lines_in_def list_all_iff dest: in_set_takeD)
  finally show ?thesis by (simp add: load_rule_lines_def q)
qed

section \<open>Without base lines\<close>

lemma no_dots_risk:
  "base_line_pairs s = [] \<Longrightarrow>
     vehicle_risk R g s v h = (if length h < 2 then Inr None else Inl (UB ''closest_dot''))"
  by (simp add: vehicle_risk_def closest_dot_def)

lemma no_dots_fold:
  assumes "base_line_pairs s = []" "list_ex (\<lambda>(v, h). 2 \<le> length h) hs"
  shows "fold_res (alert_step R g v utc) hs s = Inl (UB ''closest_dot'')"
  using assms(2)
proof (induction hs)
  case (Cons x hs)
  obtain i h where x: "x = (i, h)" by fastforce
  then show ?case using Cons by (cases "length h < 2") (auto simp: alert_step_def no_dots_risk assms(1))
qed simp

section \<open>Exact arithmetic\<close>

definition exact :: rounding where
  "exact = \<lparr>r32 = Fin, r64 = Fin\<rparr>"

definition at_xy :: "real \<Rightarrow> real \<Rightarrow> Point" where
  "at_xy x y = \<lparr>pt_x = Fin x, pt_y = Fin y\<rparr>"

text \<open>The line through two points, and twice the area that tells parallel lines.\<close>

definition on_line :: "real \<times> real \<Rightarrow> real \<times> real \<Rightarrow> real \<times> real \<Rightarrow> bool" where
  "on_line a b p = ((fst p - fst a) * (snd b - snd a) = (snd p - snd a) * (fst b - fst a))"

definition cross :: "real \<times> real \<Rightarrow> real \<times> real \<Rightarrow> real \<times> real \<Rightarrow> real \<times> real \<Rightarrow> real" where
  "cross a b c d = (snd b - snd a) * (fst c - fst d) - (snd d - snd c) * (fst a - fst b)"

lemma intersection_value:
  "calculate_intersection exact (at_xy ax ay) (at_xy bx by') (at_xy cx cy) (at_xy dx dy) =
     (let A1 = by' - ay; B1 = ax - bx; C1 = A1 * ax + B1 * ay;
          A2 = dy - cy; B2 = cx - dx; C2 = A2 * cx + B2 * cy; det = A1 * B2 - A2 * B1
      in if \<bar>det\<bar> < 1 / 100000 then None
         else Some (at_xy ((B2 * C1 - B1 * C2) / det) ((A1 * C2 - A2 * C1) / det)))"
  by (simp add: calculate_intersection_def exact_def at_xy_def f_sub_def Let_def)

lemma quotient_sum: "(d :: real) \<noteq> 0 \<Longrightarrow> a * p + b * q = c * d \<Longrightarrow> a * (p / d) + b * (q / d) = c"
  by (simp add: field_simps)

lemma cramer:
  fixes A1 B1 C1 A2 B2 C2 :: real
  assumes "det = A1 * B2 - A2 * B1" "det \<noteq> 0"
  shows "A1 * ((B2 * C1 - B1 * C2) / det) + B1 * ((A1 * C2 - A2 * C1) / det) = C1"
    and "A2 * ((B2 * C1 - B1 * C2) / det) + B2 * ((A1 * C2 - A2 * C1) / det) = C2"
  by (rule quotient_sum [OF assms(2)]; simp add: assms(1) algebra_simps)+

lemma on_line_iff:
  "on_line (ax, ay) (bx, by') (x, y) \<longleftrightarrow> (by' - ay) * x + (ax - bx) * y = (by' - ay) * ax + (ax - bx) * ay"
  by (simp add: on_line_def algebra_simps)

section \<open>The commands of an alert\<close>

fun written :: "serial_op list \<Rightarrow> bytes list" where
  "written [] = []"
| "written (Write f # ops) = f # written ops"
| "written (_ # ops) = written ops"

text \<open>One to three frames, each of which is read as the command for the board.\<close>

definition sends :: "int \<Rightarrow> byte \<Rightarrow> serial_op list \<Rightarrow> bool" where
  "sends b c ops =
     (written ops \<noteq> [] \<and> length (written ops) \<le> 3 \<and>
      list_all (\<lambda>f. decode_frame f = Some ((dst_mask b, c, []), [])) (written ops))"

lemma send_frame_sends: "sends b c (snd (send_frame_with_ack b c 3 500 line))"
proof -
  have u: "[0..3 - 1] = [0, 1, 2 :: int]" by code_simp
  have d: "decode_frame (encode_frame b c []) = Some ((dst_mask b, c, []), [])"
    using decode_encode [of b c "[]" "[]"] by simp
  show ?thesis unfolding send_frame_with_ack_eq u by (simp add: sends_def d Let_def numeral_2_eq_2 numeral_3_eq_3)
qed

lemma exited_port: "\<not> exited ([Open p] @ map (Serial p) ops @ [Report r, Close p])"
  by (simp add: exited_def list_ex_iff)

lemma control_board_known:
  assumes "get_uart_port_for_board b = p" "p \<noteq> []" "opens p" "cmd = CMD_LCD_ON \<or> cmd = CMD_LCD_OFF"
  shows "\<exists>ops r. control_board opens line b cmd = [Open p] @ map (Serial p) ops @ [Report r, Close p] \<and> sends b cmd ops"
proof -
  obtain r ops where s: "send_frame_with_ack b cmd 3 500 line = (r, ops)" by fastforce
  have "CMD_LCD_OFF \<noteq> CMD_LCD_ON" by (simp add: CMD_LCD_OFF_def CMD_LCD_ON_def)
  then have "control_board opens line b cmd = [Open p] @ map (Serial p) ops @ [Report r, Close p]"
    using assms s by (auto simp: control_board_def send_lcd_on_with_ack_def send_lcd_off_with_ack_def)
  with send_frame_sends [of b cmd line] s show ?thesis by auto
qed

lemma unknown_board_captures:
  "get_uart_port_for_board b = [] \<Longrightarrow>
     control_board_async opens line b utc = [Unknown_board b, Capture utc, Sleep 5, Unknown_board b]"
  by (simp add: control_board_async_def control_board_def exited_def)

section \<open>An example\<close>

definition demo_config :: AppConfig where
  "demo_config = \<lparr>username = [], password = [], host = [], rtsp_port = [], rtsp_path = [], db_file = [], trackid = [],
     dist_threshold = 1, parallelism_threshold = 9 / 10, frame_cache_size = 3, history_size = 5,
     scale_x = 1, scale_y = 1, base_x = 1, base_y = 1, board_ports = (\<lambda>p. None), retry_count = 3, timeout_ms = 500\<rparr>"

text \<open>
  Two matrices at the ends of a road with its centre between them, a line along the road, and
  a vehicle that comes from the first matrix.
\<close>

definition demo_monitor :: monitor where
  "demo_monitor = \<lparr>base_line_pairs = [(1, at_xy 0 0, 2, at_xy 10 0)], dot_center = at_xy 5 0,
     rule_lines = [''road'' \<mapsto> \<lparr>ln_start = at_xy 0 3, ln_end = at_xy 10 3, ln_mode = ''Right'', ln_name = ''road''\<rparr>],
     vehicle_trajectory_history = [(7, [at_xy 1 0, at_xy 4 0])], started = []\<rparr>"

lemma demo_alert:
  "analyze_risk_and_alert exact demo_config ''road'' ''now'' demo_monitor =
     Inr (demo_monitor\<lparr>started := [(2, ''now'')]\<rparr>)"
proof -
  have "sqrt 16 = (4 :: real)" "sqrt 100 = (10 :: real)" "sqrt 25 = (5 :: real)" by (rule real_sqrt_unique; simp)+
  then show ?thesis
    by (simp add: analyze_risk_and_alert_def demo_monitor_def alert_step_def vehicle_risk_def closest_dot_def
        consider_dot_def dist_sq_def center_distance_def vector_def compute_cosine_similarity_def exact_def at_xy_def
        demo_config_def f_sub_def f_eq0_def f_ge_def FLT_MAX_def Let_def)
qed

section \<open>Properties\<close>

text \<open>
  Claim C5: a block that is processed without an exception starts a thread only for a line
  crossing event in that block, by an object that a cached frame shows as a person, over a
  loaded rule line, and for a tracked vehicle that endangers it: the thread lights the board
  across from the dot nearest to the vehicle's oldest position. The only exceptions are
  numbers out of range or malformed and the use of the uninitialised nearest dot.
\<close>

theorem alert_only_on_risk:
  "case process_block R g block (cache, s) of
     Inl e \<Rightarrow> block_error e
   | Inr (cache', s') \<Rightarrow> \<exists>new. started s' = started s @ new \<and> block_alerts R g block cache' s' new"
proof (cases "process_block R g block (cache, s)")
  case (Inl e)
  then show ?thesis by (simp add: process_block_error)
next
  case (Inr cs')
  obtain cache' s' where "cs' = (cache', s')" by fastforce
  with Inr show ?thesis using process_block_alerts [of R g block cache s cache' s'] by simp
qed

text \<open>
  Claim C9: whatever the stream and the database deliver, the tracker keeps at most
  \<open>frame_cache_size\<close> frames, one history per vehicle, and in each history at most
  \<open>history_size\<close> positions unless that setting is negative.
\<close>

theorem tracker_bounded:
  "case metadata_thread R g run popen clock (s\<lparr>vehicle_trajectory_history := []\<rparr>) d of
     (r, cs, d') \<Rightarrow> tracker_inv g cs"
proof -
  have "tracker_inv g ([], s\<lparr>vehicle_trajectory_history := []\<rparr>)" by (simp add: tracker_inv_def)
  moreover obtain r cs d' where
    m: "metadata_thread R g run popen clock (s\<lparr>vehicle_trajectory_history := []\<rparr>) d = (r, cs, d')"
    by (metis prod_cases3)
  ultimately show ?thesis using mon.inv_reachable [OF metadata_thread_steps [OF m]] by simp
qed

text \<open>
  Claim C19: loading the rule lines takes the first eight rows of the table, and keeps every
  line loaded before that is not among them, also one that has been deleted from the table.
\<close>

theorem rule_lines_reload:
  assumes "conforms num run view" "reliable num run view" "lines_in (view d) ls"
  shows "rule_lines (fst (load_rule_lines R g run s d)) n =
    (case find (\<lambda>l. cl_name l = n) (rev (take 8 ls)) of
       Some l \<Rightarrow> Some (watched_line R g l)
     | None \<Rightarrow> rule_lines s n)"
  unfolding rule_lines_loaded [OF sqlite.intro [OF assms(1)] assms(2, 3)] foldl_lines by (simp add: watched_line_def)

theorem rule_lines_reload_witness:
  "rule_lines (fst (load_rule_lines exact demo_config sure_run demo_monitor (lines_db [gate]))) ''road'' =
     rule_lines demo_monitor ''road''"
  using rule_lines_reload [OF conforms_sure [of "\<lambda>_. False"] reliable_sure example_dbs(1),
      of "[gate]" exact demo_config demo_monitor "''road''"] example_lines_ok
  by (simp add: gate_def)

text \<open>
  Claim C29: without base lines, a person crossing a known rule line while some vehicle has two
  positions makes the monitor read the nearest dot before it has a value.
\<close>

theorem no_dots_undefined:
  assumes "rule_lines s rule = Some l" "base_line_pairs s = []"
    and "list_ex (\<lambda>(v, h). 2 \<le> length h) (vehicle_trajectory_history s)"
  shows "analyze_risk_and_alert R g rule utc s = Inl (UB ''closest_dot'')"
  using assms no_dots_fold [OF assms(2, 3)] by (auto simp: analyze_risk_and_alert_def Let_def)

theorem no_dots_undefined_witness:
  "analyze_risk_and_alert exact demo_config ''road'' ''now'' (demo_monitor\<lparr>base_line_pairs := []\<rparr>) =
     Inl (UB ''closest_dot'')"
  by (rule no_dots_undefined) (simp_all add: demo_monitor_def)

text \<open>
  Claim C28: in exact arithmetic the computed intersection lies on both lines, and there is none
  only for lines that are parallel up to the tolerance.
\<close>

theorem intersection_exact:
  "case calculate_intersection exact (at_xy (fst a) (snd a)) (at_xy (fst b) (snd b))
      (at_xy (fst c) (snd c)) (at_xy (fst d) (snd d)) of
     None \<Rightarrow> \<bar>cross a b c d\<bar> < 1 / 100000
   | Some p \<Rightarrow> \<exists>x y. p = at_xy x y \<and> on_line a b (x, y) \<and> on_line c d (x, y)"
proof -
  obtain ax ay bx by' cx cy dx dy where
    e: "a = (ax, ay)" "b = (bx, by')" "c = (cx, cy)" "d = (dx, dy)" by (metis surj_pair)
  show ?thesis
  proof (cases "\<bar>cross a b c d\<bar> < 1 / 100000")
    case True
    then show ?thesis by (simp add: e intersection_value Let_def cross_def)
  next
    case False
    let ?C1 = "(by' - ay) * ax + (ax - bx) * ay" and ?C2 = "(dy - cy) * cx + (cx - dx) * cy"
    define D where "D = cross a b c d"
    define x y where "x = ((cx - dx) * ?C1 - (ax - bx) * ?C2) / D" and "y = ((by' - ay) * ?C2 - (dy - cy) * ?C1) / D"
    have D: "D = (by' - ay) * (cx - dx) - (dy - cy) * (ax - bx)" by (simp add: D_def e cross_def)
    have small: "\<not> \<bar>D\<bar> < 1 / 100000" using False by (simp only: D_def not_False_eq_True)
    then have "D \<noteq> 0" by auto
    then have "on_line a b (x, y)" "on_line c d (x, y)"
      unfolding e on_line_iff x_def y_def by (rule cramer [OF D])+
    moreover have "calculate_intersection exact (at_xy ax ay) (at_xy bx by') (at_xy cx cy) (at_xy dx dy) = Some (at_xy x y)"
      unfolding intersection_value Let_def D [symmetric] x_def [symmetric] y_def [symmetric] by (simp only: small if_False)
    ultimately show ?thesis by (auto simp: e)
  qed
qed

text \<open>
  Claim C21: the time stamp saved with a picture is the UTC time of the frame, whatever follows
  its seconds, nine hours later, for the years 1000 to 9999 and every instant but one second
  before the epoch.
\<close>

theorem kst_timestamp_correct:
  assumes "t \<noteq> -1" "1000 \<le> tm_year (gmtime t) + 1900" "tm_year (gmtime t) + 1900 \<le> 9999"
  shows "kst_timestamp (strftime ''%Y-%m-%dT%H:%M:%S'' (gmtime t) @ rest) =
    Some (strftime ''%Y-%m-%dT%H:%M:%S'' (gmtime (t + 9 * 3600)) @ ''KST'')"
  using get_time_strftime [OF _ assms(2, 3), of rest] gmtime_correct [of t] assms(1)
  by (simp add: kst_timestamp_def put_field_def Let_def)

theorem kst_timestamp_correct_witness:
  "kst_timestamp ''1970-12-31T18:30:05.123Z'' = Some ''1971-01-01T03:30:05KST''"
proof -
  have k: "(31516205 :: int) + 9 * 3600 = 31548605" by simp
  have g: "gmtime 31516205 = \<lparr>tm_sec = 5, tm_min = 30, tm_hour = 18, tm_mday = 31, tm_mon = 11, tm_year = 70\<rparr>"
    "gmtime 31548605 = \<lparr>tm_sec = 5, tm_min = 30, tm_hour = 3, tm_mday = 1, tm_mon = 0, tm_year = 71\<rparr>"
    by (simp_all add: gmtime_def Let_def days_before_def month_days_def leap_def year_search.simps [of 364 1970]
        year_search.simps [of 365 1970] year_search.simps [of 365 1971])
  have f: "strftime ''%Y-%m-%dT%H:%M:%S'' (gmtime 31516205) = ''1970-12-31T18:30:05''"
    "strftime ''%Y-%m-%dT%H:%M:%S'' (gmtime 31548605) = ''1971-01-01T03:30:05''"
    by (simp_all add: g put_field_def two_def to_string_def dec_nat.simps char_of_def bit_0)
  have "kst_timestamp (''1970-12-31T18:30:05'' @ ''.123Z'') = Some (''1971-01-01T03:30:05'' @ ''KST'')"
    by (rule kst_timestamp_correct [of 31516205 "''.123Z''", unfolded k f]) (simp_all add: g)
  then show ?thesis by simp
qed

text \<open>
  Claim C17: the thread of an alert for a board whose port opens writes one to three frames that
  are read as LCD ON for that board, starts the picture, waits five seconds, and writes one to
  three frames that are read as LCD OFF.
\<close>

theorem alert_thread_commands:
  assumes "get_uart_port_for_board b = p" "p \<noteq> []" "opens 0 p" "opens 1 p"
  shows "\<exists>on off r r'. control_board_async opens line b utc =
      [Open p] @ map (Serial p) on @ [Report r, Close p, Capture utc, Sleep 5, Open p] @ map (Serial p) off @
        [Report r', Close p] \<and>
    sends b CMD_LCD_ON on \<and> sends b CMD_LCD_OFF off"
proof -
  obtain on r where on: "control_board (opens 0) (line 0) b CMD_LCD_ON = [Open p] @ map (Serial p) on @ [Report r, Close p]"
    "sends b CMD_LCD_ON on" using control_board_known assms by metis
  obtain off r' where off: "control_board (opens 1) (line 1) b CMD_LCD_OFF = [Open p] @ map (Serial p) off @ [Report r', Close p]"
    "sends b CMD_LCD_OFF off" using control_board_known assms by metis
  have "control_board_async opens line b utc = [Open p] @ map (Serial p) on @ [Report r, Close p] @
      [Capture utc, Sleep 5] @ [Open p] @ map (Serial p) off @ [Report r', Close p]"
    using on(1) off(1) exited_port [of p on r] by (simp add: control_board_async_def Let_def CMD_LCD_ON_def CMD_LCD_OFF_def)
  with on(2) off(2) show ?thesis by auto
qed

theorem alert_thread_commands_witness:
  "\<exists>on off r r'. control_board_async (\<lambda>n p. True) (\<lambda>n k. map Some ack_frame) 2 ''t'' =
      [Open ''/dev/ttyAMA2''] @ map (Serial ''/dev/ttyAMA2'') on @
        [Report r, Close ''/dev/ttyAMA2'', Capture ''t'', Sleep 5, Open ''/dev/ttyAMA2''] @
        map (Serial ''/dev/ttyAMA2'') off @ [Report r', Close ''/dev/ttyAMA2''] \<and>
    sends 2 CMD_LCD_ON on \<and> sends 2 CMD_LCD_OFF off"
  by (rule alert_thread_commands) (simp_all add: get_uart_port_for_board_def board_info_def)

end
