(* ===== verification/Camera.thy ===== *)
theory Camera
  imports Config_Manager Db_Management
begin

text \<open>
  src/curl_camera.cpp: the requests to the camera. A request is the data handed to libcurl;
  what libcurl answers is the argument \<open>outcome\<close>: whether a handle could be made, and the
  chunks it passed to \<open>WriteCallback\<close> before the transfer ended, well or not.
\<close>

datatype http_method = GET | PUT | DELETE

record http_request =
  verb :: http_method
  url :: string
  userpwd :: string
  verify_peer :: bool
  headers :: "string list"
  body :: "string option"

record curl_outcome =
  init_ok :: bool
  chunks :: "string list"
  perform_ok :: bool

definition WriteCallback :: "string \<Rightarrow> string \<Rightarrow> string" where
  "WriteCallback contents userp = userp @ contents"

definition common_headers :: "AppConfig \<Rightarrow> string list" where
  "common_headers cfg =
     [''Accept: application/json'', ''Content-Type: application/json'',
      ''Cookie: TRACKID='' @ trackid cfg,
      ''Origin: https://'' @ host cfg,
      ''Referer: https://'' @ host cfg @ ''/home/setup/opensdk/html/WiseAI/index.html'']"

definition lines_url :: "AppConfig \<Rightarrow> string" where
  "lines_url cfg = ''https://'' @ host cfg @ ''/opensdk/WiseAI/configuration/linecrossing''"

text \<open>
  The transfer: without a handle the construction of the result from a null pointer throws,
  the handler of the function catches it, and the buffer, still empty, is returned.
\<close>

definition perform :: "curl_outcome \<Rightarrow> http_request \<Rightarrow> string \<times> http_request list" where
  "perform outcome req = (fold WriteCallback (chunks outcome) '''', [req])"

definition getLines :: "AppConfig \<Rightarrow> curl_outcome \<Rightarrow> string \<times> http_request list" where
  "getLines cfg outcome =
     (if \<not> init_ok outcome then ('''', [])
      else perform outcome
             \<lparr>verb = GET, url = lines_url cfg, userpwd = username cfg @ '':'' @ password cfg,
              verify_peer = False, headers = common_headers cfg, body = None\<rparr>)"

definition line_payload :: "CrossLine \<Rightarrow> json" where
  "line_payload crossLine =
     json_obj [(''channel'', JInt 0), (''enable'', JBool True),
       (''line'', JArray [json_obj
          [(''index'', JInt (cl_index crossLine)),
           (''lineCoordinates'', JArray
              [json_obj [(''x'', JInt (cl_x1 crossLine)), (''y'', JInt (cl_y1 crossLine))],
               json_obj [(''x'', JInt (cl_x2 crossLine)), (''y'', JInt (cl_y2 crossLine))]]),
           (''mode'', JString (cl_mode crossLine)), (''name'', JString (cl_name crossLine)),
           (''objectTypeFilter'', JArray (map JString
              [''Person'', ''Vehicle.Bicycle'', ''Vehicle.Car'', ''Vehicle.Motorcycle'',
               ''Vehicle.Bus'', ''Vehicle.Truck'']))]])]"

text \<open>\<open>dump\<close> throws on text that is not UTF-8; the handler catches it before the transfer.\<close>

definition putLines ::
  "json_text \<Rightarrow> AppConfig \<Rightarrow> curl_outcome \<Rightarrow> CrossLine \<Rightarrow> string \<times> http_request list" where
  "putLines J cfg outcome crossLine =
     (if \<not> init_ok outcome then ('''', [])
      else case dump J (line_payload crossLine) of
             Inl e \<Rightarrow> ('''', [])
           | Inr insert_json_string \<Rightarrow>
               perform outcome
                 \<lparr>verb = PUT, url = lines_url cfg, userpwd = username cfg @ '':'' @ password cfg,
                  verify_peer = False, headers = common_headers cfg, body = Some insert_json_string\<rparr>)"

definition deleteLines :: "AppConfig \<Rightarrow> curl_outcome \<Rightarrow> int \<Rightarrow> string \<times> http_request list" where
  "deleteLines cfg outcome index =
     (if \<not> init_ok outcome then ('''', [])
      else perform outcome
             \<lparr>verb = DELETE, url = lines_url cfg @ ''/line?channel=0&index='' @ to_string index,
              userpwd = username cfg @ '':'' @ password cfg,
              verify_peer = False, headers = common_headers cfg, body = None\<rparr>)"

section \<open>Lemmas\<close>

lemma fold_WriteCallback: "fold WriteCallback cs s = s @ concat cs"
  by (induction cs arbitrary: s) (simp_all add: WriteCallback_def)

text \<open>A text reaches its function whole, however libcurl cuts it.\<close>

lemma getLines_response:
  "init_ok outcome \<Longrightarrow> fst (getLines cfg outcome) = concat (chunks outcome)"
  by (simp add: getLines_def perform_def fold_WriteCallback)

end
