(* ===== verification/Qr_Codec.thy ===== *)
theory Qr_Codec
  imports Regex
begin

text \<open>
  src/otp/QR-Code-generator/qrcodegen.cpp, the part without the grid: the bit buffer, the
  segments, the tables, Reed-Solomon coding over GF(2^8) and the interleaving of the blocks.
  The assertions are removed by the release build and not part of the model.
\<close>

section \<open>Bit buffer\<close>

definition appendBits :: "nat \<Rightarrow> int \<Rightarrow> bool list \<Rightarrow> bool list res" where
  "appendBits val len bb =
     (if len < 0 \<or> len > 31 \<or> drop_bit (nat len) val \<noteq> 0
      then Inl (Domain_error ''Value out of range'')
      else Inr (bb @ map (bit val) (rev [0..<nat len])))"

section \<open>Segments\<close>

record Mode =
  modeBits :: nat
  numBitsCharCount :: "int list"

definition NUMERIC :: Mode where "NUMERIC = \<lparr>modeBits = 0x1, numBitsCharCount = [10, 12, 14]\<rparr>"
definition ALPHANUMERIC :: Mode where "ALPHANUMERIC = \<lparr>modeBits = 0x2, numBitsCharCount = [9, 11, 13]\<rparr>"
definition BYTE :: Mode where "BYTE = \<lparr>modeBits = 0x4, numBitsCharCount = [8, 16, 16]\<rparr>"
definition KANJI :: Mode where "KANJI = \<lparr>modeBits = 0x8, numBitsCharCount = [8, 10, 12]\<rparr>"
definition ECI :: Mode where "ECI = \<lparr>modeBits = 0x7, numBitsCharCount = [0, 0, 0]\<rparr>"

definition numCharCountBits :: "Mode \<Rightarrow> int \<Rightarrow> int" where
  "numCharCountBits md ver = numBitsCharCount md ! nat ((ver + 7) div 17)"

record QrSegment =
  seg_mode :: Mode
  numChars :: int
  seg_data :: "bool list"

definition QrSegment_new :: "Mode \<Rightarrow> int \<Rightarrow> bool list \<Rightarrow> QrSegment res" where
  "QrSegment_new md numCh dt =
     (if numCh < 0 then Inl (Domain_error ''Invalid value'')
      else Inr \<lparr>seg_mode = md, numChars = numCh, seg_data = dt\<rparr>)"

definition INT_MAX :: int where "INT_MAX = 2 ^ 31 - 1"

definition makeBytes :: "bytes \<Rightarrow> QrSegment res" where
  "makeBytes data =
     (if int (length data) > INT_MAX then Inl (Length_error ''Data too long'')
      else bind_res (fold_res (\<lambda>b. appendBits (unat b) 8) data []) (\<lambda>bb.
           QrSegment_new BYTE (int (length data)) bb))"

text \<open>The loops over a text: the characters before its NUL, with the accumulator.\<close>

fun numeric_loop :: "string \<Rightarrow> nat \<Rightarrow> nat \<Rightarrow> bool list \<Rightarrow> (nat \<times> nat \<times> bool list) res" where
  "numeric_loop [] accumData accumCount bb = Inr (accumData, accumCount, bb)"
| "numeric_loop (c # digits) accumData accumCount bb =
     (if c < CHR ''0'' \<or> c > CHR ''9''
      then Inl (Domain_error ''String contains non-numeric characters'')
      else let accumData = accumData * 10 + (of_char c - 48); accumCount = accumCount + 1
           in if accumCount = 3
              then bind_res (appendBits accumData 10 bb) (numeric_loop digits 0 0)
              else numeric_loop digits accumData accumCount bb)"

definition makeNumeric :: "string \<Rightarrow> QrSegment res" where
  "makeNumeric digits =
     bind_res (numeric_loop digits 0 0 []) (\<lambda>(accumData, accumCount, bb).
     bind_res (if accumCount > 0 then appendBits accumData (int accumCount * 3 + 1) bb else Inr bb) (\<lambda>bb.
     QrSegment_new NUMERIC (int (length digits)) bb))"

definition ALPHANUMERIC_CHARSET :: string where
  "ALPHANUMERIC_CHARSET = ''0123456789ABCDEFGHIJKLMNOPQRSTUVWXYZ $%*+-./:''"

definition charset_pos :: "char \<Rightarrow> nat option" where
  "charset_pos c = find_sub [c] ALPHANUMERIC_CHARSET"

fun alphanumeric_loop :: "string \<Rightarrow> nat \<Rightarrow> nat \<Rightarrow> bool list \<Rightarrow> (nat \<times> nat \<times> bool list) res" where
  "alphanumeric_loop [] accumData accumCount bb = Inr (accumData, accumCount, bb)"
| "alphanumeric_loop (c # text) accumData accumCount bb =
     (case charset_pos c of
        None \<Rightarrow> Inl (Domain_error ''String contains unencodable characters in alphanumeric mode'')
      | Some temp \<Rightarrow>
          let accumData = accumData * 45 + temp; accumCount = accumCount + 1
          in if accumCount = 2
             then bind_res (appendBits accumData 11 bb) (alphanumeric_loop text 0 0)
             else alphanumeric_loop text accumData accumCount bb)"

definition makeAlphanumeric :: "string \<Rightarrow> QrSegment res" where
  "makeAlphanumeric text =
     bind_res (alphanumeric_loop text 0 0 []) (\<lambda>(accumData, accumCount, bb).
     bind_res (if accumCount > 0 then appendBits accumData 6 bb else Inr bb) (\<lambda>bb.
     QrSegment_new ALPHANUMERIC (int (length text)) bb))"

definition isNumeric :: "string \<Rightarrow> bool" where
  "isNumeric text = list_all (\<lambda>c. \<not> (c < CHR ''0'' \<or> c > CHR ''9'')) text"

definition isAlphanumeric :: "string \<Rightarrow> bool" where
  "isAlphanumeric text = list_all (\<lambda>c. charset_pos c \<noteq> None) text"

definition makeSegments :: "string \<Rightarrow> QrSegment list res" where
  "makeSegments text =
     (if text = [] then Inr []
      else bind_res
             (if isNumeric text then makeNumeric text
              else if isAlphanumeric text then makeAlphanumeric text
              else makeBytes (map (\<lambda>c. of_nat (of_char c)) text)) (\<lambda>seg. Inr [seg]))"

definition makeEci :: "int \<Rightarrow> QrSegment res" where
  "makeEci assignVal =
     bind_res
       (if assignVal < 0 then Inl (Domain_error ''ECI assignment value out of range'')
        else if assignVal < 2 ^ 7 then appendBits (nat assignVal) 8 []
        else if assignVal < 2 ^ 14
        then bind_res (appendBits 2 2 []) (appendBits (nat assignVal) 14)
        else if assignVal < 1000000
        then bind_res (appendBits 6 3 []) (appendBits (nat assignVal) 21)
        else Inl (Domain_error ''ECI assignment value out of range''))
       (QrSegment_new ECI 0)"

fun total_bits_from :: "int \<Rightarrow> QrSegment list \<Rightarrow> int \<Rightarrow> int" where
  "total_bits_from result [] version = result"
| "total_bits_from result (seg # segs) version =
     (let ccbits = numCharCountBits (seg_mode seg) version
      in if numChars seg \<ge> 2 ^ nat ccbits then -1
         else if 4 + ccbits > INT_MAX - result then -1
         else let result = result + (4 + ccbits)
              in if int (length (seg_data seg)) > INT_MAX - result then -1
                 else total_bits_from (result + int (length (seg_data seg))) segs version)"

definition getTotalBits :: "QrSegment list \<Rightarrow> int \<Rightarrow> int" where
  "getTotalBits segs version = total_bits_from 0 segs version"

section \<open>Tables\<close>

datatype Ecc = LOW | MEDIUM | QUARTILE | HIGH

fun getFormatBits :: "Ecc \<Rightarrow> nat" where
  "getFormatBits LOW = 1"
| "getFormatBits MEDIUM = 0"
| "getFormatBits QUARTILE = 3"
| "getFormatBits HIGH = 2"

definition MIN_VERSION :: int where "MIN_VERSION = 1"
definition MAX_VERSION :: int where "MAX_VERSION = 40"

fun ECC_CODEWORDS_PER_BLOCK :: "Ecc \<Rightarrow> int list" where
  "ECC_CODEWORDS_PER_BLOCK LOW =
     [-1,  7, 10, 15, 20, 26, 18, 20, 24, 30, 18, 20, 24, 26, 30, 22, 24, 28, 30, 28, 28, 28, 28, 30, 30, 26, 28, 30, 30, 30, 30, 30, 30, 30, 30, 30, 30, 30, 30, 30, 30]"
| "ECC_CODEWORDS_PER_BLOCK MEDIUM =
     [-1, 10, 16, 26, 18, 24, 16, 18, 22, 22, 26, 30, 22, 22, 24, 24, 28, 28, 26, 26, 26, 26, 28, 28, 28, 28, 28, 28, 28, 28, 28, 28, 28, 28, 28, 28, 28, 28, 28, 28, 28]"
| "ECC_CODEWORDS_PER_BLOCK QUARTILE =
     [-1, 13, 22, 18, 26, 18, 24, 18, 22, 20, 24, 28, 26, 24, 20, 30, 24, 28, 28, 26, 30, 28, 30, 30, 30, 30, 28, 30, 30, 30, 30, 30, 30, 30, 30, 30, 30, 30, 30, 30, 30]"
| "ECC_CODEWORDS_PER_BLOCK HIGH =
     [-1, 17, 28, 22, 16, 22, 28, 26, 26, 24, 28, 24, 28, 22, 24, 24, 30, 28, 28, 26, 28, 30, 24, 30, 30, 30, 30, 30, 30, 30, 30, 30, 30, 30, 30, 30, 30, 30, 30, 30, 30]"

fun NUM_ERROR_CORRECTION_BLOCKS :: "Ecc \<Rightarrow> int list" where
  "NUM_ERROR_CORRECTION_BLOCKS LOW =
     [-1, 1, 1, 1, 1, 1, 2, 2, 2, 2, 4,  4,  4,  4,  4,  6,  6,  6,  6,  7,  8,  8,  9,  9, 10, 12, 12, 12, 13, 14, 15, 16, 17, 18, 19, 19, 20, 21, 22, 24, 25]"
| "NUM_ERROR_CORRECTION_BLOCKS MEDIUM =
     [-1, 1, 1, 1, 2, 2, 4, 4, 4, 5, 5,  5,  8,  9,  9, 10, 10, 11, 13, 14, 16, 17, 17, 18, 20, 21, 23, 25, 26, 28, 29, 31, 33, 35, 37, 38, 40, 43, 45, 47, 49]"
| "NUM_ERROR_CORRECTION_BLOCKS QUARTILE =
     [-1, 1, 1, 2, 2, 4, 4, 6, 6, 8, 8,  8, 10, 12, 16, 12, 17, 16, 18, 21, 20, 23, 23, 25, 27, 29, 34, 34, 35, 38, 40, 43, 45, 48, 51, 53, 56, 59, 62, 65, 68]"
| "NUM_ERROR_CORRECTION_BLOCKS HIGH =
     [-1, 1, 1, 2, 4, 4, 4, 5, 6, 8, 8, 11, 11, 16, 16, 18, 16, 19, 21, 25, 25, 25, 34, 30, 32, 35, 37, 40, 42, 45, 48, 51, 54, 57, 60, 63, 66, 70, 74, 77, 81]"

definition getNumRawDataModules :: "int \<Rightarrow> int res" where
  "getNumRawDataModules ver =
     (if ver < MIN_VERSION \<or> ver > MAX_VERSION then Inl (Domain_error ''Version number out of range'')
      else let result = (16 * ver + 128) * ver + 64
           in Inr (if ver \<ge> 2
                   then let numAlign = ver div 7 + 2;
                            result = result - ((25 * numAlign - 10) * numAlign - 55)
                        in if ver \<ge> 7 then result - 36 else result
                   else result))"

definition getNumDataCodewords :: "int \<Rightarrow> Ecc \<Rightarrow> int res" where
  "getNumDataCodewords ver ecl =
     bind_res (getNumRawDataModules ver) (\<lambda>raw.
     Inr (raw div 8 - ECC_CODEWORDS_PER_BLOCK ecl ! nat ver * NUM_ERROR_CORRECTION_BLOCKS ecl ! nat ver))"

section \<open>Reed-Solomon coding\<close>

definition reedSolomonMultiply :: "byte \<Rightarrow> byte \<Rightarrow> byte" where
  "reedSolomonMultiply x y =
     ucast (fold (\<lambda>i z. let z = push_bit 1 z XOR (drop_bit 7 z * 0x11D)
                        in z XOR ((drop_bit i (ucast y) AND 1) * ucast x))
              (rev [0..<8]) (0 :: u32))"

text \<open>The inner loop of the divisor: the product with (x - root), without its highest term.\<close>

fun multiply_root :: "byte \<Rightarrow> bytes \<Rightarrow> bytes" where
  "multiply_root rt [] = []"
| "multiply_root rt [a] = [reedSolomonMultiply a rt]"
| "multiply_root rt (a # b # rest) =
     (reedSolomonMultiply a rt XOR b) # multiply_root rt (b # rest)"

definition reedSolomonComputeDivisor :: "int \<Rightarrow> bytes res" where
  "reedSolomonComputeDivisor degree =
     (if degree < 1 \<or> degree > 255 then Inl (Domain_error ''Degree out of range'')
      else Inr (fst (((\<lambda>(result, rt). (multiply_root rt result, reedSolomonMultiply rt 0x02)) ^^ nat degree)
                  (replicate (nat degree - 1) 0 @ [1], 1))))"

fun remainder_step :: "bytes \<Rightarrow> byte \<Rightarrow> bytes \<Rightarrow> bytes res" where
  "remainder_step divisor b [] = Inl (Out_of_range ''vector::at'')"
| "remainder_step divisor b (r # result) =
     (let factor = b XOR r
      in Inr (map2 (\<lambda>x d. x XOR reedSolomonMultiply d factor) (result @ [0]) divisor))"

definition reedSolomonComputeRemainder :: "bytes \<Rightarrow> bytes \<Rightarrow> bytes res" where
  "reedSolomonComputeRemainder data divisor =
     fold_res (remainder_step divisor) data (replicate (length divisor) 0)"

section \<open>Blocks\<close>

record block_plan =
  numBlocks :: nat
  blockEccLen :: nat
  rawCodewords :: nat
  numShortBlocks :: nat
  shortBlockLen :: nat

definition plan_of :: "int \<Rightarrow> Ecc \<Rightarrow> block_plan res" where
  "plan_of version ecl =
     bind_res (getNumRawDataModules version) (\<lambda>raw.
     let nb = NUM_ERROR_CORRECTION_BLOCKS ecl ! nat version;
         be = ECC_CODEWORDS_PER_BLOCK ecl ! nat version;
         rc = raw div 8
     in Inr \<lparr>numBlocks = nat nb, blockEccLen = nat be, rawCodewords = nat rc,
             numShortBlocks = nat (nb - rc mod nb), shortBlockLen = nat (rc div nb)\<rparr>)"

text \<open>The loop over the blocks from block \<open>i\<close> on, with the data that are left.\<close>

fun make_blocks :: "block_plan \<Rightarrow> bytes \<Rightarrow> nat list \<Rightarrow> bytes \<Rightarrow> bytes list res" where
  "make_blocks p rsDiv [] data = Inr []"
| "make_blocks p rsDiv (i # is) data =
     (let n = shortBlockLen p - blockEccLen p + (if i < numShortBlocks p then 0 else 1);
          dat = take n data
      in bind_res (reedSolomonComputeRemainder dat rsDiv) (\<lambda>ecc.
         bind_res (make_blocks p rsDiv is (drop n data)) (\<lambda>blocks.
         Inr ((dat @ (if i < numShortBlocks p then [0] else []) @ ecc) # blocks))))"

definition interleave :: "block_plan \<Rightarrow> bytes list \<Rightarrow> bytes res" where
  "interleave p blocks =
     bind_res (vat blocks 0) (\<lambda>b0.
     fold_res (\<lambda>(i, j) result.
         if i \<noteq> shortBlockLen p - blockEccLen p \<or> j \<ge> numShortBlocks p
         then bind_res (vat blocks j) (\<lambda>blk. bind_res (vat blk i) (\<lambda>b. Inr (result @ [b])))
         else Inr result)
       (List.product [0..<length b0] [0..<length blocks]) [])"

definition addEccAndInterleave :: "int \<Rightarrow> Ecc \<Rightarrow> bytes \<Rightarrow> bytes res" where
  "addEccAndInterleave version ecl data =
     bind_res (getNumDataCodewords version ecl) (\<lambda>n.
     if int (length data) \<noteq> n then Inl (Invalid_argument ''Invalid argument'')
     else bind_res (plan_of version ecl) (\<lambda>p.
          bind_res (reedSolomonComputeDivisor (int (blockEccLen p))) (\<lambda>rsDiv.
          bind_res (make_blocks p rsDiv [0..<numBlocks p] data) (interleave p))))"

section \<open>From segments to codewords\<close>

function find_version :: "QrSegment list \<Rightarrow> Ecc \<Rightarrow> int \<Rightarrow> int \<Rightarrow> (int \<times> int) res" where
  "find_version segs ecl maxVersion version =
     bind_res (getNumDataCodewords version ecl) (\<lambda>n.
     let dataCapacityBits = n * 8; dataUsedBits = getTotalBits segs version
     in if dataUsedBits \<noteq> -1 \<and> dataUsedBits \<le> dataCapacityBits then Inr (version, dataUsedBits)
        else if version \<ge> maxVersion
        then Inl (Length_error (if dataUsedBits = -1 then ''Segment too long''
               else ''Data length = '' @ to_string dataUsedBits @ '' bits, ''
                    @ ''Max capacity = '' @ to_string dataCapacityBits @ '' bits''))
        else find_version segs ecl maxVersion (version + 1))"
  by pat_completeness auto
termination by (relation "measure (\<lambda>(segs, ecl, hi, ver). nat (hi - ver))") auto

declare find_version.simps [simp del]

definition boost :: "int \<Rightarrow> int \<Rightarrow> Ecc \<Rightarrow> Ecc res" where
  "boost version dataUsedBits ecl =
     fold_res (\<lambda>newEcl ecl.
         bind_res (getNumDataCodewords version newEcl) (\<lambda>n.
         Inr (if dataUsedBits \<le> n * 8 then newEcl else ecl)))
       [MEDIUM, QUARTILE, HIGH] ecl"

definition segment_bits :: "int \<Rightarrow> QrSegment \<Rightarrow> bool list \<Rightarrow> bool list res" where
  "segment_bits version seg bb =
     bind_res (appendBits (modeBits (seg_mode seg)) 4 bb) (\<lambda>bb.
     bind_res (appendBits (nat (numChars seg)) (numCharCountBits (seg_mode seg) version) bb) (\<lambda>bb.
     Inr (bb @ seg_data seg)))"

function pad_bytes :: "nat \<Rightarrow> byte \<Rightarrow> bool list \<Rightarrow> bool list" where
  "pad_bytes dataCapacityBits padByte bb =
     (if length bb < dataCapacityBits
      then pad_bytes dataCapacityBits (padByte XOR (0xEC XOR 0x11)) (bb @ map (bit padByte) (rev [0..<8]))
      else bb)"
  by pat_completeness auto
termination by (relation "measure (\<lambda>(cap, b, bb). cap - length bb)") auto

declare pad_bytes.simps [simp del]

definition pack_bits :: "bool list \<Rightarrow> bytes res" where
  "pack_bits bb =
     fold_res (\<lambda>i cw.
         bind_res (vat cw (i div 8)) (\<lambda>b.
         vput cw (i div 8) (b OR push_bit (7 - i mod 8) (if bb ! i then 1 else 0))))
       [0..<length bb] (replicate (length bb div 8) 0)"

text \<open>The data codewords of the chosen version and level.\<close>

definition dataCodewords :: "QrSegment list \<Rightarrow> int \<Rightarrow> Ecc \<Rightarrow> bytes res" where
  "dataCodewords segs version ecl =
     bind_res (fold_res (segment_bits version) segs []) (\<lambda>bb.
     bind_res (getNumDataCodewords version ecl) (\<lambda>n.
     let cap = nat n * 8
     in bind_res (appendBits 0 (min 4 (int cap - int (length bb))) bb) (\<lambda>bb.
        bind_res (appendBits 0 ((8 - int (length bb mod 8)) mod 8) bb) (\<lambda>bb.
        pack_bits (pad_bytes cap 0xEC bb)))))"

section \<open>The field GF(2^8)\<close>

text \<open>
  Reference: multiplication by x modulo \<open>x^8 + x^4 + x^3 + x^2 + 1\<close>, and the product as the
  sum of the multiples \<open>x^i a\<close> over the bits of the other factor.
\<close>

definition xtime :: "byte \<Rightarrow> byte" where
  "xtime z = push_bit 1 z XOR (if bit z 7 then 0x1D else 0)"

fun gf_sum :: "byte \<Rightarrow> byte \<Rightarrow> nat \<Rightarrow> byte" where
  "gf_sum x y 0 = 0"
| "gf_sum x y (Suc n) = gf_sum x y n XOR (if bit y n then (xtime ^^ n) x else 0)"

definition gf_mul :: "byte \<Rightarrow> byte \<Rightarrow> byte" where
  "gf_mul x y = gf_sum x y 8"

lemma bit_1D: "bit (0x1D :: byte) n \<longleftrightarrow> n = 0 \<or> n = 2 \<or> n = 3 \<or> n = 4"
proof (cases "n < 8")
  case True
  have "list_all (\<lambda>n. bit (0x1D :: byte) n \<longleftrightarrow> n = 0 \<or> n = 2 \<or> n = 3 \<or> n = 4) [0..<8]" by code_simp
  with True show ?thesis by (simp add: list_all_iff)
next
  case False
  then show ?thesis using bit_byte_beyond [of n "0x1D"] by auto
qed

lemma bit_xtime: "bit (xtime z) n \<longleftrightarrow> n < 8 \<and>
    ((0 < n \<and> bit z (n - 1)) \<noteq> (bit z 7 \<and> (n = 0 \<or> n = 2 \<or> n = 3 \<or> n = 4)))"
proof (cases "bit z 7")
  case True
  have "bit (xtime z) n \<longleftrightarrow> (1 \<le> n \<and> n < 8 \<and> bit z (n - 1)) \<noteq> (n = 0 \<or> n = 2 \<or> n = 3 \<or> n = 4)"
    unfolding xtime_def if_P [OF True] bit_xor_iff bit_1D by (simp add: bit_push_bit_iff del: push_bit_Suc One_nat_def)
  with True show ?thesis by auto
next
  case False
  have "bit (xtime z) n \<longleftrightarrow> 1 \<le> n \<and> n < 8 \<and> bit z (n - 1)"
    unfolding xtime_def if_not_P [OF False] by (simp add: bit_push_bit_iff del: push_bit_Suc One_nat_def)
  with False show ?thesis by auto
qed

lemma xtime_xor: "xtime (a XOR b) = xtime a XOR xtime b"
  by (rule bit_word_eqI) (auto simp: bit_xtime bit_xor_iff)

lemma xtime_0 [simp]: "xtime 0 = 0"
  by (simp add: xtime_def)

lemma xtime_pow_xor: "(xtime ^^ n) (a XOR b) = (xtime ^^ n) a XOR (xtime ^^ n) b"
  by (induction n) (simp_all add: xtime_xor)

lemma xtime_pow_0 [simp]: "(xtime ^^ n) 0 = 0"
  by (induction n) simp_all

lemma xor_swap: "(a XOR b) XOR (c XOR d) = (a XOR c) XOR (b XOR d)" for a :: byte
  by (simp add: xor.assoc xor.left_commute)

lemma gf_sum_xor: "gf_sum (a XOR b) y n = gf_sum a y n XOR gf_sum b y n"
  by (induction n) (simp_all add: xtime_pow_xor xor.assoc xor.left_commute)

lemma gf_sum_xtime: "gf_sum (xtime x) y n = xtime (gf_sum x y n)"
  by (induction n) (simp_all add: xtime_xor funpow_swap1)

lemma gf_sum_0 [simp]: "gf_sum 0 y n = 0" "gf_sum x 0 n = 0"
  by (induction n) simp_all

lemma gf_sum_one: "gf_sum 1 y 8 = y"
proof -
  have "list_all (\<lambda>i. (xtime ^^ i) 1 = 2 ^ i) [0..<8]" by code_simp
  then have x: "i < 8 \<Longrightarrow> (xtime ^^ i) 1 = 2 ^ i" for i by (simp add: list_all_iff)
  have "n \<le> 8 \<Longrightarrow> bit (gf_sum 1 y n) k \<longleftrightarrow> k < n \<and> bit y k" for n k
  proof (induction n)
    case (Suc n)
    then show ?case
      by (auto simp: bit_xor_iff x bit_exp_iff less_Suc_eq)
  qed simp
  then show ?thesis using bit_byte_beyond by (intro bit_word_eqI) auto
qed

lemma gf_mul_laws:
  "gf_mul (a XOR b) y = gf_mul a y XOR gf_mul b y" "gf_mul 0 y = 0" "gf_mul 1 y = y"
  by (simp_all add: gf_mul_def gf_sum_xor gf_sum_one)

lemma gf_mul_pow: "gf_mul ((xtime ^^ n) x) y = (xtime ^^ n) (gf_mul x y)"
  by (induction n) (simp_all add: gf_mul_def gf_sum_xtime)

lemma gf_mul_sum: "gf_mul (gf_sum x y n) z = gf_sum (gf_mul x z) y n"
  by (induction n) (simp_all add: gf_mul_laws gf_mul_pow)

lemma gf_mul_commute: "gf_mul x y = gf_mul y x"
  using gf_mul_sum [of 1 x 8 y] by (simp add: gf_sum_one gf_mul_laws) (simp add: gf_mul_def)

lemma gf_mul_assoc: "gf_mul (gf_mul x y) z = gf_mul x (gf_mul y z)"
proof -
  have swap: "gf_mul (gf_mul a b) c = gf_mul (gf_mul a c) b" for a b c
    using gf_mul_sum [of a b 8 c] by (simp add: gf_mul_def)
  show ?thesis
    using swap [of y x z] by (simp add: gf_mul_commute)
qed

text \<open>The Russian peasant loop of the code computes this product.\<close>

definition peasant :: "byte \<Rightarrow> byte \<Rightarrow> nat \<Rightarrow> u32 \<Rightarrow> u32" where
  "peasant x y i z =
     (let z = push_bit 1 z XOR (drop_bit 7 z * 0x11D)
      in z XOR ((drop_bit i (ucast y) AND 1) * ucast x))"

lemma bit_11D: "bit (0x11D :: u32) n \<longleftrightarrow> n = 0 \<or> n = 2 \<or> n = 3 \<or> n = 4 \<or> n = 8"
proof (cases "n < 32")
  case True
  have "list_all (\<lambda>n. bit (0x11D :: u32) n \<longleftrightarrow> n = 0 \<or> n = 2 \<or> n = 3 \<or> n = 4 \<or> n = 8) [0..<32]"
    by code_simp
  with True show ?thesis by (simp add: list_all_iff)
next
  case False
  then show ?thesis using bit_imp_le_length [of "0x11D :: u32" n] by auto
qed

lemma peasant_step:
  fixes w :: byte
  shows "push_bit 1 (ucast w :: u32) XOR (drop_bit 7 (ucast w) * 0x11D) = ucast (xtime w)"
proof -
  have beyond: "bit w m \<Longrightarrow> m < 8" for m using bit_byte_beyond [of m w] by force
  have d: "drop_bit 7 (ucast w :: u32) = (if bit w 7 then 1 else 0)"
  proof (rule bit_word_eqI)
    fix n
    have "bit w (7 + n) \<longleftrightarrow> n = 0 \<and> bit w 7"
      using beyond [of "7 + n"] by (cases n) auto
    then show "bit (drop_bit 7 (ucast w :: u32)) n = bit (if bit w 7 then 1 else 0 :: u32) n"
      by (auto simp: bit_drop_bit_eq bit_ucast_iff)
  qed
  have p: "bit (push_bit 1 (ucast w :: u32)) n \<longleftrightarrow> 1 \<le> n \<and> bit w (n - 1)" for n
    using beyond [of "n - 1"] by (auto simp: bit_push_bit_iff bit_ucast_iff simp del: push_bit_Suc One_nat_def)
  have x: "bit (ucast (xtime w) :: u32) n \<longleftrightarrow> bit (xtime w) n" for n
    by (auto simp: bit_ucast_iff bit_xtime)
  show ?thesis
  proof (cases "bit w 7")
    case True
    have "bit (push_bit 1 (ucast w :: u32) XOR 0x11D) n = bit (ucast (xtime w) :: u32) n" for n
      unfolding bit_xor_iff bit_11D p x bit_xtime using True beyond [of "n - 1"]
      by (cases "n = 8") auto
    with True show ?thesis unfolding d by (simp add: bit_eq_iff)
  next
    case False
    have "bit (push_bit 1 (ucast w :: u32)) n = bit (ucast (xtime w) :: u32) n" for n
      unfolding p x bit_xtime using False beyond [of "n - 1"] by (cases "n = 8") auto
    with False show ?thesis unfolding d by (simp add: bit_eq_iff)
  qed
qed

lemma peasant_ucast: "peasant x y n (ucast w) = ucast (xtime w XOR (if bit y n then x else 0))"
proof -
  have "drop_bit n (ucast y :: u32) AND 1 = (if bit y n then 1 else 0)"
    using less_trans [of n 8 32] bit_byte_beyond [of n y]
    by (cases "n < 8") (auto simp: and_one_eq odd_iff_mod_2_eq_one [symmetric] bit_iff_odd_drop_bit [symmetric] bit_ucast_iff
        intro!: bit_word_eqI simp: bit_and_iff bit_drop_bit_eq)
  then show ?thesis
    unfolding peasant_def Let_def peasant_step by (simp add: unsigned_xor_eq)
qed

lemma peasant_loop:
  "fold (peasant x y) (rev [0..<n]) (ucast w) = ucast ((xtime ^^ n) w XOR gf_sum x y n)"
proof (induction n arbitrary: w)
  case (Suc n)
  then show ?case
    by (simp add: peasant_ucast xtime_pow_xor funpow_swap1 xor.assoc xor.left_commute xor.commute)
qed simp

lemma reedSolomonMultiply_gf: "reedSolomonMultiply x y = gf_mul x y"
proof -
  have u: "ucast (ucast b :: u32) = b" for b :: byte
    by (rule bit_word_eqI) (simp add: bit_ucast_iff)
  have "reedSolomonMultiply x y = ucast (fold (peasant x y) (rev [0..<8]) (ucast (0 :: byte)))"
    unfolding reedSolomonMultiply_def peasant_def by simp
  then show ?thesis unfolding peasant_loop gf_mul_def by (simp add: u)
qed

section \<open>Polynomials over the field\<close>

text \<open>
  What the encoder needs of the multiplication, and what follows for the polynomials it
  computes with. A polynomial is the list of its coefficients, the highest first.
\<close>

fun gpow :: "(byte \<Rightarrow> byte \<Rightarrow> byte) \<Rightarrow> byte \<Rightarrow> nat \<Rightarrow> byte" where
  "gpow mul b 0 = 1"
| "gpow mul b (Suc n) = mul b (gpow mul b n)"

fun geval :: "(byte \<Rightarrow> byte \<Rightarrow> byte) \<Rightarrow> byte \<Rightarrow> bytes \<Rightarrow> byte" where
  "geval mul b [] = 0"
| "geval mul b (c # cs) = mul c (gpow mul b (length cs)) XOR geval mul b cs"

fun gprod :: "(byte \<Rightarrow> byte \<Rightarrow> byte) \<Rightarrow> byte \<Rightarrow> nat \<Rightarrow> byte" where
  "gprod mul b 0 = 1"
| "gprod mul b (Suc k) = mul (gpow mul 2 k XOR b) (gprod mul b k)"

locale gf_field =
  fixes mul :: "byte \<Rightarrow> byte \<Rightarrow> byte"
  assumes mul_commute: "mul x y = mul y x"
    and mul_assoc: "mul (mul x y) z = mul x (mul y z)"
    and mul_xor: "mul (x XOR y) z = mul x z XOR mul y z"
    and mul_one: "mul 1 x = x"
begin

lemma mul_xor_right: "mul z (x XOR y) = mul z x XOR mul z y"
  using mul_xor [of x y z] by (simp add: mul_commute)

lemma mul_zero: "mul 0 x = 0" "mul x 0 = 0"
proof -
  show "mul 0 x = 0" using mul_xor [of 0 0 x] by simp
  then show "mul x 0 = 0" by (simp add: mul_commute)
qed

lemma gpow_add: "gpow mul b (m + n) = mul (gpow mul b m) (gpow mul b n)"
  by (induction m) (simp_all add: mul_one mul_assoc)

lemma geval_append: "geval mul b (p @ q) = mul (geval mul b p) (gpow mul b (length q)) XOR geval mul b q"
  by (induction p) (simp_all add: mul_zero mul_xor mul_assoc gpow_add xor.assoc)

lemma geval_zeros: "geval mul b (replicate n 0) = 0" "geval mul b (replicate n 0 @ p) = geval mul b p"
  by (induction n) (simp_all add: mul_zero)

lemma geval_map2:
  "length xs = length ds \<Longrightarrow>
   geval mul b (map2 (\<lambda>x d. x XOR mul d f) xs ds) = geval mul b xs XOR mul (geval mul b ds) f"
proof (induction xs ds rule: list_induct2)
  case (Cons x xs d ds)
  have "mul (mul d f) (gpow mul b (length ds)) = mul (mul d (gpow mul b (length ds))) f"
    by (metis mul_assoc mul_commute)
  with Cons show ?case
    by (simp add: mul_xor xor.assoc xor.left_commute)
qed (simp add: mul_zero)

lemma gprod_root: "k < n \<Longrightarrow> gprod mul (gpow mul 2 k) n = 0"
  by (induction n) (auto simp: less_Suc_eq mul_zero)

end

interpretation rs: gf_field reedSolomonMultiply
proof (unfold_locales, unfold reedSolomonMultiply_gf)
  show "gf_mul x y = gf_mul y x" for x y by (rule gf_mul_commute)
  show "gf_mul (gf_mul x y) z = gf_mul x (gf_mul y z)" for x y z by (rule gf_mul_assoc)
  show "gf_mul (x XOR y) z = gf_mul x z XOR gf_mul y z" "gf_mul 1 x = x" for x y z
    by (simp_all add: gf_mul_laws)
qed

section \<open>Divisor and remainder\<close>

lemma multiply_root_map2:
  "xs \<noteq> [] \<Longrightarrow> multiply_root r xs = map2 (\<lambda>b a. b XOR reedSolomonMultiply a r) (tl xs @ [0]) xs"
  by (induction r xs rule: multiply_root.induct) (simp_all add: xor.commute)

lemma length_multiply_root [simp]: "length (multiply_root r xs) = length xs"
  by (induction r xs rule: multiply_root.induct) simp_all

lemma geval_multiply_root:
  "geval reedSolomonMultiply b (multiply_root r (a # t))
     = reedSolomonMultiply (r XOR b) (geval reedSolomonMultiply b (a # t))
       XOR reedSolomonMultiply a (gpow reedSolomonMultiply b (length (a # t)))"
proof -
  let ?m = reedSolomonMultiply
  let ?e = "geval ?m b (a # t)" and ?A = "?m (?m a (gpow ?m b (length t))) b"
  have "geval ?m b (multiply_root r (a # t)) = geval ?m b (t @ [0]) XOR ?m ?e r"
    using rs.geval_map2 [of "t @ [0]" "a # t" b r] multiply_root_map2 [of "a # t" r] by simp
  also have "geval ?m b (t @ [0]) = ?m (geval ?m b t) b"
    by (simp add: rs.geval_append rs.mul_zero rs.mul_one rs.mul_commute [of b])
  also have "?m ?e b = ?A XOR ?m (geval ?m b t) b"
    by (simp add: rs.mul_xor)
  then have "?m (geval ?m b t) b = ?m ?e b XOR ?A" by (simp add: xor.assoc xor.commute xor.left_commute)
  moreover have "?A = ?m a (gpow ?m b (length (a # t)))"
    by (simp add: rs.mul_assoc rs.mul_commute [of b])
  moreover have "?m (r XOR b) ?e = ?m ?e b XOR ?m ?e r"
    by (simp only: rs.mul_xor rs.mul_commute [of r] rs.mul_commute [of b] xor.commute)
  ultimately show ?thesis by (simp only: xor.assoc xor.commute xor.left_commute)
qed

lemma multiply_root_shape:
  "\<exists>rest'. multiply_root r (replicate (Suc m) 0 @ 1 # rest) = replicate m 0 @ 1 # rest'
     \<and> length rest' = Suc (length rest)"
proof (induction m)
  case 0
  show ?case by (cases rest) (auto simp: rs.mul_zero)
next
  case (Suc m)
  then show ?case by (auto simp: rs.mul_zero)
qed

abbreviation div_step :: "bytes \<times> byte \<Rightarrow> bytes \<times> byte" where
  "div_step \<equiv> \<lambda>(result, rt). (multiply_root rt result, reedSolomonMultiply rt 0x02)"

lemma divisor_loop:
  assumes "i < n"
  shows "\<exists>rest. (div_step ^^ i) (replicate (n - 1) 0 @ [1], 1)
      = (replicate (n - 1 - i) 0 @ 1 # rest, gpow reedSolomonMultiply 2 i) \<and> length rest = i
      \<and> (\<forall>b. geval reedSolomonMultiply b (1 # rest) = gprod reedSolomonMultiply b i)"
  using assms
proof (induction i)
  case 0
  then show ?case by (simp add: rs.mul_one)
next
  case (Suc i)
  let ?m = reedSolomonMultiply and ?r = "gpow reedSolomonMultiply 2 i"
  from Suc obtain rest where r: "(div_step ^^ i) (replicate (n - 1) 0 @ [1], 1)
      = (replicate (n - 1 - i) 0 @ 1 # rest, ?r)" "length rest = i"
    and ev: "\<And>b. geval ?m b (1 # rest) = gprod ?m b i" by auto
  have k: "n - 1 - i = Suc (n - 1 - Suc i)" using Suc.prems by simp
  obtain rest' where s: "multiply_root ?r (replicate (n - 1 - i) 0 @ 1 # rest)
      = replicate (n - 1 - Suc i) 0 @ 1 # rest'" "length rest' = Suc i"
    using multiply_root_shape [of ?r "n - 1 - Suc i" rest] k r(2) by metis
  have "geval ?m b (1 # rest') = gprod ?m b (Suc i)" for b
  proof -
    have "geval ?m b (1 # rest') = geval ?m b (multiply_root ?r (0 # replicate (n - 1 - Suc i) 0 @ 1 # rest))"
      using s(1) k rs.geval_zeros(2) by simp
    also have "\<dots> = ?m (?r XOR b) (geval ?m b (0 # replicate (n - 1 - Suc i) 0 @ 1 # rest))"
      by (subst geval_multiply_root) (simp add: rs.mul_zero)
    also have "geval ?m b (0 # replicate (n - 1 - Suc i) 0 @ 1 # rest) = gprod ?m b i"
      using ev [of b] rs.geval_zeros(2) [of b "n - 1 - i" "1 # rest"] k by simp
    finally show ?thesis by simp
  qed
  moreover have "?m ?r 2 = gpow ?m 2 (Suc i)" by (simp add: rs.mul_commute)
  ultimately show ?case using r s by simp
qed

lemma divisor_roots:
  assumes "reedSolomonComputeDivisor degree = Inr D"
  shows "length D = nat degree \<and> 0 < nat degree \<and>
    (\<forall>b. gpow reedSolomonMultiply b (nat degree) XOR geval reedSolomonMultiply b D
       = gprod reedSolomonMultiply b (nat degree))"
proof -
  let ?m = reedSolomonMultiply
  obtain n where n: "nat degree = Suc n" and D: "D = fst ((div_step ^^ Suc n) (replicate n 0 @ [1], 1))"
    using assms by (cases "nat degree") (auto simp: reedSolomonComputeDivisor_def split: if_splits)
  obtain rest where r: "(div_step ^^ n) (replicate n 0 @ [1], 1) = (1 # rest, gpow ?m 2 n)" "length rest = n"
    and ev: "\<And>b. geval ?m b (1 # rest) = gprod ?m b n"
    using divisor_loop [of n "Suc n"] by auto
  have D': "D = multiply_root (gpow ?m 2 n) (1 # rest)" using D r(1) by simp
  have "gpow ?m b (Suc n) XOR geval ?m b D = gprod ?m b (Suc n)" for b
    unfolding D' geval_multiply_root ev
    by (simp add: r(2) rs.mul_one xor.left_commute [of "?m b _"])
  then show ?thesis using n D' r(2) by simp
qed

lemma remainder_step_eval:
  assumes "remainder_step D c R = Inr R'" "length R = length D"
    and root: "gpow reedSolomonMultiply b (length D) = geval reedSolomonMultiply b D"
  shows "length R' = length D \<and> geval reedSolomonMultiply b R' =
    reedSolomonMultiply (geval reedSolomonMultiply b R) b
      XOR reedSolomonMultiply c (gpow reedSolomonMultiply b (length D))"
proof -
  let ?m = reedSolomonMultiply
  obtain r R1 where R: "R = r # R1" and R': "R' = map2 (\<lambda>x d. x XOR ?m d (c XOR r)) (R1 @ [0]) D"
    using assms(1) by (cases R) (auto simp: Let_def)
  have l: "length (R1 @ [0 :: byte]) = length D" using assms(2) R by simp
  let ?B = "gpow ?m b (length D)"
  have "geval ?m b R' = geval ?m b (R1 @ [0]) XOR ?m ?B (c XOR r)"
    unfolding R' rs.geval_map2 [OF l] root ..
  also have "geval ?m b (R1 @ [0]) = ?m (geval ?m b R1) b"
    by (simp add: rs.geval_append rs.mul_zero rs.mul_one rs.mul_commute [of b])
  also have "?m ?B (c XOR r) = ?m c ?B XOR ?m r ?B"
    by (simp add: rs.mul_commute [of ?B] rs.mul_xor)
  also have "?m r ?B = ?m (?m r (gpow ?m b (length R1))) b"
    using l by (simp add: rs.mul_assoc rs.mul_commute [of b] flip: l)
  finally show ?thesis
    using l R' R by (simp add: rs.mul_xor xor.assoc xor.commute xor.left_commute)
qed

lemma remainder_eval:
  assumes "fold_res (remainder_step D) data R = Inr R'" "length R = length D"
    and root: "gpow reedSolomonMultiply b (length D) = geval reedSolomonMultiply b D"
  shows "length R' = length D \<and> geval reedSolomonMultiply b R' =
    reedSolomonMultiply (geval reedSolomonMultiply b R) (gpow reedSolomonMultiply b (length data))
      XOR reedSolomonMultiply (geval reedSolomonMultiply b data) (gpow reedSolomonMultiply b (length D))"
  using assms(1,2)
proof (induction data arbitrary: R)
  case Nil
  then show ?case by (simp add: rs.mul_zero rs.mul_one rs.mul_commute [of _ 1])
next
  case (Cons c data)
  let ?m = reedSolomonMultiply and ?B = "gpow reedSolomonMultiply b (length D)"
  obtain R1 where R1: "remainder_step D c R = Inr R1" "fold_res (remainder_step D) data R1 = Inr R'"
    using Cons.prems(1) by (auto simp: bind_res_Inr_iff)
  note s = remainder_step_eval [OF R1(1) Cons.prems(2) root]
  have "geval ?m b R' = ?m (?m (geval ?m b R) b XOR ?m c ?B) (gpow ?m b (length data))
      XOR ?m (geval ?m b data) ?B"
    using Cons.IH [OF R1(2)] s by simp
  also have "?m (?m c ?B) (gpow ?m b (length data)) = ?m (?m c (gpow ?m b (length data))) ?B"
    by (metis rs.mul_assoc rs.mul_commute)
  then have "?m (?m (geval ?m b R) b XOR ?m c ?B) (gpow ?m b (length data))
      = ?m (geval ?m b R) (gpow ?m b (Suc (length data))) XOR ?m (?m c (gpow ?m b (length data))) ?B"
    by (simp add: rs.mul_xor rs.mul_assoc)
  finally show ?case
    using Cons.IH [OF R1(2)] s by (simp add: rs.mul_xor xor.assoc)
qed

lemma remainder_total:
  assumes "D \<noteq> []"
  shows "\<exists>ecc. reedSolomonComputeRemainder data D = Inr ecc \<and> length ecc = length D"
  unfolding reedSolomonComputeRemainder_def
proof (rule fold_res_inv)
  fix c and R :: bytes assume "length R = length D"
  with assms show "\<exists>R'. remainder_step D c R = Inr R' \<and> length R' = length D"
    by (cases R) (auto simp: Let_def)
qed simp

text \<open>
  Claim C20: the error correction codewords the encoder appends are right: for every degree
  from 1 to 255 the remainder has that length, and the block with the remainder appended is a
  Reed-Solomon codeword, a polynomial over GF(2^8) with the roots 1, 2, ..., 2^(degree-1).
\<close>

theorem reed_solomon_codeword:
  assumes "1 \<le> degree" "degree \<le> 255"
  shows "\<exists>D ecc. reedSolomonComputeDivisor degree = Inr D
    \<and> reedSolomonComputeRemainder data D = Inr ecc \<and> length ecc = nat degree
    \<and> (\<forall>k < nat degree. geval gf_mul (gpow gf_mul 2 k) (data @ ecc) = 0)"
proof -
  let ?m = reedSolomonMultiply
  have gf: "gf_mul = ?m" by (simp add: reedSolomonMultiply_gf fun_eq_iff)
  obtain D where D: "reedSolomonComputeDivisor degree = Inr D"
    using assms by (simp add: reedSolomonComputeDivisor_def)
  note d = divisor_roots [OF D]
  then obtain ecc where e: "reedSolomonComputeRemainder data D = Inr ecc" "length ecc = length D"
    using remainder_total [of D data] by fastforce
  have "geval ?m (gpow ?m 2 k) (data @ ecc) = 0" if k: "k < nat degree" for k
  proof -
    let ?b = "gpow ?m 2 k"
    have "gpow ?m ?b (length D) XOR geval ?m ?b D = 0"
      using d rs.gprod_root [OF k] by simp
    then have "gpow ?m ?b (length D) = geval ?m ?b D" by (simp add: xor_eq_0_iff_word)
    from remainder_eval [OF e(1) [unfolded reedSolomonComputeRemainder_def] _ this]
    have "geval ?m ?b ecc = ?m (geval ?m ?b data) (gpow ?m ?b (length D))"
      by (simp add: rs.geval_zeros rs.mul_zero)
    then show ?thesis using e(2) by (simp add: rs.geval_append)
  qed
  with D e d show ?thesis unfolding gf by auto
qed

theorem reed_solomon_codeword_witness:
  "\<exists>D ecc. reedSolomonComputeDivisor 10 = Inr D
    \<and> reedSolomonComputeRemainder [0x41, 0x14, 0x86, 0x56] D = Inr ecc \<and> length ecc = nat 10
    \<and> (\<forall>k < nat 10. geval gf_mul (gpow gf_mul 2 k) ([0x41, 0x14, 0x86, 0x56] @ ecc) = 0)"
  by (rule reed_solomon_codeword) simp_all

end
