(* ===== verification/Qr_Matrix.thy ===== *)
theory Qr_Matrix
  imports Qr_Codec
begin

text \<open>
  src/otp/QR-Code-generator/qrcodegen.cpp, the class \<open>QrCode\<close>: drawing on the grid of
  modules, masking, the penalty score, and the encoding of a text. The grid is a list of
  rows; \<open>at\<close> outside the grid throws.
\<close>

section \<open>The grid\<close>

type_synonym grid = "bool list list"

record QrCode =
  version :: int
  qsize :: int
  errorCorrectionLevel :: Ecc
  mask :: int
  modules :: grid
  isFunction :: grid

definition grid_at :: "grid \<Rightarrow> int \<Rightarrow> int \<Rightarrow> bool res" where
  "grid_at g x y =
     (if x < 0 \<or> y < 0 then Inl (Out_of_range ''vector::at'')
      else bind_res (vat g (nat y)) (\<lambda>row. vat row (nat x)))"

definition grid_put :: "int \<Rightarrow> int \<Rightarrow> bool \<Rightarrow> grid \<Rightarrow> grid res" where
  "grid_put x y v g =
     (if x < 0 \<or> y < 0 then Inl (Out_of_range ''vector::at'')
      else bind_res (vat g (nat y)) (\<lambda>row.
           bind_res (vput row (nat x) v) (\<lambda>row. vput g (nat y) row)))"

definition setFunctionModule :: "int \<Rightarrow> int \<Rightarrow> bool \<Rightarrow> QrCode \<Rightarrow> QrCode res" where
  "setFunctionModule x y isDark q =
     bind_res (grid_put x y isDark (modules q)) (\<lambda>m.
     bind_res (grid_put x y True (isFunction q)) (\<lambda>f.
     Inr (q\<lparr>modules := m, isFunction := f\<rparr>)))"

definition getBit :: "nat \<Rightarrow> nat \<Rightarrow> bool" where
  "getBit x i = odd (x div 2 ^ i)"

section \<open>Function patterns\<close>

definition drawFinderPattern :: "int \<Rightarrow> int \<Rightarrow> QrCode \<Rightarrow> QrCode res" where
  "drawFinderPattern x y q =
     fold_res (\<lambda>(dy, dx) q.
         let dist = max \<bar>dx\<bar> \<bar>dy\<bar>; xx = x + dx; yy = y + dy
         in if 0 \<le> xx \<and> xx < qsize q \<and> 0 \<le> yy \<and> yy < qsize q
            then setFunctionModule xx yy (dist \<noteq> 2 \<and> dist \<noteq> 4) q
            else Inr q)
       (List.product [-4..4] [-4..4]) q"

definition drawAlignmentPattern :: "int \<Rightarrow> int \<Rightarrow> QrCode \<Rightarrow> QrCode res" where
  "drawAlignmentPattern x y q =
     fold_res (\<lambda>(dy, dx). setFunctionModule (x + dx) (y + dy) (max \<bar>dx\<bar> \<bar>dy\<bar> \<noteq> 1))
       (List.product [-2..2] [-2..2]) q"

definition getAlignmentPatternPositions :: "QrCode \<Rightarrow> int list" where
  "getAlignmentPatternPositions q =
     (if version q = 1 then []
      else let numAlign = version q div 7 + 2;
               step = (if version q = 32 then 26
                       else (version q * 4 + numAlign * 2 + 1) div (numAlign * 2 - 2) * 2)
           in 6 # rev (map (\<lambda>i. qsize q - 7 - int i * step) [0..<nat (numAlign - 1)]))"

definition format_bits :: "nat \<Rightarrow> nat" where
  "format_bits data =
     (let rem = ((\<lambda>rem. push_bit 1 rem XOR (drop_bit 9 rem * 0x537)) ^^ 10) data
      in (push_bit 10 data OR rem) XOR 0x5412)"

definition drawFormatBits :: "int \<Rightarrow> QrCode \<Rightarrow> QrCode res" where
  "drawFormatBits msk q =
     (let data = push_bit 3 (getFormatBits (errorCorrectionLevel q)) OR nat msk;
          bits = format_bits data
      in bind_res (fold_res (\<lambda>i. setFunctionModule 8 (int i) (getBit bits i)) [0..<6] q) (\<lambda>q.
         bind_res (setFunctionModule 8 7 (getBit bits 6) q) (\<lambda>q.
         bind_res (setFunctionModule 8 8 (getBit bits 7) q) (\<lambda>q.
         bind_res (setFunctionModule 7 8 (getBit bits 8) q) (\<lambda>q.
         bind_res (fold_res (\<lambda>i. setFunctionModule (14 - int i) 8 (getBit bits i)) [9..<15] q) (\<lambda>q.
         bind_res (fold_res (\<lambda>i q. setFunctionModule (qsize q - 1 - int i) 8 (getBit bits i) q) [0..<8] q) (\<lambda>q.
         bind_res (fold_res (\<lambda>i q. setFunctionModule 8 (qsize q - 15 + int i) (getBit bits i) q) [8..<15] q) (\<lambda>q.
         setFunctionModule 8 (qsize q - 8) True q))))))))"

definition version_bits :: "nat \<Rightarrow> nat" where
  "version_bits ver =
     (let rem = ((\<lambda>rem. push_bit 1 rem XOR (drop_bit 11 rem * 0x1F25)) ^^ 12) ver
      in push_bit 12 ver OR rem)"

definition drawVersion :: "QrCode \<Rightarrow> QrCode res" where
  "drawVersion q =
     (if version q < 7 then Inr q
      else let bits = version_bits (nat (version q))
           in fold_res (\<lambda>i q.
                  let dark = getBit bits i; a = qsize q - 11 + int (i mod 3); b = int (i div 3)
                  in bind_res (setFunctionModule a b dark q) (setFunctionModule b a dark))
                [0..<18] q)"

definition drawFunctionPatterns :: "QrCode \<Rightarrow> QrCode res" where
  "drawFunctionPatterns q =
     bind_res (fold_res (\<lambda>i q.
         bind_res (setFunctionModule 6 i (i mod 2 = 0) q) (setFunctionModule i 6 (i mod 2 = 0)))
       [0..qsize q - 1] q) (\<lambda>q.
     bind_res (drawFinderPattern 3 3 q) (\<lambda>q.
     bind_res (drawFinderPattern (qsize q - 4) 3 q) (\<lambda>q.
     bind_res (drawFinderPattern 3 (qsize q - 4) q) (\<lambda>q.
     let alignPatPos = getAlignmentPatternPositions q; numAlign = length alignPatPos
     in bind_res (fold_res (\<lambda>(i, j) q.
            if \<not> (i = 0 \<and> j = 0 \<or> i = 0 \<and> j = numAlign - 1 \<or> i = numAlign - 1 \<and> j = 0)
            then drawAlignmentPattern (alignPatPos ! i) (alignPatPos ! j) q
            else Inr q)
          (List.product [0..<numAlign] [0..<numAlign]) q) (\<lambda>q.
     bind_res (drawFormatBits 0 q) drawVersion)))))"

section \<open>Codewords and masks\<close>

text \<open>The right columns of the pairs, skipping the vertical timing pattern.\<close>

function right_columns :: "int \<Rightarrow> int list" where
  "right_columns right =
     (if right \<ge> 1
      then let right = (if right = 6 then 5 else right) in right # right_columns (right - 2)
      else [])"
  by pat_completeness auto
termination by (relation "measure nat") (auto split: if_splits)

declare right_columns.simps [simp del]

definition zigzag :: "int \<Rightarrow> (int \<times> int) list" where
  "zigzag sz =
     concat (map (\<lambda>right. concat (map (\<lambda>vert.
         let upward = \<not> bit (right + 1) 1;
             y = (if upward then sz - 1 - vert else vert)
         in [(right, y), (right - 1, y)])
       [0..sz - 1])) (right_columns (sz - 1)))"

definition draw_bit :: "bytes \<Rightarrow> int \<times> int \<Rightarrow> nat \<times> QrCode \<Rightarrow> (nat \<times> QrCode) res" where
  "draw_bit data = (\<lambda>(x, y) (i, q).
     bind_res (grid_at (isFunction q) x y) (\<lambda>f.
     if \<not> f \<and> i < length data * 8
     then bind_res (vat data (i div 8)) (\<lambda>b.
          bind_res (grid_put x y (getBit (unat b) (7 - i mod 8)) (modules q)) (\<lambda>m.
          Inr (i + 1, q\<lparr>modules := m\<rparr>)))
     else Inr (i, q)))"

definition drawCodewords :: "bytes \<Rightarrow> QrCode \<Rightarrow> QrCode res" where
  "drawCodewords data q =
     bind_res (getNumRawDataModules (version q)) (\<lambda>raw.
     if int (length data) \<noteq> raw div 8 then Inl (Invalid_argument ''Invalid argument'')
     else bind_res (fold_res (draw_bit data) (zigzag (qsize q)) (0, q)) (\<lambda>(i, q). Inr q))"

fun mask_bit :: "nat \<Rightarrow> nat \<Rightarrow> nat \<Rightarrow> bool" where
  "mask_bit msk x y =
     (if msk = 0 then (x + y) mod 2 = 0
      else if msk = 1 then y mod 2 = 0
      else if msk = 2 then x mod 3 = 0
      else if msk = 3 then (x + y) mod 3 = 0
      else if msk = 4 then (x div 3 + y div 2) mod 2 = 0
      else if msk = 5 then x * y mod 2 + x * y mod 3 = 0
      else if msk = 6 then (x * y mod 2 + x * y mod 3) mod 2 = 0
      else ((x + y) mod 2 + x * y mod 3) mod 2 = 0)"

definition applyMask :: "int \<Rightarrow> QrCode \<Rightarrow> QrCode res" where
  "applyMask msk q =
     (if msk < 0 \<or> msk > 7 then Inl (Domain_error ''Mask value out of range'')
      else bind_res (fold_res (\<lambda>(y, x) m.
               bind_res (grid_at m x y) (\<lambda>b.
               bind_res (grid_at (isFunction q) x y) (\<lambda>f.
               grid_put x y (b \<noteq> (mask_bit (nat msk) (nat x) (nat y) \<and> \<not> f)) m)))
             (List.product [0..qsize q - 1] [0..qsize q - 1]) (modules q)) (\<lambda>m.
           Inr (q\<lparr>modules := m\<rparr>)))"

section \<open>Penalty\<close>

definition PENALTY_N1 :: int where "PENALTY_N1 = 3"
definition PENALTY_N2 :: int where "PENALTY_N2 = 3"
definition PENALTY_N3 :: int where "PENALTY_N3 = 40"
definition PENALTY_N4 :: int where "PENALTY_N4 = 10"

text \<open>The run history is the array of the last seven runs, the newest first.\<close>

definition finderPenaltyAddHistory :: "int \<Rightarrow> int \<Rightarrow> int list \<Rightarrow> int list" where
  "finderPenaltyAddHistory sz currentRunLength runHistory =
     (let n = (if runHistory ! 0 = 0 then currentRunLength + sz else currentRunLength)
      in n # butlast runHistory)"

definition finderPenaltyCountPatterns :: "int list \<Rightarrow> int" where
  "finderPenaltyCountPatterns runHistory =
     (let n = runHistory ! 1;
          core = (n > 0 \<and> runHistory ! 2 = n \<and> runHistory ! 3 = n * 3 \<and> runHistory ! 4 = n \<and> runHistory ! 5 = n)
      in (if core \<and> runHistory ! 0 \<ge> n * 4 \<and> runHistory ! 6 \<ge> n then 1 else 0)
         + (if core \<and> runHistory ! 6 \<ge> n * 4 \<and> runHistory ! 0 \<ge> n then 1 else 0))"

definition finderPenaltyTerminateAndCount :: "int \<Rightarrow> bool \<Rightarrow> int \<Rightarrow> int list \<Rightarrow> int" where
  "finderPenaltyTerminateAndCount sz currentRunColor currentRunLength runHistory =
     (let (len, hist) =
            (if currentRunColor then (0, finderPenaltyAddHistory sz currentRunLength runHistory)
             else (currentRunLength, runHistory))
      in finderPenaltyCountPatterns (finderPenaltyAddHistory sz (len + sz) hist))"

text \<open>One row or column: the loop state is the result, the colour and length of the run, and the history.\<close>

definition line_step :: "int \<Rightarrow> bool \<Rightarrow> int \<times> bool \<times> int \<times> int list \<Rightarrow> int \<times> bool \<times> int \<times> int list" where
  "line_step sz color = (\<lambda>(result, runColor, run, hist).
     if color = runColor
     then (let run = run + 1
           in (if run = 5 then result + PENALTY_N1 else if run > 5 then result + 1 else result,
               runColor, run, hist))
     else (let hist = finderPenaltyAddHistory sz run hist
           in (if \<not> runColor then result + finderPenaltyCountPatterns hist * PENALTY_N3 else result,
               color, 1, hist)))"

definition line_penalty :: "int \<Rightarrow> bool list \<Rightarrow> int \<Rightarrow> int" where
  "line_penalty sz line result =
     (let (result, runColor, run, hist) =
            fold (line_step sz) line (result, False, 0, replicate 7 0)
      in result + finderPenaltyTerminateAndCount sz runColor run hist * PENALTY_N3)"

definition module :: "QrCode \<Rightarrow> nat \<Rightarrow> nat \<Rightarrow> bool" where
  "module q x y = modules q ! y ! x"

definition block_penalty :: "QrCode \<Rightarrow> nat \<Rightarrow> nat \<Rightarrow> int" where
  "block_penalty q y x =
     (let color = module q x y
      in if color = module q (x + 1) y \<and> color = module q x (y + 1) \<and> color = module q (x + 1) (y + 1)
         then PENALTY_N2 else 0)"

definition getPenaltyScore :: "QrCode \<Rightarrow> int" where
  "getPenaltyScore q =
     (let n = nat (qsize q);
          result = fold (\<lambda>y. line_penalty (qsize q) (map (\<lambda>x. module q x y) [0..<n])) [0..<n] 0;
          result = fold (\<lambda>x. line_penalty (qsize q) (map (\<lambda>y. module q x y) [0..<n])) [0..<n] result;
          result = result + sum_list (map (\<lambda>(y, x). block_penalty q y x)
                     (List.product [0..<n - 1] [0..<n - 1]));
          dark = int (length (filter (\<lambda>c. c) (concat (modules q))));
          total = qsize q * qsize q;
          k = (\<bar>dark * 20 - total * 10\<bar> + total - 1) div total - 1
      in result + k * PENALTY_N4)"

section \<open>The constructor and the encoders\<close>

definition LONG_MAX :: int where "LONG_MAX = 2 ^ 63 - 1"

definition try_mask :: "int \<Rightarrow> QrCode \<times> int \<times> int \<Rightarrow> (QrCode \<times> int \<times> int) res" where
  "try_mask i = (\<lambda>(q, msk, minPenalty).
     bind_res (applyMask i q) (\<lambda>q.
     bind_res (drawFormatBits i q) (\<lambda>q.
     let penalty = getPenaltyScore q;
         (msk, minPenalty) = (if penalty < minPenalty then (i, penalty) else (msk, minPenalty))
     in bind_res (applyMask i q) (\<lambda>q. Inr (q, msk, minPenalty)))))"

definition QrCode_new :: "int \<Rightarrow> Ecc \<Rightarrow> bytes \<Rightarrow> int \<Rightarrow> QrCode res" where
  "QrCode_new ver ecl data msk =
     (if ver < MIN_VERSION \<or> ver > MAX_VERSION then Inl (Domain_error ''Version value out of range'')
      else if msk < -1 \<or> msk > 7 then Inl (Domain_error ''Mask value out of range'')
      else let sz = ver * 4 + 17;
               blank = replicate (nat sz) (replicate (nat sz) False)
           in bind_res (drawFunctionPatterns
                  \<lparr>version = ver, qsize = sz, errorCorrectionLevel = ecl, mask = 0,
                   modules = blank, isFunction = blank\<rparr>) (\<lambda>q.
              bind_res (addEccAndInterleave ver ecl data) (\<lambda>allCodewords.
              bind_res (drawCodewords allCodewords q) (\<lambda>q.
              bind_res (if msk = -1
                        then bind_res (fold_res try_mask [0..7] (q, msk, LONG_MAX)) (\<lambda>(q, msk, p). Inr (q, msk))
                        else Inr (q, msk)) (\<lambda>(q, msk).
              bind_res (applyMask msk (q\<lparr>mask := msk\<rparr>)) (\<lambda>q.
              bind_res (drawFormatBits msk q) (\<lambda>q.
              Inr (q\<lparr>isFunction := []\<rparr>))))))))"

definition encodeSegments :: "QrSegment list \<Rightarrow> Ecc \<Rightarrow> int \<Rightarrow> int \<Rightarrow> int \<Rightarrow> bool \<Rightarrow> QrCode res" where
  "encodeSegments segs ecl minVersion maxVersion msk boostEcl =
     (if \<not> (MIN_VERSION \<le> minVersion \<and> minVersion \<le> maxVersion \<and> maxVersion \<le> MAX_VERSION)
         \<or> msk < -1 \<or> msk > 7
      then Inl (Invalid_argument ''Invalid value'')
      else bind_res (find_version segs ecl maxVersion minVersion) (\<lambda>(ver, dataUsedBits).
           bind_res (if boostEcl then boost ver dataUsedBits ecl else Inr ecl) (\<lambda>ecl.
           bind_res (dataCodewords segs ver ecl) (\<lambda>data.
           QrCode_new ver ecl data msk))))"

definition encodeText :: "string \<Rightarrow> Ecc \<Rightarrow> QrCode res" where
  "encodeText text ecl =
     bind_res (makeSegments text) (\<lambda>segs. encodeSegments segs ecl 1 40 (-1) True)"

definition encodeBinary :: "bytes \<Rightarrow> Ecc \<Rightarrow> QrCode res" where
  "encodeBinary data ecl =
     bind_res (makeBytes data) (\<lambda>seg. encodeSegments [seg] ecl 1 40 (-1) True)"

definition getModule :: "QrCode \<Rightarrow> int \<Rightarrow> int \<Rightarrow> bool" where
  "getModule q x y =
     (0 \<le> x \<and> x < qsize q \<and> 0 \<le> y \<and> y < qsize q \<and> module q (nat x) (nat y))"

end
