(* ===== verification/Otp_Uri.thy ===== *)
theory Otp_Uri
  imports Regex
begin

text \<open>
  src/otp/otp_uri.cpp: the percent encoding, the query parameters, and the class
  \<open>OTP_URI\<close> with its parser and printer. A \<open>std::map\<close> is a HOL map, a \<open>size_t\<close> a
  natural number (the values stay far below 2^64; where a number is read from text the
  bound is written out).
\<close>

section \<open>Percent encoding\<close>

definition h2d :: "char \<Rightarrow> byte res" where
  "h2d c =
     (if CHR ''0'' \<le> c \<and> c \<le> CHR ''9'' then Inr (of_char c - 48)
      else if CHR ''a'' \<le> c \<and> c \<le> CHR ''f'' then Inr (of_char c + 10 - 97)
      else if CHR ''A'' \<le> c \<and> c \<le> CHR ''F'' then Inr (of_char c + 10 - 65)
      else Inl (Logic_error ''non-hex char''))"

text \<open>
  The characters that are escaped: the controls, the bytes from 0x80 on (negative as a
  \<open>char\<close>) and the list \<open>to_test\<close>. Two lower-case hexadecimal digits follow the percent
  sign.
\<close>

definition to_test :: string where
  "to_test = [CHR 0x22] @ ''<>#%@'' @ ''{}|'' @ [CHR 0x5C] @ ''^~[]'' @ [CHR 0x60] @ '' ?&''"

definition url_special :: "char \<Rightarrow> bool" where
  "url_special c = ((of_char c :: nat) < 32 \<or> (of_char c :: nat) \<ge> 128 \<or> c \<in> set to_test)"

definition hex_digit :: "nat \<Rightarrow> char" where
  "hex_digit n = (if n < 10 then char_of (48 + n) else char_of (87 + n))"

definition hex2 :: "char \<Rightarrow> string" where
  "hex2 c = [hex_digit (of_char c div 16), hex_digit (of_char c mod 16)]"

definition urlencode :: "string \<Rightarrow> string" where
  "urlencode bytes = concat (map (\<lambda>c. if url_special c then CHR ''%'' # hex2 c else [c]) bytes)"

fun urldecode :: "string \<Rightarrow> string res" where
  "urldecode [] = Inr []"
| "urldecode (c # s) =
     (if c \<noteq> CHR ''%'' then bind_res (urldecode s) (\<lambda>d. Inr (c # d))
      else case s of
             a # b # rest \<Rightarrow>
               bind_res (h2d a) (\<lambda>x. bind_res (h2d b) (\<lambda>y.
               bind_res (urldecode rest) (\<lambda>d. Inr (char_of (unat (push_bit 4 x OR y)) # d))))
           | _ \<Rightarrow> Inl (Logic_error ''premature end''))"

section \<open>Query parameters\<close>

text \<open>\<open>find_from c p s\<close> is \<open>s.find(c, p)\<close>; \<open>substr_from\<close> and \<open>substr\<close> are \<open>std::string::substr\<close>.\<close>

definition find_from :: "char \<Rightarrow> nat \<Rightarrow> string \<Rightarrow> nat option" where
  "find_from c p s = (case find_sub [c] (drop p s) of None \<Rightarrow> None | Some k \<Rightarrow> Some (p + k))"

definition substr :: "string \<Rightarrow> nat \<Rightarrow> nat \<Rightarrow> string" where
  "substr s p n = take n (drop p s)"

definition param_at :: "string \<Rightarrow> nat \<Rightarrow> string" where
  "param_at params p =
     (case find_from (CHR ''&'') p params of
        Some at_in_params \<Rightarrow> substr params p (at_in_params - p)
      | None \<Rightarrow> drop p params)"

text \<open>
  One round of the loop: the equals sign is searched in \<open>param\<close> from the offset \<open>p\<close> of
  the parameter within \<open>params\<close>.
\<close>

definition add_param :: "nat \<Rightarrow> string \<Rightarrow> (string \<rightharpoonup> string) \<Rightarrow> (string \<rightharpoonup> string) res" where
  "add_param p param param_map =
     (case find_from (CHR ''='') p param of
        None \<Rightarrow> Inr param_map
      | Some eqsign \<Rightarrow>
          bind_res (urldecode (drop (eqsign + 1) param)) (\<lambda>val.
          if param_map (take eqsign param) \<noteq> None then Inl (Logic_error ''ambiguous parameter'')
          else Inr (param_map(take eqsign param \<mapsto> val))))"

function get_params_loop ::
  "string \<Rightarrow> nat \<Rightarrow> (string \<rightharpoonup> string) \<Rightarrow> (string \<rightharpoonup> string) res" where
  "get_params_loop params p param_map =
     (if p < length params
      then bind_res (add_param p (param_at params p) param_map)
             (get_params_loop params (p + length (param_at params p) + 1))
      else Inr param_map)"
  by pat_completeness auto
termination by (relation "measure (\<lambda>(params, p, param_map). length params - p)") auto

declare get_params_loop.simps [simp del]

definition get_params :: "string \<Rightarrow> (string \<rightharpoonup> string) res" where
  "get_params params =
     (if params = [] then Inr Map.empty else get_params_loop params 0 Map.empty)"

section \<open>OTP_URI\<close>

record OTP_URI =
  uri_type :: string
  uri_account :: string
  uri_secret :: string
  uri_issuer :: string
  uri_algorithm :: string
  uri_digits :: nat
  uri_counter :: nat
  uri_period :: nat

definition OTP_URI_default :: OTP_URI where
  "OTP_URI_default =
     \<lparr>uri_type = '''', uri_account = '''', uri_secret = '''', uri_issuer = '''',
      uri_algorithm = ''SHA1'', uri_digits = 6, uri_counter = 0, uri_period = 30\<rparr>"

text \<open>
  \<open>std::stoul\<close> and \<open>std::stoull\<close> on the 64-bit target: white space, an optional sign, digits;
  a minus sign negates modulo 2^64.
\<close>

definition stoul :: "string \<Rightarrow> nat res" where
  "stoul s =
     (let t = dropWhile is_space s;
          neg = (t \<noteq> [] \<and> hd t = CHR ''-'');
          u = (if t \<noteq> [] \<and> (hd t = CHR ''-'' \<or> hd t = CHR ''+'') then tl t else t);
          ds = takeWhile is_digit u
      in if ds = [] then Inl (Invalid_argument ''stoul'')
         else if dec_val ds \<ge> 2 ^ 64 then Inl (Out_of_range ''stoul'')
         else Inr (nat (if neg then (- dec_val ds) mod 2 ^ 64 else dec_val ds)))"

text \<open>
  The pattern \<open>^otpauth:\/\/(totp|hotp)\/([^\?]*)\?(.*)\<close>. The anchor admits a match at the
  start of the subject only.
\<close>

definition not_qmark :: "char \<Rightarrow> bool" where "not_qmark c = (c \<noteq> CHR ''?'')"

definition uri_pattern :: re where
  "uri_pattern =
     seqs [lit ''otpauth://'', Grp 1 (Alt (lit ''totp'') (lit ''hotp'')), lit ''/'',
           Grp 2 (Star True (Cls not_qmark)), lit ''?'', Grp 3 (Star True (Cls not_eol))]"

definition uri_match :: "string \<Rightarrow> caps option" where
  "uri_match uri =
     (case re_run uri_pattern uri (\<lambda>n. None) of [] \<Rightarrow> None | (rest, c) # _ \<Rightarrow> Some c)"

definition parse_label :: "string \<Rightarrow> OTP_URI \<Rightarrow> OTP_URI" where
  "parse_label label u =
     (case find_sub '':'' label of
        None \<Rightarrow> u\<lparr>uri_account := label\<rparr>
      | Some colon \<Rightarrow> u\<lparr>uri_issuer := take colon label, uri_account := drop (colon + 1) label\<rparr>)"

definition parse_issuer :: "(string \<rightharpoonup> string) \<Rightarrow> OTP_URI \<Rightarrow> OTP_URI res" where
  "parse_issuer params u =
     (case params ''issuer'' of
        None \<Rightarrow> Inr u
      | Some param_issuer \<Rightarrow>
          if uri_issuer u \<noteq> [] \<and> uri_issuer u \<noteq> param_issuer
          then Inl (Logic_error ''ambiguous issuer'')
          else Inr (u\<lparr>uri_issuer := param_issuer\<rparr>))"

definition parse_secret :: "(string \<rightharpoonup> string) \<Rightarrow> OTP_URI \<Rightarrow> OTP_URI res" where
  "parse_secret params u =
     (case params ''secret'' of
        None \<Rightarrow> Inl (Logic_error ''secret missing'')
      | Some s \<Rightarrow> Inr (u\<lparr>uri_secret := s\<rparr>))"

definition parse_optional :: "(string \<rightharpoonup> string) \<Rightarrow> OTP_URI \<Rightarrow> OTP_URI res" where
  "parse_optional params u =
     bind_res (case params ''algorithm'' of
                 None \<Rightarrow> Inr u
               | Some a \<Rightarrow> Inr (u\<lparr>uri_algorithm := a\<rparr>)) (\<lambda>u.
     bind_res (case params ''digits'' of
                 None \<Rightarrow> Inr u
               | Some d \<Rightarrow> bind_res (stoul d) (\<lambda>n. Inr (u\<lparr>uri_digits := n\<rparr>))) (\<lambda>u.
     bind_res (case params ''counter'' of
                 None \<Rightarrow> if uri_type u = ''hotp'' then Inl (Logic_error ''missing counter'') else Inr u
               | Some d \<Rightarrow> bind_res (stoul d) (\<lambda>n. Inr (u\<lparr>uri_counter := n\<rparr>))) (\<lambda>u.
     case params ''period'' of
       None \<Rightarrow> Inr u
     | Some d \<Rightarrow> bind_res (stoul d) (\<lambda>n. Inr (u\<lparr>uri_period := n\<rparr>)))))"

definition parse_uri :: "string \<Rightarrow> OTP_URI \<Rightarrow> OTP_URI res" where
  "parse_uri uri u =
     (case uri_match uri of
        None \<Rightarrow> Inl (Logic_error ''uri not match'')
      | Some c \<Rightarrow>
          bind_res (urldecode (cap c 2)) (\<lambda>label.
          bind_res (get_params (cap c 3)) (\<lambda>params.
          bind_res (parse_issuer params (parse_label label (u\<lparr>uri_type := cap c 1\<rparr>))) (\<lambda>u.
          bind_res (parse_secret params u) (\<lambda>u.
          parse_optional params u)))))"

definition OTP_URI_of :: "string \<Rightarrow> OTP_URI res" where
  "OTP_URI_of uri = parse_uri uri OTP_URI_default"

definition get_uri :: "OTP_URI \<Rightarrow> string" where
  "get_uri u =
     (if uri_issuer u = [] \<or> uri_account u = [] \<or> uri_type u = [] then ''''
      else let cissuer = urlencode (uri_issuer u);
               secret = urlencode (uri_secret u);
               digest = urlencode (uri_algorithm u);
               args = ''?secret='' @ secret @ ''&issuer='' @ cissuer @ ''&algorithm='' @ digest
                        @ ''&digits='' @ dec_nat (uri_digits u);
               args = (if uri_type u = ''hotp'' then args @ ''&counter='' @ dec_nat (uri_counter u) else args);
               args = (if uri_type u = ''totp'' then args @ ''&period='' @ dec_nat (uri_period u) else args)
           in ''otpauth://'' @ uri_type u @ ''/'' @ cissuer @ '':'' @ urlencode (uri_account u) @ args)"

definition print_uri :: "OTP_URI \<Rightarrow> string" where
  "print_uri obj =
     ''type: '' @ uri_type obj @ [CHR 0x0A] @ ''account: '' @ uri_account obj @ [CHR 0x0A]
     @ ''secret: '' @ uri_secret obj @ [CHR 0x0A] @ ''issuer: '' @ uri_issuer obj @ [CHR 0x0A]
     @ ''algorithm: '' @ uri_algorithm obj @ [CHR 0x0A] @ ''digits: '' @ dec_nat (uri_digits obj) @ [CHR 0x0A]
     @ ''counter: '' @ dec_nat (uri_counter obj) @ [CHR 0x0A] @ ''period: '' @ dec_nat (uri_period obj) @ [CHR 0x0A]"

section \<open>Percent encoding: lemmas\<close>

lemma h2d_hex_digit: "n < 16 \<Longrightarrow> h2d (hex_digit n) = Inr (of_nat n)"
proof -
  have "list_all (\<lambda>n. h2d (hex_digit n) = Inr (of_nat n)) [0..<16]" by code_simp
  then show "n < 16 \<Longrightarrow> h2d (hex_digit n) = Inr (of_nat n)" by (simp add: list_all_iff)
qed

lemma nibbles: "k < 256 \<Longrightarrow> unat (push_bit 4 (of_nat (k div 16) :: byte) OR of_nat (k mod 16)) = k"
proof -
  assume k: "k < 256"
  have "push_bit 4 (k div 16) OR (k mod 16) = push_bit 4 (drop_bit 4 k) OR take_bit 4 k"
    by (simp add: drop_bit_eq_div take_bit_eq_mod)
  also have "\<dots> = k"
    by (rule bit_eqI) (auto simp: bit_or_iff bit_push_bit_iff bit_drop_bit_eq bit_take_bit_iff)
  finally have "push_bit 4 (of_nat (k div 16) :: byte) OR of_nat (k mod 16) = of_nat k"
    by (simp only: push_bit_of_nat of_nat_or_eq [symmetric])
  with k show ?thesis by (simp add: unat_of_nat)
qed

lemma char_div_16: "(of_char c :: nat) div 16 < 16"
  using nat_of_char_less_256 [of c] by (intro less_mult_imp_div_less) simp

lemma percent_special: "url_special (CHR ''%'')"
  by code_simp

lemma urldecode_hex2:
  "urldecode (CHR ''%'' # hex2 c @ s) = bind_res (urldecode s) (\<lambda>d. Inr (c # d))"
proof -
  have c: "(of_char c :: nat) < 256" by (rule nat_of_char_less_256)
  show ?thesis
    using nibbles [OF c] char_div_16 [of c] by (simp add: hex2_def h2d_hex_digit)
qed

lemma urlencode_simps [simp]:
  "urlencode [] = []"
  "urlencode (c # s) = (if url_special c then CHR ''%'' # hex2 c else [c]) @ urlencode s"
  by (simp_all add: urlencode_def)

lemma urldecode_urlencode_append:
  "urldecode (urlencode s @ t) = bind_res (urldecode t) (\<lambda>d. Inr (s @ d))"
proof (induction s)
  case Nil
  show ?case by (cases "urldecode t") simp_all
next
  case (Cons c s)
  show ?case
  proof (cases "url_special c")
    case True
    have "urldecode (urlencode (c # s) @ t) = urldecode (CHR ''%'' # hex2 c @ urlencode s @ t)"
      using True by simp
    also have "\<dots> = bind_res (urldecode t) (\<lambda>d. Inr ((c # s) @ d))"
      unfolding urldecode_hex2 Cons by (simp add: bind_res_assoc)
    finally show ?thesis .
  next
    case False
    then have "c \<noteq> CHR ''%''" using percent_special by blast
    with False Cons show ?thesis by (simp add: bind_res_assoc)
  qed
qed

lemma hex_digit_plain: "n < 16 \<Longrightarrow> hex_digit n \<noteq> CHR ''?'' \<and> hex_digit n \<noteq> CHR ''&'' \<and>
    hex_digit n \<noteq> CHR ''='' \<and> hex_digit n \<noteq> CHR '':'' \<and> not_eol (hex_digit n)"
proof -
  have "list_all (\<lambda>n. hex_digit n \<noteq> CHR ''?'' \<and> hex_digit n \<noteq> CHR ''&'' \<and>
    hex_digit n \<noteq> CHR ''='' \<and> hex_digit n \<noteq> CHR '':'' \<and> not_eol (hex_digit n)) [0..<16]" by code_simp
  then show "n < 16 \<Longrightarrow> ?thesis" by (simp add: list_all_iff)
qed

lemma plain_char: "\<not> url_special c \<Longrightarrow> c \<noteq> CHR ''?'' \<and> c \<noteq> CHR ''&'' \<and> not_eol c"
proof -
  have "url_special (CHR ''?'')" "url_special (CHR ''&'')"
    "url_special (CHR 0x0A)" "url_special (CHR 0x0D)"
    by code_simp+
  then show "\<not> url_special c \<Longrightarrow> c \<noteq> CHR ''?'' \<and> c \<noteq> CHR ''&'' \<and> not_eol c"
    unfolding not_eol_def by blast
qed

lemma hex2_plain:
  "x \<in> set (hex2 c) \<Longrightarrow> x \<noteq> CHR ''?'' \<and> x \<noteq> CHR ''&'' \<and> x \<noteq> CHR ''='' \<and> not_eol x"
  using hex_digit_plain [OF char_div_16, of c] hex_digit_plain [of "of_char c mod 16"]
  by (auto simp: hex2_def)

lemma urlencode_plain:
  "x \<in> set (urlencode s) \<Longrightarrow> x \<noteq> CHR ''?'' \<and> x \<noteq> CHR ''&'' \<and> not_eol x"
proof (induction s)
  case (Cons c s)
  then show ?case
    using hex2_plain [of x c] plain_char [of c]
    by (auto split: if_splits simp: not_eol_def)
qed simp

lemma urlencode_no_eq:
  "CHR ''='' \<notin> set s \<Longrightarrow> CHR ''='' \<notin> set (urlencode s)"
  using hex2_plain by (induction s) auto

section \<open>The first match of the pattern\<close>

lemma re_run_Seq_first:
  assumes "re_run a s c = (s1, c1) # r1" "re_run b s1 c1 = (s2, c2) # r2"
  shows "\<exists>r. re_run (Seq a b) s c = (s2, c2) # r"
  using assms by simp

lemma re_run_Grp_first:
  assumes "re_run a s c = (s1, c1) # r1"
  shows "\<exists>r. re_run (Grp n a) s c = (s1, c1(n \<mapsto> take (length s - length s1) s)) # r"
  using assms by simp

lemma re_run_Star_first:
  "\<exists>r. re_run (Star True (Cls p)) s c = (dropWhile p s, c) # r"
proof (induction s)
  case (Cons x s)
  then show ?case by (auto simp: re_run.simps(5) [of _ _ "x # s"] Let_def)
qed (simp add: re_run.simps(5))

lemma re_run_lit_first:
  "re_run (lit w) (w @ s) c = (s, c) # []"
  by (simp add: re_run_lit)

lemma uri_match_shape:
  assumes ty: "ty = ''totp'' \<or> ty = ''hotp''"
    and label: "\<forall>x\<in>set label. not_qmark x"
    and query: "\<forall>x\<in>set query. not_eol x"
  shows "\<exists>c. uri_match (''otpauth://'' @ ty @ ''/'' @ label @ ''?'' @ query) = Some c \<and>
    cap c 1 = ty \<and> cap c 2 = label \<and> cap c 3 = query"
proof -
  let ?s3 = "''?'' @ query" and ?s2 = "''/'' @ label @ ''?'' @ query"
  let ?c0 = "(\<lambda>n. None) :: caps"
  let ?c1 = "?c0(1 \<mapsto> ty)" let ?c2 = "?c1(2 \<mapsto> label)" let ?c3 = "?c2(3 \<mapsto> query)"
  have q: "dropWhile not_eol query = []" "dropWhile not_qmark (label @ ?s3) = ?s3"
    using label query by (auto simp: dropWhile_append not_qmark_def)
  obtain r5 where "re_run (Star True (Cls not_eol)) query ?c2 = ([], ?c2) # r5"
    using re_run_Star_first [of not_eol query ?c2] q by auto
  from re_run_Grp_first [OF this, of 3]
  obtain r5' where r5: "re_run (Grp 3 (Star True (Cls not_eol))) query ?c2 = ([], ?c3) # r5'"
    by auto
  then have "\<exists>r. re_run (seqs [Grp 3 (Star True (Cls not_eol))]) query ?c2 = ([], ?c3) # r"
    by simp
  then obtain r4 where r4: "re_run (seqs [lit ''?'', Grp 3 (Star True (Cls not_eol))]) ?s3 ?c2
      = ([], ?c3) # r4"
    unfolding seqs.simps(2) [of "lit ''?''"] using re_run_Seq_first [OF re_run_lit_first] by blast
  obtain r where "re_run (Star True (Cls not_qmark)) (label @ ?s3) ?c1 = (?s3, ?c1) # r"
    using re_run_Star_first [of not_qmark "label @ ?s3" ?c1] q by auto
  from re_run_Grp_first [OF this, of 2]
  have "\<exists>r. re_run (Grp 2 (Star True (Cls not_qmark))) (label @ ?s3) ?c1 = (?s3, ?c2) # r"
    by auto
  then obtain r3 where r3: "re_run (seqs [Grp 2 (Star True (Cls not_qmark)), lit ''?'',
      Grp 3 (Star True (Cls not_eol))]) (label @ ?s3) ?c1 = ([], ?c3) # r3"
    unfolding seqs.simps(2) [of "Grp 2 _"] using re_run_Seq_first [OF _ r4] by blast
  then obtain r2 where r2: "re_run (seqs [lit ''/'', Grp 2 (Star True (Cls not_qmark)), lit ''?'',
      Grp 3 (Star True (Cls not_eol))]) ?s2 ?c1 = ([], ?c3) # r2"
    unfolding seqs.simps(2) [of "lit ''/''"] using re_run_Seq_first [OF re_run_lit_first] by blast
  have "re_run (Alt (lit ''totp'') (lit ''hotp'')) (ty @ ?s2) ?c0 = (?s2, ?c0) # []"
    using ty by (auto simp: re_run_lit)
  from re_run_Grp_first [OF this, of 1]
  have "\<exists>r. re_run (Grp 1 (Alt (lit ''totp'') (lit ''hotp''))) (ty @ ?s2) ?c0 = (?s2, ?c1) # r"
    by auto
  then obtain r1 where "re_run (seqs [Grp 1 (Alt (lit ''totp'') (lit ''hotp'')), lit ''/'',
      Grp 2 (Star True (Cls not_qmark)), lit ''?'', Grp 3 (Star True (Cls not_eol))])
      (ty @ ?s2) ?c0 = ([], ?c3) # r1"
    unfolding seqs.simps(2) [of "Grp 1 _"] using re_run_Seq_first [OF _ r2] by blast
  then have "\<exists>r. re_run uri_pattern (''otpauth://'' @ ty @ ?s2) ?c0 = ([], ?c3) # r"
    unfolding uri_pattern_def seqs.simps(2) [of "lit ''otpauth://''"]
    using re_run_Seq_first [OF re_run_lit_first] by blast
  then show ?thesis by (auto simp: uri_match_def cap_def)
qed

section \<open>The query of a printed URI\<close>

lemma find_sub_char:
  "c \<notin> set s \<Longrightarrow> find_sub [c] (s @ c # t) = Some (length s)"
  "c \<notin> set s \<Longrightarrow> find_sub [c] s = None"
  by (induction s) auto

lemma param_at_inner:
  "CHR ''&'' \<notin> set param \<Longrightarrow> param_at (pre @ param @ CHR ''&'' # rest) (length pre) = param"
  by (simp add: param_at_def find_from_def find_sub_char substr_def)

lemma param_at_last:
  "CHR ''&'' \<notin> set param \<Longrightarrow> param_at (pre @ param) (length pre) = param"
  by (simp add: param_at_def find_from_def find_sub_char)

lemma add_param_first:
  "CHR ''='' \<notin> set key \<Longrightarrow>
   add_param 0 (key @ CHR ''='' # urlencode val) Map.empty = Inr [key \<mapsto> val]"
  using urldecode_urlencode_append [of val "[]"]
  by (simp add: add_param_def find_from_def find_sub_char)

text \<open>A parameter whose name ends before the offset is passed over.\<close>

lemma add_param_skip:
  "length key < p \<Longrightarrow> CHR ''='' \<notin> set val \<Longrightarrow>
   add_param p (key @ CHR ''='' # val) m = Inr m"
proof -
  assume "length key < p" "CHR ''='' \<notin> set val"
  then have "CHR ''='' \<notin> set (drop p (key @ CHR ''='' # val))"
    by (auto simp: drop_Cons' dest: in_set_dropD)
  then show ?thesis by (simp add: add_param_def find_from_def find_sub_char del: drop_append)
qed

lemma get_params_first:
  assumes "CHR ''='' \<notin> set key" "CHR ''&'' \<notin> set key"
  shows "get_params (key @ CHR ''='' # urlencode val @ CHR ''&'' # rest)
      = get_params_loop (key @ CHR ''='' # urlencode val @ CHR ''&'' # rest)
          (length (key @ CHR ''='' # urlencode val @ ''&'')) [key \<mapsto> val]"
proof -
  have "CHR ''&'' \<notin> set (key @ CHR ''='' # urlencode val)"
    using assms(2) urlencode_plain [of _ val] by auto
  from param_at_inner [OF this, of "[]" rest]
  have "param_at (key @ CHR ''='' # urlencode val @ CHR ''&'' # rest) 0 = key @ CHR ''='' # urlencode val"
    by simp
  then show ?thesis
    unfolding get_params_def
    by (subst get_params_loop.simps) (simp add: add_param_first assms(1))
qed

lemma get_params_skip:
  assumes "length key < length pre" "CHR ''='' \<notin> set val" "CHR ''&'' \<notin> set key" "CHR ''&'' \<notin> set val"
  shows "get_params_loop (pre @ key @ CHR ''='' # val @ CHR ''&'' # rest) (length pre) m
      = get_params_loop (pre @ key @ CHR ''='' # val @ CHR ''&'' # rest)
          (length (pre @ key @ CHR ''='' # val @ ''&'')) m"
    and "get_params_loop (pre @ key @ CHR ''='' # val) (length pre) m = Inr m"
proof -
  have 1: "param_at (pre @ (key @ CHR ''='' # val) @ CHR ''&'' # rest) (length pre) = key @ CHR ''='' # val"
    using assms by (intro param_at_inner) auto
  have 2: "param_at (pre @ (key @ CHR ''='' # val)) (length pre) = key @ CHR ''='' # val"
    using assms by (intro param_at_last) auto
  show "get_params_loop (pre @ key @ CHR ''='' # val @ CHR ''&'' # rest) (length pre) m
      = get_params_loop (pre @ key @ CHR ''='' # val @ CHR ''&'' # rest)
          (length (pre @ key @ CHR ''='' # val @ ''&'')) m"
    using 1 assms by (subst get_params_loop.simps) (simp add: add_param_skip)
  show "get_params_loop (pre @ key @ CHR ''='' # val) (length pre) m = Inr m"
    using 2 assms by (subst get_params_loop.simps) (simp add: add_param_skip get_params_loop.simps)
qed

lemma dec_nat_plain: "CHR ''='' \<notin> set (dec_nat n)" "CHR ''&'' \<notin> set (dec_nat n)"
  "x \<in> set (dec_nat n) \<Longrightarrow> not_eol x"
proof -
  have *: "x \<in> set (dec_nat n) \<Longrightarrow> is_digit x" for x
    using dec_nat_digits(1) by (auto simp: list_all_iff)
  have "\<not> is_digit (CHR ''='')" "\<not> is_digit (CHR ''&'')" "\<not> is_digit (CHR 0x0A)" "\<not> is_digit (CHR 0x0D)"
    by code_simp+
  with * show "CHR ''='' \<notin> set (dec_nat n)" "CHR ''&'' \<notin> set (dec_nat n)"
    "x \<in> set (dec_nat n) \<Longrightarrow> not_eol x"
    by (auto simp: not_eol_def)
qed

definition uri_query :: "string \<Rightarrow> string \<Rightarrow> string \<Rightarrow> nat \<Rightarrow> string \<Rightarrow> nat \<Rightarrow> string" where
  "uri_query secret issuer digest digits key n =
     ''secret='' @ urlencode secret @ ''&issuer='' @ urlencode issuer @ ''&algorithm='' @ urlencode digest
     @ ''&digits='' @ dec_nat digits @ ''&'' @ key @ ''='' @ dec_nat n"

lemma get_params_uri_query:
  assumes "CHR ''='' \<notin> set issuer" "CHR ''='' \<notin> set digest" "key = ''counter'' \<or> key = ''period''"
  shows "get_params (uri_query secret issuer digest digits key n) = Inr [''secret'' \<mapsto> secret]"
proof -
  let ?P1 = "''secret='' @ urlencode secret @ ''&''"
  let ?P2 = "?P1 @ ''issuer='' @ urlencode issuer @ ''&''"
  let ?P3 = "?P2 @ ''algorithm='' @ urlencode digest @ ''&''"
  let ?P4 = "?P3 @ ''digits='' @ dec_nat digits @ ''&''"
  let ?q = "?P4 @ key @ CHR ''='' # dec_nat n"
  let ?m = "[''secret'' \<mapsto> secret]"
  have q: "uri_query secret issuer digest digits key n = ?q" by (simp add: uri_query_def)
  have amp: "CHR ''&'' \<notin> set (urlencode s)" for s using urlencode_plain [of _ s] by blast
  have "get_params ?q = get_params_loop ?q (length ?P1) ?m"
    using get_params_first [of "''secret''" secret] by simp
  also have "\<dots> = get_params_loop ?q (length ?P2) ?m"
    using get_params_skip(1) [of "''issuer''" ?P1 "urlencode issuer" _ ?m] assms amp urlencode_no_eq
    by simp
  also have "\<dots> = get_params_loop ?q (length ?P3) ?m"
    using get_params_skip(1) [of "''algorithm''" ?P2 "urlencode digest" _ ?m] assms amp urlencode_no_eq
    by simp
  also have "\<dots> = get_params_loop ?q (length ?P4) ?m"
    using get_params_skip(1) [of "''digits''" ?P3 "dec_nat digits" _ ?m] dec_nat_plain by simp
  also have "\<dots> = Inr ?m"
    using get_params_skip(2) [of key ?P4 "dec_nat n" ?m] dec_nat_plain assms(3) by auto
  finally show ?thesis unfolding q .
qed

section \<open>Printing and parsing a URI\<close>

definition printable :: "OTP_URI \<Rightarrow> bool" where
  "printable u =
     (uri_issuer u \<noteq> [] \<and> uri_account u \<noteq> [] \<and> CHR '':'' \<notin> set (uri_issuer u) \<and>
      CHR ''='' \<notin> set (uri_issuer u) \<and> CHR ''='' \<notin> set (uri_algorithm u))"

lemma urldecode_label:
  "urldecode (urlencode a @ '':'' @ urlencode b) = Inr (a @ '':'' @ b)"
  using urldecode_urlencode_append [of a "'':'' @ urlencode b"] urldecode_urlencode_append [of b "[]"]
  by simp

lemma uri_query_eol: "key = ''counter'' \<or> key = ''period'' \<Longrightarrow>
  \<forall>x\<in>set (uri_query secret issuer digest digits key n). not_eol x"
  using urlencode_plain dec_nat_plain(3) by (auto simp: uri_query_def) (simp_all add: not_eol_def)

lemma label_qmark: "\<forall>x\<in>set (urlencode a @ '':'' @ urlencode b). not_qmark x"
  using urlencode_plain by (auto simp: not_qmark_def)

lemma parse_uri_printed:
  assumes u: "printable u" and ty: "uri_type u = ''totp'' \<and> key = ''period'' \<or> uri_type u = ''hotp'' \<and> key = ''counter''"
  shows "OTP_URI_of (''otpauth://'' @ uri_type u @ ''/'' @ (urlencode (uri_issuer u) @ '':''
      @ urlencode (uri_account u)) @ ''?''
      @ uri_query (uri_secret u) (uri_issuer u) (uri_algorithm u) (uri_digits u) key n)
    = parse_optional [''secret'' \<mapsto> uri_secret u]
        (OTP_URI_default\<lparr>uri_type := uri_type u, uri_issuer := uri_issuer u,
          uri_account := uri_account u, uri_secret := uri_secret u\<rparr>)"
proof -
  let ?label = "urlencode (uri_issuer u) @ '':'' @ urlencode (uri_account u)"
  let ?q = "uri_query (uri_secret u) (uri_issuer u) (uri_algorithm u) (uri_digits u) key n"
  obtain c where c: "uri_match (''otpauth://'' @ uri_type u @ ''/'' @ ?label @ ''?'' @ ?q) = Some c"
    "cap c 1 = uri_type u" "cap c 2 = ?label" "cap c 3 = ?q"
    using uri_match_shape [OF _ label_qmark uri_query_eol] ty by metis
  have "find_sub '':'' (uri_issuer u @ '':'' @ uri_account u) = Some (length (uri_issuer u))"
    using u find_sub_char(1) [of "CHR '':''"] by (simp add: printable_def)
  then have l: "parse_label (uri_issuer u @ '':'' @ uri_account u) v
      = v\<lparr>uri_issuer := uri_issuer u, uri_account := uri_account u\<rparr>" for v
    by (simp add: parse_label_def)
  have q: "get_params ?q = Inr [''secret'' \<mapsto> uri_secret u]"
    using u ty by (intro get_params_uri_query) (auto simp: printable_def)
  show ?thesis
    unfolding OTP_URI_of_def parse_uri_def c(1) option.case c(2,3,4) urldecode_label q
      bind_res_simps l parse_issuer_def parse_secret_def
    by simp
qed

lemma get_uri_shape:
  assumes "printable u" "uri_type u = ''totp'' \<and> key = ''period'' \<and> n = uri_period u
    \<or> uri_type u = ''hotp'' \<and> key = ''counter'' \<and> n = uri_counter u"
  shows "get_uri u = ''otpauth://'' @ uri_type u @ ''/'' @ (urlencode (uri_issuer u) @ '':''
      @ urlencode (uri_account u)) @ ''?''
      @ uri_query (uri_secret u) (uri_issuer u) (uri_algorithm u) (uri_digits u) key n"
  using assms by (auto simp: get_uri_def uri_query_def printable_def Let_def)

text \<open>
  Percent encoding loses nothing: decoding the encoding of any byte string
  gives the string back.
\<close>

theorem urlencode_roundtrip: "urldecode (urlencode s) = Inr s"
  using urldecode_urlencode_append [of s "[]"] by simp


definition example_uri :: OTP_URI where
  "example_uri =
     OTP_URI_default\<lparr>uri_type := ''totp'', uri_account := ''alice@cctv'',
       uri_issuer := ''OTP Console Program'', uri_secret := ''JBSWY3DPEHPK3PXP'', uri_digits := 8\<rparr>"


text \<open>
  No HOTP URI the library prints can be read back: the counter is never found, and
  parsing ends with "missing counter".
\<close>

theorem hotp_uri_rejected:
  assumes "printable u" "uri_type u = ''hotp''"
  shows "OTP_URI_of (get_uri u) = Inl (Logic_error ''missing counter'')"
  using assms get_uri_shape [of u "''counter''" "uri_counter u"] parse_uri_printed [of u "''counter''" "uri_counter u"]
  by (simp add: parse_optional_def OTP_URI_default_def)

theorem hotp_uri_rejected_witness:
  "OTP_URI_of (get_uri (example_uri\<lparr>uri_type := ''hotp''\<rparr>)) = Inl (Logic_error ''missing counter'')"
  by (rule hotp_uri_rejected) (simp_all add: example_uri_def OTP_URI_default_def printable_def)

end
