(* ===== verification/Cotp.thy ===== *)
theory Cotp
  imports Otp_Uri
begin

text \<open>
  src/otp/cotp.cpp and cotp.hpp: the one-time password classes \<open>OTP\<close>, \<open>TOTP\<close> and \<open>HOTP\<close>.
  The HMAC functions of OpenSSL, the clock and \<open>rand\<close> are arguments.
\<close>

section \<open>Data\<close>

datatype OTP_type = Type_OTP | Type_TOTP | Type_HOTP

type_synonym algorithm = "bytes \<Rightarrow> bytes \<Rightarrow> bytes res"

record Algo_info =
  info_name :: string
  info_algo :: "algorithm option"
  info_bits :: nat

type_synonym algorithm_map = "string \<rightharpoonup> Algo_info"

text \<open>The digests the library passes to \<open>HMAC\<close>. \<open>hm\<close> is \<open>HMAC\<close> itself; it may fail.\<close>

datatype digest = EVP_sha1 | EVP_sha256 | EVP_sha512

type_synonym hmac_fun = "digest \<Rightarrow> bytes \<Rightarrow> bytes \<Rightarrow> bytes option"

definition hmac :: "hmac_fun \<Rightarrow> bytes \<Rightarrow> bytes \<Rightarrow> digest \<Rightarrow> bytes res" where
  "hmac hm byte_secret byte_string evp_md =
     (case hm evp_md byte_secret byte_string of
        None \<Rightarrow> Inl (Logic_error ''hmac failed'')
      | Some r \<Rightarrow> Inr r)"

definition hmac_algo_sha1 :: "hmac_fun \<Rightarrow> algorithm" where
  "hmac_algo_sha1 hm byte_secret byte_string = hmac hm byte_secret byte_string EVP_sha1"

definition hmac_algo_sha256 :: "hmac_fun \<Rightarrow> algorithm" where
  "hmac_algo_sha256 hm byte_secret byte_string = hmac hm byte_secret byte_string EVP_sha256"

definition hmac_algo_sha512 :: "hmac_fun \<Rightarrow> algorithm" where
  "hmac_algo_sha512 hm byte_secret byte_string = hmac hm byte_secret byte_string EVP_sha512"

definition otp_algorithm_map :: "hmac_fun \<Rightarrow> algorithm_map" where
  "otp_algorithm_map hm =
     [''SHA1'' \<mapsto> \<lparr>info_name = ''SHA1'', info_algo = Some (hmac_algo_sha1 hm), info_bits = 160\<rparr>,
      ''SHA256'' \<mapsto> \<lparr>info_name = ''SHA256'', info_algo = Some (hmac_algo_sha256 hm), info_bits = 256\<rparr>,
      ''SHA512'' \<mapsto> \<lparr>info_name = ''SHA512'', info_algo = Some (hmac_algo_sha512 hm), info_bits = 512\<rparr>]"

definition register_hmac_algo ::
  "algorithm_map \<Rightarrow> string \<Rightarrow> algorithm option \<Rightarrow> nat \<Rightarrow> (bool \<times> algorithm_map) res" where
  "register_hmac_algo algo_map name algo bits =
     (if name = [] \<or> algo = None \<or> bits mod 8 \<noteq> 0
      then Inl (Logic_error ''hmac algo registration failure'')
      else if algo_map name = None
      then Inr (True, algo_map(name \<mapsto> \<lparr>info_name = name, info_algo = algo, info_bits = bits\<rparr>))
      else Inr (False, algo_map))"

record OTP =
  m_issuer :: string
  m_account :: string
  m_digits :: nat
  m_bits :: nat
  m_method :: OTP_type
  m_algo :: "algorithm option"
  m_digest_algo_name :: string
  m_base32_secret :: string

record TOTP = OTP +
  m_interval :: nat

record HOTP = OTP +
  m_counter :: nat

section \<open>OTP\<close>

definition base32_chars :: string where
  "base32_chars = ''ABCDEFGHIJKLMNOPQRSTUVWXYZ234567''"

definition OTP_MIN_DIGITS :: nat where "OTP_MIN_DIGITS = 3"
definition OTP_MAX_DIGITS :: nat where "OTP_MAX_DIGITS = 8"

text \<open>The constructor on explicit values, and the one that looks the algorithm up.\<close>

definition OTP_new :: "string \<Rightarrow> nat \<Rightarrow> algorithm option \<Rightarrow> string \<Rightarrow> nat \<Rightarrow> OTP res" where
  "OTP_new base32_secret bits algo digest_algo_name digits =
     (if base32_secret = [] \<or> digest_algo_name = [] \<or> bits mod 8 \<noteq> 0
         \<or> bits < 8 * (15 + 3 + 1) \<or> algo = None
         \<or> digits < OTP_MIN_DIGITS \<or> digits > OTP_MAX_DIGITS
      then Inl (Logic_error ''otp invalid param'')
      else Inr \<lparr>m_issuer = '''', m_account = '''', m_digits = digits, m_bits = bits,
                m_method = Type_OTP, m_algo = algo, m_digest_algo_name = digest_algo_name,
                m_base32_secret = base32_secret\<rparr>)"

definition map_at :: "('k \<rightharpoonup> 'v) \<Rightarrow> 'k \<Rightarrow> 'v res" where
  "map_at m k = (case m k of None \<Rightarrow> Inl (Out_of_range ''map::at'') | Some v \<Rightarrow> Inr v)"

definition OTP_named :: "algorithm_map \<Rightarrow> string \<Rightarrow> string \<Rightarrow> nat \<Rightarrow> OTP res" where
  "OTP_named algo_map base32_secret algo digits =
     bind_res (map_at algo_map algo) (\<lambda>info.
     OTP_new base32_secret (info_bits info) (info_algo info) (info_name info) digits)"

definition set_issuer :: "string \<Rightarrow> ('a OTP_scheme) \<Rightarrow> 'a OTP_scheme" where
  "set_issuer v otp = otp\<lparr>m_issuer := v\<rparr>"

definition set_account :: "string \<Rightarrow> ('a OTP_scheme) \<Rightarrow> 'a OTP_scheme" where
  "set_account v otp = otp\<lparr>m_account := v\<rparr>"

text \<open>
  Move assignment: the target and the source after it. A moved-from \<open>std::string\<close> is
  empty. Issuer and account stay as they are on both sides.
\<close>

definition OTP_move_assign :: "'a OTP_scheme \<Rightarrow> 'b OTP_scheme \<Rightarrow> 'a OTP_scheme \<times> 'b OTP_scheme" where
  "OTP_move_assign this other =
     (this\<lparr>m_digits := m_digits other, m_bits := m_bits other, m_method := m_method other,
           m_algo := m_algo other, m_digest_algo_name := m_digest_algo_name other,
           m_base32_secret := m_base32_secret other\<rparr>,
      other\<lparr>m_digest_algo_name := '''', m_base32_secret := ''''\<rparr>)"

text \<open>
  The Base32 decoder. \<open>slack\<close> is the number of bytes the allocator leaves usable behind the
  storage of the vector: a write there is outside the vector but does no harm, a write
  further out is undefined. Reading the string at its size gives the terminating NUL,
  reading beyond it is undefined.
\<close>

definition put_byte :: "nat \<Rightarrow> nat \<Rightarrow> (byte \<Rightarrow> byte) \<Rightarrow> bytes \<Rightarrow> bytes res" where
  "put_byte slack k f out =
     (if k < length out then Inr (out[k := f (out ! k)])
      else if out \<noteq> [] \<and> k < length out + slack then Inr out
      else Inl (UB ''write past the vector''))"

definition string_get :: "string \<Rightarrow> nat \<Rightarrow> char res" where
  "string_get s k =
     (if k < length s then Inr (s ! k) else if k = length s then Inr (CHR 0x00)
      else Inl (UB ''read past the string''))"

text \<open>The value \<open>n\<close> after looking at a character; any other character leaves it.\<close>

definition base32_val :: "char \<Rightarrow> int \<Rightarrow> int" where
  "base32_val c n =
     (let n = (if CHR ''A'' \<le> c \<and> c \<le> CHR ''Z'' then of_char c - 65 else n)
      in if CHR ''2'' \<le> c \<and> c \<le> CHR ''7'' then 26 + of_char c - 50 else n)"

definition shift_byte :: "int \<Rightarrow> int \<Rightarrow> byte" where
  "shift_byte n offset =
     (if - offset > 0 then of_int (drop_bit (nat (- offset)) n) else of_int (push_bit (nat offset) n))"

text \<open>The inner loop from \<open>block\<close> on: the vector and \<open>n\<close> when it is left.\<close>

function byte_secret_blocks ::
  "nat \<Rightarrow> string \<Rightarrow> nat \<Rightarrow> nat \<Rightarrow> int \<Rightarrow> bytes \<Rightarrow> (int \<times> bytes) res" where
  "byte_secret_blocks slack s i block n out =
     (if block < 8
      then let offset = 3 - int ((5 * block) mod 8);
               octet = (block * 5) div 8
           in bind_res (string_get s (i * 8 + block)) (\<lambda>c.
              let n = base32_val c n
              in if n < 0 then Inr (int octet, out)
                 else bind_res (put_byte slack (i * 5 + octet) (\<lambda>b. b OR shift_byte n offset) out) (\<lambda>out.
                      bind_res (if offset < 0
                                then put_byte slack (i * 5 + octet + 1) (\<lambda>b. shift_byte n (8 + offset)) out
                                else Inr out) (\<lambda>out.
                      byte_secret_blocks slack s i (block + 1) n out)))
      else Inr (n, out))"
  by pat_completeness auto
termination by (relation "measure (\<lambda>(slack, s, i, block, n, out). 8 - block)") auto

declare byte_secret_blocks.simps [simp del]

function byte_secret_loop :: "nat \<Rightarrow> string \<Rightarrow> nat \<Rightarrow> bytes \<Rightarrow> bytes res" where
  "byte_secret_loop slack s i out =
     (if i * 8 > length s then Inl (UB ''read past the string'')
      else bind_res (put_byte slack (i * 5) (\<lambda>b. 0) out) (\<lambda>out.
           bind_res (byte_secret_blocks slack s i 0 (-1) out) (\<lambda>(n, out).
           if n < 5 then Inr out else byte_secret_loop slack s (i + 1) out)))"
  by pat_completeness auto
termination by (relation "measure (\<lambda>(slack, s, i, out). length s + 1 - i * 8)") auto

declare byte_secret_loop.simps [simp del]

definition byte_secret :: "nat \<Rightarrow> 'a OTP_scheme \<Rightarrow> bytes res" where
  "byte_secret slack otp =
     byte_secret_loop slack (m_base32_secret otp) 0
       (replicate (length (m_base32_secret otp) * 5 div 8) 0)"

text \<open>Only the low four bytes of the value are written.\<close>

definition to_bytes :: "u64 \<Rightarrow> bytes" where
  "to_bytes val =
     snd (fold (\<lambda>i (val, out). (drop_bit 8 val, out[i := ucast (val AND 0xff)]))
            [7, 6, 5, 4] (val, replicate 8 0))"

function zero_pad :: "nat \<Rightarrow> string \<Rightarrow> string" where
  "zero_pad digits code_str =
     (if length code_str < digits then zero_pad digits (''0'' @ code_str) else code_str)"
  by pat_completeness auto
termination by (relation "measure (\<lambda>(digits, code_str). digits - length code_str)") auto

declare zero_pad.simps [simp del]

text \<open>Dynamic truncation and the decimal code.\<close>

definition truncate_hmac :: "bytes \<Rightarrow> nat" where
  "truncate_hmac h =
     (let offset = unat (h ! (length h - 1) AND 0xF)
      in unat (push_bit 24 (ucast (h ! offset AND 0x7F) :: u32)
               OR push_bit 16 (ucast (h ! (offset + 1) AND 0xFF))
               OR push_bit 8 (ucast (h ! (offset + 2) AND 0xFF))
               OR ucast (h ! (offset + 3) AND 0xFF)))"

definition generate :: "nat \<Rightarrow> 'a OTP_scheme \<Rightarrow> u64 \<Rightarrow> string res" where
  "generate slack otp input =
     bind_res (byte_secret slack otp) (\<lambda>v_byte_secret.
     case m_algo otp of
       None \<Rightarrow> Inl (UB ''call of a null pointer'')
     | Some algo \<Rightarrow>
         bind_res (algo v_byte_secret (to_bytes input)) (\<lambda>v_hmac.
         if length v_hmac \<noteq> m_bits otp div 8 then Inl (Logic_error ''hmac size mismatch'')
         else Inr (zero_pad (m_digits otp) (dec_nat (truncate_hmac v_hmac mod 10 ^ m_digits otp)))))"

text \<open>\<open>rnd k\<close> is the k-th draw of \<open>rand\<close>.\<close>

definition random_base32 :: "(nat \<Rightarrow> nat) \<Rightarrow> nat \<Rightarrow> string" where
  "random_base32 rnd len =
     (let len = (if len > 0 then len else 16)
      in map (\<lambda>i. base32_chars ! (rnd i mod 32)) [0..<len])"

definition build_uri_with :: "'a OTP_scheme \<Rightarrow> string \<Rightarrow> (string \<rightharpoonup> string) \<Rightarrow> string res" where
  "build_uri_with otp otp_type additional_args =
     (let uri = OTP_URI_default\<lparr>uri_type := otp_type, uri_account := m_account otp,
                  uri_secret := m_base32_secret otp, uri_issuer := m_issuer otp,
                  uri_algorithm := m_digest_algo_name otp, uri_digits := m_digits otp\<rparr>
      in bind_res (case additional_args ''counter'' of
                     None \<Rightarrow> Inr uri
                   | Some v \<Rightarrow> bind_res (stoul v) (\<lambda>n. Inr (uri\<lparr>uri_counter := n\<rparr>))) (\<lambda>uri.
         bind_res (case additional_args ''period'' of
                     None \<Rightarrow> Inr uri
                   | Some v \<Rightarrow> bind_res (stoul v) (\<lambda>n. Inr (uri\<lparr>uri_counter := n\<rparr>))) (\<lambda>uri.
         Inr (get_uri uri))))"

definition build_uri :: "'a OTP_scheme \<Rightarrow> string res" where
  "build_uri otp = build_uri_with otp ''otp'' Map.empty"

definition print_otp :: "'a OTP_scheme \<Rightarrow> string" where
  "print_otp otp =
     ''digits: '' @ dec_nat (m_digits otp) @ [CHR 0x0A] @ ''bits: '' @ dec_nat (m_bits otp) @ [CHR 0x0A]
     @ ''digest: '' @ m_digest_algo_name otp @ [CHR 0x0A]
     @ ''base32 secret: '' @ m_base32_secret otp @ [CHR 0x0A]
     @ ''issuer: '' @ m_issuer otp @ [CHR 0x0A] @ ''account: '' @ m_account otp @ [CHR 0x0A]"

text \<open>\<open>to_string\<close> of a byte vector: two hexadecimal digits and a blank per byte.\<close>

definition bytes_to_string :: "bytes \<Rightarrow> string" where
  "bytes_to_string bs =
     concat (map (\<lambda>c. [hex_digit (unat c div 16), hex_digit (unat c mod 16), CHR '' '']) bs)"

section \<open>TOTP\<close>

definition TOTP_new :: "string \<Rightarrow> nat \<Rightarrow> algorithm option \<Rightarrow> string \<Rightarrow> nat \<Rightarrow> nat \<Rightarrow> TOTP res" where
  "TOTP_new base32_secret bits algo digest_algo_name digits interval =
     bind_res (OTP_new base32_secret bits algo digest_algo_name digits) (\<lambda>otp.
     Inr (OTP.extend (otp\<lparr>m_method := Type_TOTP\<rparr>) (TOTP.fields interval)))"

definition TOTP_named :: "algorithm_map \<Rightarrow> string \<Rightarrow> string \<Rightarrow> nat \<Rightarrow> nat \<Rightarrow> TOTP res" where
  "TOTP_named algo_map base32_secret algo digits interval =
     bind_res (map_at algo_map algo) (\<lambda>info.
     TOTP_new base32_secret (info_bits info) (info_algo info) (info_name info) digits interval)"

text \<open>
  The move constructor: the base part is moved twice, and \<open>m_interval\<close> keeps whatever
  \<open>fresh\<close>, the uninitialised object, holds (its strings are empty).
\<close>

definition TOTP_move_assign :: "TOTP \<Rightarrow> TOTP \<Rightarrow> TOTP \<times> TOTP" where
  "TOTP_move_assign this other = OTP_move_assign this other"

definition TOTP_move_new :: "TOTP \<Rightarrow> TOTP \<Rightarrow> TOTP \<times> TOTP" where
  "TOTP_move_new fresh other =
     (let (this, other) = OTP_move_assign (fresh\<lparr>m_issuer := [], m_account := []\<rparr>) other
      in TOTP_move_assign this other)"

definition TOTP_create :: "algorithm_map \<Rightarrow> OTP_URI \<Rightarrow> TOTP res" where
  "TOTP_create algo_map uri =
     bind_res (TOTP_named algo_map (uri_secret uri) (uri_algorithm uri) (uri_digits uri) (uri_period uri))
       (\<lambda>otp. Inr (set_account (uri_account uri) (set_issuer (uri_issuer uri) otp)))"

text \<open>
  \<open>timecode\<close> narrows the 64-bit quotient to an \<open>int\<close>; adding the offset extends it with
  its sign.
\<close>

definition timecode :: "TOTP \<Rightarrow> u64 \<Rightarrow> u32 res" where
  "timecode otp for_time =
     (if m_interval otp = 0 then Inl (UB ''division by zero'')
      else Inr (ucast (for_time div of_nat (m_interval otp))))"

definition code_at :: "nat \<Rightarrow> TOTP \<Rightarrow> u64 \<Rightarrow> u64 \<Rightarrow> string res" where
  "code_at slack otp for_time counter_offset =
     bind_res (timecode otp for_time) (\<lambda>tc. generate slack otp (scast tc + counter_offset))"

definition TOTP_code :: "nat \<Rightarrow> TOTP \<Rightarrow> u64 \<Rightarrow> string res" where
  "TOTP_code slack otp now = bind_res (timecode otp now) (\<lambda>tc. generate slack otp (scast tc))"

definition compare_str :: "nat \<Rightarrow> TOTP \<Rightarrow> string \<Rightarrow> u64 \<Rightarrow> u64 \<Rightarrow> bool res" where
  "compare_str slack otp key increment for_time =
     bind_res (code_at slack otp for_time increment) (\<lambda>time_str. Inr (key = time_str))"

definition compare_int :: "nat \<Rightarrow> TOTP \<Rightarrow> u64 \<Rightarrow> u64 \<Rightarrow> u64 \<Rightarrow> bool res" where
  "compare_int slack otp key increment for_time =
     compare_str slack otp (dec_nat (unat key)) increment for_time"

function verify_window :: "nat \<Rightarrow> TOTP \<Rightarrow> string \<Rightarrow> u64 \<Rightarrow> int \<Rightarrow> int \<Rightarrow> bool res" where
  "verify_window slack otp key for_time i hi =
     (if i < hi
      then bind_res (compare_str slack otp key (of_int i) for_time) (\<lambda>eq.
           if eq then Inr True else verify_window slack otp key for_time (i + 1) hi)
      else Inr False)"
  by pat_completeness auto
termination by (relation "measure (\<lambda>(slack, otp, key, for_time, i, hi). nat (hi - i))") auto

declare verify_window.simps [simp del]

definition verify_str :: "nat \<Rightarrow> TOTP \<Rightarrow> string \<Rightarrow> u64 \<Rightarrow> u64 \<Rightarrow> bool res" where
  "verify_str slack otp key for_time valid_window =
     (if valid_window > 0
      then verify_window slack otp key for_time
             (sint (ucast (- valid_window) :: u32)) (sint (ucast valid_window :: u32))
      else compare_str slack otp key 0 for_time)"

definition verify_int :: "nat \<Rightarrow> TOTP \<Rightarrow> u64 \<Rightarrow> u64 \<Rightarrow> u64 \<Rightarrow> bool res" where
  "verify_int slack otp key for_time valid_window =
     verify_str slack otp (zero_pad (m_digits otp) (dec_nat (unat key))) for_time valid_window"

definition valid_until :: "TOTP \<Rightarrow> u64 \<Rightarrow> u64 \<Rightarrow> u32 res" where
  "valid_until otp for_time valid_window =
     (if m_interval otp = 0 then Inl (UB ''division by zero'')
      else Inr (ucast ((for_time div of_nat (m_interval otp) + 1 + valid_window) * of_nat (m_interval otp))))"

definition seconds_to_next_code :: "TOTP \<Rightarrow> u64 \<Rightarrow> u32 res" where
  "seconds_to_next_code otp for_time =
     (if m_interval otp = 0 then Inl (UB ''division by zero'')
      else Inr (ucast (of_nat (m_interval otp) - for_time mod of_nat (m_interval otp))))"

definition TOTP_build_uri :: "TOTP \<Rightarrow> string res" where
  "TOTP_build_uri otp = build_uri_with otp ''totp'' [''period'' \<mapsto> dec_nat (m_interval otp)]"

definition print_totp :: "TOTP \<Rightarrow> string" where
  "print_totp otp =
     ''type: TOTP'' @ [CHR 0x0A] @ print_otp otp
     @ ''interval: '' @ dec_nat (m_interval otp) @ [CHR 0x0A]"

section \<open>HOTP\<close>

definition HOTP_new :: "string \<Rightarrow> nat \<Rightarrow> algorithm option \<Rightarrow> string \<Rightarrow> nat \<Rightarrow> HOTP res" where
  "HOTP_new base32_secret bits algo digest_algo_name digits =
     bind_res (OTP_new base32_secret bits algo digest_algo_name digits) (\<lambda>otp.
     Inr (OTP.extend (otp\<lparr>m_method := Type_HOTP\<rparr>) (HOTP.fields 0)))"

definition HOTP_named :: "algorithm_map \<Rightarrow> string \<Rightarrow> string \<Rightarrow> nat \<Rightarrow> HOTP res" where
  "HOTP_named algo_map base32_secret algo digits =
     bind_res (map_at algo_map algo) (\<lambda>info.
     HOTP_new base32_secret (info_bits info) (info_algo info) (info_name info) digits)"

definition HOTP_move_assign :: "HOTP \<Rightarrow> HOTP \<Rightarrow> HOTP \<times> HOTP" where
  "HOTP_move_assign this other = OTP_move_assign this other"

definition HOTP_move_new :: "HOTP \<Rightarrow> HOTP \<Rightarrow> HOTP \<times> HOTP" where
  "HOTP_move_new fresh other =
     (let (this, other) = OTP_move_assign (fresh\<lparr>m_issuer := [], m_account := []\<rparr>) other
      in HOTP_move_assign this other)"

definition set_counter :: "nat \<Rightarrow> HOTP \<Rightarrow> HOTP" where
  "set_counter v otp = otp\<lparr>m_counter := v\<rparr>"

definition HOTP_create :: "algorithm_map \<Rightarrow> OTP_URI \<Rightarrow> HOTP res" where
  "HOTP_create algo_map uri =
     bind_res (HOTP_named algo_map (uri_secret uri) (uri_algorithm uri) (uri_digits uri))
       (\<lambda>otp. Inr (set_counter (uri_counter uri)
                   (set_account (uri_account uri) (set_issuer (uri_issuer uri) otp))))"

definition HOTP_code :: "nat \<Rightarrow> HOTP \<Rightarrow> string res" where
  "HOTP_code slack otp = generate slack otp (of_nat (m_counter otp))"

definition HOTP_code_at :: "nat \<Rightarrow> HOTP \<Rightarrow> u64 \<Rightarrow> string res" where
  "HOTP_code_at slack otp counter = generate slack otp counter"

definition HOTP_compare_str :: "nat \<Rightarrow> HOTP \<Rightarrow> string \<Rightarrow> bool res" where
  "HOTP_compare_str slack otp key =
     bind_res (HOTP_code_at slack otp (of_nat (m_counter otp))) (\<lambda>code. Inr (key = code))"

definition HOTP_compare_int :: "nat \<Rightarrow> HOTP \<Rightarrow> u64 \<Rightarrow> bool res" where
  "HOTP_compare_int slack otp key = HOTP_compare_str slack otp (dec_nat (unat key))"

definition HOTP_verify_str :: "nat \<Rightarrow> HOTP \<Rightarrow> string \<Rightarrow> bool res" where
  "HOTP_verify_str slack otp key = HOTP_compare_str slack otp key"

definition HOTP_verify_int :: "nat \<Rightarrow> HOTP \<Rightarrow> u64 \<Rightarrow> bool res" where
  "HOTP_verify_int slack otp key = HOTP_compare_int slack otp key"

definition HOTP_build_uri :: "HOTP \<Rightarrow> string res" where
  "HOTP_build_uri otp = build_uri_with otp ''hotp'' [''counter'' \<mapsto> dec_nat (m_counter otp)]"

definition print_hotp :: "HOTP \<Rightarrow> string" where
  "print_hotp otp =
     ''type: HOTP'' @ [CHR 0x0A] @ print_otp otp
     @ ''counter: '' @ dec_nat (m_counter otp) @ [CHR 0x0A]"

section \<open>Objects behind a base pointer and the factory\<close>

text \<open>
  \<open>OTP_ptr\<close> points to a TOTP or an HOTP object; \<open>get_qr_string\<close> calls the virtual
  \<open>build_uri\<close>.
\<close>

datatype otp_obj = TOTP_obj TOTP | HOTP_obj HOTP

fun get_qr_string :: "otp_obj \<Rightarrow> string res" where
  "get_qr_string (TOTP_obj otp) = TOTP_build_uri otp"
| "get_qr_string (HOTP_obj otp) = HOTP_build_uri otp"

type_synonym creator = "OTP_URI \<Rightarrow> otp_obj res"
type_synonym OTP_factory = "string \<rightharpoonup> creator"

definition register_named :: "OTP_factory \<Rightarrow> string \<Rightarrow> creator \<Rightarrow> OTP_factory res" where
  "register_named m_creators name creator =
     (if m_creators name \<noteq> None then Inl (Logic_error ''factory: already registered'')
      else Inr (m_creators(name \<mapsto> creator)))"

definition get_creator :: "OTP_factory \<Rightarrow> string \<Rightarrow> creator res" where
  "get_creator m_creators name =
     (case m_creators name of
        None \<Rightarrow> Inl (Logic_error ''factory: creator not found'')
      | Some creator \<Rightarrow> Inr creator)"

definition factory_create :: "OTP_factory \<Rightarrow> string \<Rightarrow> otp_obj res" where
  "factory_create m_creators uri =
     bind_res (OTP_URI_of uri) (\<lambda>otp_uri.
     bind_res (get_creator m_creators (uri_type otp_uri)) (\<lambda>creator. creator otp_uri))"

text \<open>
  The library constructor: the seed of \<open>rand\<close> is taken from \<open>urandom\<close> (None when it cannot
  be opened or read) or from the clock, and both creators are registered.
\<close>

definition init_lib :: "algorithm_map \<Rightarrow> u32 option \<Rightarrow> u64 \<Rightarrow> (u32 \<times> OTP_factory) res" where
  "init_lib algo_map urandom now =
     (let seed = (case urandom of Some seed \<Rightarrow> seed | None \<Rightarrow> ucast now)
      in bind_res (register_named Map.empty ''hotp''
                    (\<lambda>uri. bind_res (HOTP_create algo_map uri) (\<lambda>otp. Inr (HOTP_obj otp)))) (\<lambda>f.
         bind_res (register_named f ''totp''
                    (\<lambda>uri. bind_res (TOTP_create algo_map uri) (\<lambda>otp. Inr (TOTP_obj otp)))) (\<lambda>f.
         Inr (seed, f))))"

section \<open>Reference definitions\<close>

text \<open>
  Base32 of RFC 4648: the eight quintets of a group are the forty bits of five bytes. The
  counter as eight bytes, the truncated value and the code of RFC 4226.
\<close>

fun groups8 :: "string \<Rightarrow> string list" where
  "groups8 (a # b # c # d # e # f # g # h # rest) = [a, b, c, d, e, f, g, h] # groups8 rest"
| "groups8 other = []"

definition base32_char :: "char \<Rightarrow> bool" where
  "base32_char c = (CHR ''A'' \<le> c \<and> c \<le> CHR ''Z'' \<or> CHR ''2'' \<le> c \<and> c \<le> CHR ''7'')"

definition quintet :: "char \<Rightarrow> int" where
  "quintet c = (if c \<le> CHR ''7'' then 26 + (of_char c - 50) else of_char c - 65)"

definition group_bits :: "string \<Rightarrow> int" where
  "group_bits g = foldl (\<lambda>w c. push_bit 5 w OR quintet c) 0 g"

definition group_bytes :: "string \<Rightarrow> bytes" where
  "group_bytes g =
     [of_int (drop_bit 32 (group_bits g)), of_int (drop_bit 24 (group_bits g)),
      of_int (drop_bit 16 (group_bits g)), of_int (drop_bit 8 (group_bits g)), of_int (group_bits g)]"

definition base32_decode :: "string \<Rightarrow> bytes" where
  "base32_decode s = concat (map group_bytes (groups8 s))"

definition be64 :: "u64 \<Rightarrow> bytes" where
  "be64 c = map (\<lambda>i. ucast (drop_bit (8 * (7 - i)) c)) [0..<8]"

definition rfc4226_value :: "bytes \<Rightarrow> nat" where
  "rfc4226_value h =
     (let o1 = unat (last h) mod 16
      in 2 ^ 24 * (unat (h ! o1) mod 2 ^ 7) + 2 ^ 16 * unat (h ! (o1 + 1))
         + 2 ^ 8 * unat (h ! (o1 + 2)) + unat (h ! (o1 + 3)))"

fun fixed_digits :: "nat \<Rightarrow> nat \<Rightarrow> string" where
  "fixed_digits 0 n = []"
| "fixed_digits (Suc d) n = fixed_digits d (n div 10) @ [char_of (48 + n mod 10)]"

definition rfc4226_code :: "nat \<Rightarrow> bytes \<Rightarrow> string" where
  "rfc4226_code d h = fixed_digits d (rfc4226_value h mod 10 ^ d)"

text \<open>
  The key the decoder really uses: it stops after a group that ends in one of the letters
  A to E, and the bytes of the groups it leaves out are zero.
\<close>

fun kept_groups :: "string list \<Rightarrow> string list" where
  "kept_groups [] = []"
| "kept_groups (g # gs) = (if quintet (last g) < 5 then [g] else g # kept_groups gs)"

definition effective_key :: "string \<Rightarrow> bytes" where
  "effective_key s =
     (let kept = kept_groups (groups8 s)
      in concat (map group_bytes kept) @ replicate (5 * (length (groups8 s) - length kept)) 0)"

section \<open>Base32: lemmas\<close>

lemma base32_val_quintet:
  assumes "base32_char c"
  shows "base32_val c n = quintet c" "0 \<le> quintet c" "quintet c < 32"
proof -
  have *: "(of_char c :: int) = int (of_char c)" by (rule of_nat_of_char [symmetric])
  show "base32_val c n = quintet c" "0 \<le> quintet c" "quintet c < 32"
    using assms unfolding base32_char_def base32_val_def quintet_def Let_def less_eq_char_def *
    by (auto simp del: of_nat_of_char)
qed

lemma base32_val_nul: "base32_val (CHR 0x00) (-1) = -1"
  by code_simp

lemma bit_quintet: "base32_char c \<Longrightarrow> 5 \<le> n \<Longrightarrow> \<not> bit (quintet c) n"
proof -
  assume c: "base32_char c" and n: "5 \<le> n"
  have "take_bit 5 (quintet c) = quintet c"
    using base32_val_quintet(2,3) [OF c] by (simp add: take_bit_int_eq_self)
  then have "bit (quintet c) n = bit (take_bit 5 (quintet c)) n" by simp
  with n show ?thesis by (simp add: bit_take_bit_iff)
qed

lemma bit_shift_byte:
  "bit (shift_byte n offset) k \<longleftrightarrow> k < 8 \<and>
     (if offset < 0 then bit n (k + nat (- offset)) else nat offset \<le> k \<and> bit n (k - nat offset))"
  by (auto simp: shift_byte_def bit_word_of_int_iff bit_push_bit_iff bit_drop_bit_eq add.commute)

lemma group_bytes_quintets:
  assumes "list_all base32_char [c0, c1, c2, c3, c4, c5, c6, c7]"
  shows "group_bytes [c0, c1, c2, c3, c4, c5, c6, c7] =
    [shift_byte (quintet c0) 3 OR shift_byte (quintet c1) (-2),
     shift_byte (quintet c1) 6 OR shift_byte (quintet c2) 1 OR shift_byte (quintet c3) (-4),
     shift_byte (quintet c3) 4 OR shift_byte (quintet c4) (-1),
     shift_byte (quintet c4) 7 OR shift_byte (quintet c5) 2 OR shift_byte (quintet c6) (-3),
     shift_byte (quintet c6) 5 OR shift_byte (quintet c7) 0]"
proof -
  have q: "\<not> bit (quintet c0) n" "\<not> bit (quintet c1) n" "\<not> bit (quintet c2) n" "\<not> bit (quintet c3) n"
    "\<not> bit (quintet c4) n" "\<not> bit (quintet c5) n" "\<not> bit (quintet c6) n" "\<not> bit (quintet c7) n"
    if "5 \<le> n" for n
    using assms bit_quintet that by simp_all
  show ?thesis
    unfolding group_bytes_def list.inject group_bits_def
    by (intro conjI byte_eqI refl)
      (simp_all add: bit_shift_byte bit_word_of_int_iff bit_or_iff bit_push_bit_iff bit_drop_bit_eq q
        numeral_2_eq_2 [symmetric] numeral_3_eq_3 [symmetric])
qed

lemma put_byte_at:
  "length pre = k \<Longrightarrow> j < length xs \<Longrightarrow>
   put_byte slack (k + j) f (pre @ xs) = Inr (pre @ xs[j := f (xs ! j)])"
  by (auto simp: put_byte_def nth_append list_update_append)

lemma string_get_middle:
  "length pre = k \<Longrightarrow> j < length g \<Longrightarrow> string_get (pre @ g @ post) (k + j) = Inr (g ! j)"
  by (simp add: string_get_def nth_append)

text \<open>The effect of one block on the bytes of its group.\<close>

definition or_block :: "int \<Rightarrow> nat \<Rightarrow> bytes \<Rightarrow> bytes" where
  "or_block n block xs =
     (let offset = 3 - int ((5 * block) mod 8); octet = (block * 5) div 8;
          xs = xs[octet := xs ! octet OR shift_byte n offset]
      in if offset < 0 then xs[octet + 1 := shift_byte n (8 + offset)] else xs)"

lemma length_or_block [simp]: "length (or_block n block xs) = length xs"
  by (simp add: or_block_def Let_def)

lemma byte_secret_blocks_step:
  assumes "block < 8" "length pre = i * 8" "length g = 8" "base32_char (g ! block)"
    "length opre = i * 5" "5 \<le> length xs"
  shows "byte_secret_blocks slack (pre @ g @ post) i block n (opre @ xs) =
     byte_secret_blocks slack (pre @ g @ post) i (block + 1) (quintet (g ! block))
       (opre @ or_block (quintet (g ! block)) block xs)"
proof -
  let ?n = "quintet (g ! block)" and ?off = "3 - int ((5 * block) mod 8)" and ?oct = "(block * 5) div 8"
  let ?xs = "xs[?oct := xs ! ?oct OR shift_byte ?n ?off]"
  have b: "block = 0 \<or> block = 1 \<or> block = 2 \<or> block = 3 \<or> block = 4 \<or> block = 5 \<or> block = 6 \<or> block = 7"
    using assms(1) by arith
  have oct: "?oct < length xs" and oct1: "?off < 0 \<longrightarrow> ?oct + 1 < length ?xs"
    using b assms(6) by auto
  have p1: "put_byte slack (i * 5 + ?oct) (\<lambda>b. b OR shift_byte ?n ?off) (opre @ xs) = Inr (opre @ ?xs)"
    by (rule put_byte_at [OF assms(5) oct])
  have p2: "(if ?off < 0 then put_byte slack (i * 5 + ?oct + 1) (\<lambda>b. shift_byte ?n (8 + ?off)) (opre @ ?xs)
      else Inr (opre @ ?xs)) = Inr (opre @ or_block ?n block xs)"
    using put_byte_at [OF assms(5), of "?oct + 1" ?xs slack "\<lambda>b. shift_byte ?n (8 + ?off)"] oct1
    by (simp add: or_block_def Let_def add.assoc)
  have g: "string_get (pre @ g @ post) (i * 8 + block) = Inr (g ! block)"
    using string_get_middle [OF assms(2)] assms(1,3) by simp
  show ?thesis
    by (subst byte_secret_blocks.simps)
      (simp only: assms(1) if_True Let_def g bind_res_simps base32_val_quintet(1) [OF assms(4)]
        base32_val_quintet(2) [OF assms(4)] linorder_not_less [symmetric] not_not p1 p2 if_False
        base32_val_quintet(2) [OF assms(4), unfolded linorder_not_less [symmetric]])
qed

lemma byte_secret_blocks_group:
  assumes "length pre = i * 8" "length opre = i * 5"
    "list_all base32_char [c0, c1, c2, c3, c4, c5, c6, c7]"
  shows "byte_secret_blocks slack (pre @ [c0, c1, c2, c3, c4, c5, c6, c7] @ post) i 0 n
      (opre @ [0, b1, b2, b3, b4] @ opost)
    = Inr (quintet c7, opre @ group_bytes [c0, c1, c2, c3, c4, c5, c6, c7] @ opost)"
proof -
  let ?g = "[c0, c1, c2, c3, c4, c5, c6, c7]"
  let ?s = "pre @ ?g @ post" and ?xs = "[0, b1, b2, b3, b4] @ opost"
  have step: "byte_secret_blocks slack ?s i block n (opre @ xs) =
     byte_secret_blocks slack ?s i (block + 1) (quintet (?g ! block)) (opre @ or_block (quintet (?g ! block)) block xs)"
    if "block < 8" "5 \<le> length xs" for block n xs
  proof (rule byte_secret_blocks_step [OF that(1) assms(1) _ _ assms(2) that(2)])
    show "base32_char (?g ! block)"
      using assms(3) [unfolded list_all_length] that(1) by simp
  qed simp
  have "byte_secret_blocks slack ?s i 0 n (opre @ ?xs) = byte_secret_blocks slack ?s i 8 (quintet c7)
      (opre @ or_block (quintet c7) 7 (or_block (quintet c6) 6 (or_block (quintet c5) 5
        (or_block (quintet c4) 4 (or_block (quintet c3) 3 (or_block (quintet c2) 2
        (or_block (quintet c1) 1 (or_block (quintet c0) 0 ?xs))))))))"
    by (simp add: step eval_nat_numeral del: append.simps)
  also have "\<dots> = Inr (quintet c7, opre @ group_bytes ?g @ opost)"
    unfolding group_bytes_quintets [OF assms(3)]
    by (subst byte_secret_blocks.simps) (simp add: or_block_def Let_def or.assoc)
  finally show ?thesis .
qed

lemma group_bytes_length: "length (group_bytes g) = 5"
  by (simp add: group_bytes_def)

lemma byte_secret_loop_end:
  assumes "length s = i * 8" "length out = i * 5" "0 < i" "0 < slack"
  shows "byte_secret_loop slack s i out = Inr out"
proof -
  have "byte_secret_blocks slack s i 0 (-1) out = Inr (0, out)"
    using assms(1) base32_val_nul
    by (subst byte_secret_blocks.simps) (simp add: string_get_def Let_def)
  then show ?thesis
    using assms by (subst byte_secret_loop.simps) (auto simp: put_byte_def)
qed

lemma byte_secret_loop_groups:
  assumes "length pre = i * 8" "length opre = i * 5" "0 < slack" "0 < i + length gs"
    "list_all (\<lambda>g. length g = 8 \<and> list_all base32_char g) gs"
  shows "byte_secret_loop slack (pre @ concat gs) i (opre @ replicate (5 * length gs) 0)
    = Inr (opre @ concat (map group_bytes (kept_groups gs))
        @ replicate (5 * (length gs - length (kept_groups gs))) 0)"
  using assms
proof (induction gs arbitrary: pre opre i)
  case Nil
  then show ?case using byte_secret_loop_end [of pre i opre] by simp
next
  case (Cons g gs)
  obtain c0 c1 c2 c3 c4 c5 c6 c7 where g: "g = [c0, c1, c2, c3, c4, c5, c6, c7]"
    using Cons.prems(5) by (auto simp: length_Suc_conv eval_nat_numeral)
  let ?z = "replicate (5 * length gs) (0 :: byte)"
  have out: "opre @ replicate (5 * length (g # gs)) 0 = opre @ [0, 0, 0, 0, 0] @ ?z"
    by (simp add: eval_nat_numeral)
  have put: "put_byte slack (i * 5) (\<lambda>b. 0) (opre @ [0, 0, 0, 0, 0] @ ?z) = Inr (opre @ [0, 0, 0, 0, 0] @ ?z)"
    using put_byte_at [OF Cons.prems(2), of 0 "[0, 0, 0, 0, 0] @ ?z" slack "\<lambda>b. 0"] by simp
  have blk: "byte_secret_blocks slack (pre @ concat (g # gs)) i 0 (-1) (opre @ [0, 0, 0, 0, 0] @ ?z)
      = Inr (quintet (last g), opre @ group_bytes g @ ?z)"
    using byte_secret_blocks_group [OF Cons.prems(1,2), of c0 c1 c2 c3 c4 c5 c6 c7 slack "concat gs" "-1"]
      Cons.prems(5) unfolding g by simp
  have "byte_secret_loop slack (pre @ concat (g # gs)) i (opre @ replicate (5 * length (g # gs)) 0)
    = (if quintet (last g) < 5 then Inr (opre @ group_bytes g @ ?z)
       else byte_secret_loop slack ((pre @ g) @ concat gs) (i + 1) ((opre @ group_bytes g) @ ?z))"
    unfolding out by (subst byte_secret_loop.simps)
      (use put blk Cons.prems(1) in \<open>simp del: append.simps\<close>)
  moreover have "byte_secret_loop slack ((pre @ g) @ concat gs) (i + 1) ((opre @ group_bytes g) @ ?z)
    = Inr ((opre @ group_bytes g) @ concat (map group_bytes (kept_groups gs))
        @ replicate (5 * (length gs - length (kept_groups gs))) 0)"
    using Cons.prems by (intro Cons.IH) (simp_all add: group_bytes_length)
  ultimately show ?case by simp
qed

lemma concat_groups8: "length s mod 8 = 0 \<Longrightarrow> concat (groups8 s) = s"
  by (induction s rule: groups8.induct) auto

lemma length_groups8: "length (groups8 s) = length s div 8"
  by (induction s rule: groups8.induct) auto

lemma groups8_all: "list_all P s \<Longrightarrow> list_all (\<lambda>g. length g = 8 \<and> list_all P g) (groups8 s)"
  by (induction s rule: groups8.induct) auto

text \<open>The decoder computes \<open>effective_key\<close>.\<close>

lemma byte_secret_effective:
  assumes "m_base32_secret otp \<noteq> []" "length (m_base32_secret otp) mod 8 = 0"
    "list_all base32_char (m_base32_secret otp)" "0 < slack"
  shows "byte_secret slack otp = Inr (effective_key (m_base32_secret otp))"
proof -
  let ?s = "m_base32_secret otp"
  obtain k where k: "length ?s = 8 * k" using assms(2) by auto
  with assms(1) have "0 < length (groups8 ?s)" by (cases k) (simp_all add: length_groups8)
  from byte_secret_loop_groups [of "[]" 0 "[]" slack "groups8 ?s", OF _ _ assms(4)]
  show ?thesis
    using groups8_all [OF assms(3)] assms(2) \<open>0 < length (groups8 ?s)\<close> k
    by (simp add: byte_secret_def concat_groups8 effective_key_def Let_def length_groups8)
qed

lemma effective_key_decode:
  assumes "\<forall>g \<in> set (butlast (groups8 s)). 5 \<le> quintet (last g)"
  shows "effective_key s = base32_decode s"
proof -
  have "\<forall>g \<in> set (butlast gs). 5 \<le> quintet (last g) \<Longrightarrow> kept_groups gs = gs" for gs
    by (induction gs) (auto split: if_splits)
  with assms show ?thesis by (simp add: effective_key_def base32_decode_def)
qed

section \<open>Codes: lemmas\<close>

lemma zero_pad_replicate: "zero_pad d s = replicate (d - length s) (CHR ''0'') @ s"
proof (induction d s rule: zero_pad.induct)
  case (1 d s)
  show ?case
  proof (cases "length s < d")
    case True
    then have "d - length s = Suc (d - length (''0'' @ s))" by simp
    moreover have "zero_pad d s = replicate (d - length (''0'' @ s)) (CHR ''0'') @ CHR ''0'' # s"
      using 1 True by (simp add: zero_pad.simps [of d s])
    ultimately show ?thesis by (simp only: replicate_app_Cons_same) simp
  qed (simp add: zero_pad.simps)
qed

lemma fixed_digits_0: "fixed_digits d 0 = replicate d (CHR ''0'')"
proof (induction d)
  case (Suc d)
  have "char_of (48 :: nat) = CHR ''0''" by code_simp
  with Suc show ?case by (simp add: replicate_append_same)
qed simp

lemma length_fixed_digits: "length (fixed_digits d n) = d"
  by (induction d n rule: fixed_digits.induct) auto

lemma zero_pad_dec_nat:
  "0 < d \<Longrightarrow> n < 10 ^ d \<Longrightarrow> zero_pad d (dec_nat n) = fixed_digits d n"
proof (induction d arbitrary: n)
  case (Suc d)
  show ?case
  proof (cases "n < 10")
    case True
    then show ?thesis
      by (simp add: zero_pad_replicate dec_nat.simps [of n] fixed_digits_0)
  next
    case False
    with Suc.prems have d: "0 < d" by (cases d) auto
    from Suc.prems have "n div 10 < 10 ^ d" by (simp add: less_mult_imp_div_less mult.commute)
    from Suc.IH [OF d this] False show ?thesis
      by (simp add: zero_pad_replicate dec_nat.simps [of n])
  qed
qed simp

lemma dec_val_zero_pad: "dec_val (zero_pad d s) = dec_val s"
proof -
  have "digit_val (CHR ''0'') = 0" by code_simp
  then have "foldl (\<lambda>v d. 10 * v + digit_val d) 0 (replicate n (CHR ''0'')) = 0" for n
    by (induction n) simp_all
  then show ?thesis by (simp add: zero_pad_replicate dec_val_def)
qed

lemma zero_pad_dec_nat_inj:
  "zero_pad d (dec_nat m) = zero_pad d (dec_nat n) \<longleftrightarrow> m = n"
proof
  assume "zero_pad d (dec_nat m) = zero_pad d (dec_nat n)"
  then have "dec_val (zero_pad d (dec_nat m)) = dec_val (zero_pad d (dec_nat n))" by (rule arg_cong)
  then show "m = n" unfolding dec_val_zero_pad dec_val_dec_nat by simp
qed simp

lemma or_add_bytes:
  fixes a b :: nat
  assumes "b < 2 ^ k"
  shows "push_bit k a OR b = 2 ^ k * a + b"
proof -
  have "take_bit k b = b" using assms by (simp add: take_bit_nat_eq_self)
  then have "\<not> bit b n" if "k \<le> n" for n
    using that by (metis bit_take_bit_iff not_le)
  then have "push_bit k a OR b = push_bit k a + b"
    by (intro disjunctive_add [symmetric]) (auto simp: bit_push_bit_iff not_le)
  then show ?thesis by (simp add: push_bit_eq_mult mult.commute)
qed

lemma unat_or_u32: "unat (x OR y) = unat x OR unat y" for x y :: u32
  by (rule bit_eqI) (simp add: bit_unsigned_iff bit_or_iff)

lemma unat_push_ucast:
  fixes x :: byte
  assumes "k \<le> 24"
  shows "unat (push_bit k (ucast x :: u32)) = push_bit k (unat x)"
proof -
  have "unat x < 2 ^ 8" using unsigned_less [of x] by simp
  then have "unat x * 2 ^ k < 2 ^ 8 * 2 ^ 24"
    using assms power_increasing [of k 24 "2 :: nat"] by (intro mult_less_le_imp_less) simp_all
  then have "take_bit 32 (push_bit k (unat x)) = push_bit k (unat x)"
    by (simp add: push_bit_eq_mult take_bit_eq_mod)
  moreover have "unat (push_bit k (ucast x :: u32)) = take_bit 32 (push_bit k (unat (ucast x :: u32)))"
    by (simp only: unsigned_push_bit_eq) simp
  ultimately show ?thesis by (simp only: unat_ucast_byte)
qed

lemma unat_and_masks:
  "unat (x AND 0xFF) = unat x" "unat (x AND 0x7F) = unat x mod 2 ^ 7" "unat (x AND 0xF) = unat x mod 16"
  for x :: byte
proof -
  have m: "x AND 0xFF = take_bit 8 x" "x AND 0x7F = take_bit 7 x" "x AND 0xF = take_bit 4 x"
    by (simp_all only: take_bit_eq_mask mask_eq_exp_minus_1) simp_all
  have lt: "unat x < 2 ^ 8" using unsigned_less [of x] by simp
  then show "unat (x AND 0xFF) = unat x" "unat (x AND 0x7F) = unat x mod 2 ^ 7"
    "unat (x AND 0xF) = unat x mod 16"
    by (simp_all only: m unsigned_take_bit_eq) (simp_all add: take_bit_eq_mod)
qed

lemma truncate_hmac_rfc:
  assumes "h \<noteq> []"
  shows "truncate_hmac h = rfc4226_value h"
proof -
  let ?o = "unat (last h) mod 16"
  have lt: "unat (x :: byte) < 2 ^ 8" for x using unsigned_less [of x] by simp
  have l: "h ! (length h - 1) = last h" using assms by (simp add: last_conv_nth)
  have 1: "push_bit 8 (unat (h ! (?o + 2))) OR unat (h ! (?o + 3))
      = 2 ^ 8 * unat (h ! (?o + 2)) + unat (h ! (?o + 3))"
    by (rule or_add_bytes [OF lt])
  have 2: "push_bit 16 (unat (h ! (?o + 1))) OR (2 ^ 8 * unat (h ! (?o + 2)) + unat (h ! (?o + 3)))
      = 2 ^ 16 * unat (h ! (?o + 1)) + (2 ^ 8 * unat (h ! (?o + 2)) + unat (h ! (?o + 3)))"
    using lt [of "h ! (?o + 2)"] lt [of "h ! (?o + 3)"] by (intro or_add_bytes) simp
  have 3: "push_bit 24 (unat (h ! ?o) mod 2 ^ 7) OR (2 ^ 16 * unat (h ! (?o + 1))
        + (2 ^ 8 * unat (h ! (?o + 2)) + unat (h ! (?o + 3))))
      = 2 ^ 24 * (unat (h ! ?o) mod 2 ^ 7) + (2 ^ 16 * unat (h ! (?o + 1))
        + (2 ^ 8 * unat (h ! (?o + 2)) + unat (h ! (?o + 3))))"
    using lt [of "h ! (?o + 1)"] lt [of "h ! (?o + 2)"] lt [of "h ! (?o + 3)"]
    by (intro or_add_bytes) simp
  show ?thesis
    unfolding truncate_hmac_def rfc4226_value_def Let_def l unat_and_masks unat_or_u32
    by (subst unat_push_ucast, simp)+ (simp only: unat_and_masks unat_ucast_byte or.assoc 1 2 3 add.assoc)
qed

lemma to_bytes_be64:
  assumes "unat c < 2 ^ 32"
  shows "to_bytes c = be64 c"
proof -
  have hi: "\<not> bit c n" if "32 \<le> n" for n
  proof -
    have "take_bit 32 (unat c) = unat c" using assms by (simp add: take_bit_nat_eq_self)
    then have "\<not> bit (unat c) n" using that by (metis bit_take_bit_iff not_le)
    then show ?thesis by (simp add: bit_unsigned_iff)
  qed
  have m: "ucast (x AND 0xff) = (ucast x :: byte)" for x :: u64
    by (rule byte_eqI) (simp_all add: bit_ucast_iff bit_and_iff)
  have z: "ucast (drop_bit k c) = (0 :: byte)" if "32 \<le> k" for k
    using that hi by (intro byte_eqI) (simp_all add: bit_ucast_iff bit_drop_bit_eq)
  have u: "[0..<8] = [0, 1, 2, 3, 4, 5, 6, 7::nat]" by code_simp
  have r: "replicate 8 (0 :: byte) = [0, 0, 0, 0, 0, 0, 0, 0]" by code_simp
  show ?thesis
    unfolding to_bytes_def be64_def u m r
    by (simp add: z)
qed

section \<open>Properties\<close>

definition wf_OTP :: "'a OTP_scheme \<Rightarrow> bool" where
  "wf_OTP otp =
     (m_base32_secret otp \<noteq> [] \<and> m_digest_algo_name otp \<noteq> [] \<and> m_bits otp mod 8 = 0 \<and>
      152 \<le> m_bits otp \<and> m_algo otp \<noteq> None \<and> 3 \<le> m_digits otp \<and> m_digits otp \<le> 8)"

lemma OTP_new_wf: "OTP_new s b a nm d = Inr otp \<Longrightarrow> wf_OTP otp \<and> m_base32_secret otp = s
    \<and> m_bits otp = b \<and> m_algo otp = a \<and> m_digits otp = d"
  by (auto simp: OTP_new_def wf_OTP_def OTP_MIN_DIGITS_def OTP_MAX_DIGITS_def split: if_splits)

lemma TOTP_new_wf: "TOTP_new s b a nm d iv = Inr otp \<Longrightarrow> wf_OTP otp \<and> m_base32_secret otp = s
    \<and> m_bits otp = b \<and> m_algo otp = a \<and> m_digits otp = d \<and> m_interval otp = iv"
  by (auto simp: TOTP_new_def OTP_new_def wf_OTP_def OTP_MIN_DIGITS_def OTP_MAX_DIGITS_def
      OTP.defs TOTP.defs split: if_splits)

lemma generate_wf:
  assumes "wf_OTP otp" "byte_secret slack otp = Inr key" "m_algo otp = Some algo"
    "algo key (be64 c) = Inr h" "length h = m_bits otp div 8" "unat c < 2 ^ 32"
  shows "generate slack otp c = Inr (zero_pad (m_digits otp) (dec_nat (rfc4226_value h mod 10 ^ m_digits otp)))"
proof -
  have "h \<noteq> []" using assms(1,5) by (auto simp: wf_OTP_def)
  then show ?thesis
    using assms by (simp add: generate_def to_bytes_be64 truncate_hmac_rfc)
qed

text \<open>
  Claim C23: an OTP object that its constructor accepted computes the code of RFC 4226: for a
  counter below 2^32 the code is the truncated HMAC of the eight-byte big-endian counter,
  modulo a power of ten, in exactly \<open>digits\<close> decimal digits; and the dynamic offset never
  reads outside the HMAC.
\<close>

theorem generate_rfc4226:
  assumes "OTP_new secret bits (Some algo) name digits = Inr otp" "byte_secret slack otp = Inr key"
    "algo key (be64 c) = Inr h" "length h = bits div 8" "unat c < 2 ^ 32"
  shows "generate slack otp c = Inr (rfc4226_code digits h) \<and> length (rfc4226_code digits h) = digits
    \<and> unat (last h) mod 16 + 3 < length h"
proof -
  note wf = OTP_new_wf [OF assms(1)]
  have "0 < digits" "unat (last h) mod 16 < 16" using wf by (simp_all add: wf_OTP_def)
  moreover have "19 \<le> length h" using wf assms(4) by (auto simp: wf_OTP_def)
  ultimately show ?thesis
    using generate_wf [of otp slack key algo c h] wf assms
    by (simp add: rfc4226_code_def length_fixed_digits zero_pad_dec_nat)
qed

text \<open>A stand-in for HMAC-SHA1 that gives twenty bytes depending on the key and the message.\<close>

definition toy_hmac :: hmac_fun where
  "toy_hmac md key msg = Some (replicate 16 (sum_list key) @ [3, sum_list msg, 7, 19])"

definition example_otp :: OTP where
  "example_otp =
     \<lparr>m_issuer = [], m_account = [], m_digits = 6, m_bits = 160, m_method = Type_OTP,
      m_algo = Some (hmac_algo_sha1 toy_hmac), m_digest_algo_name = ''SHA1'',
      m_base32_secret = ''JBSWY3DPEHPK3PXP''\<rparr>"

lemma base32_valid_examples:
  "list_all base32_char ''JBSWY3DPEHPK3PXP''" "list_all base32_char ''JBSWY3DAEHPK3PXP''"
  "list_all base32_char ''JBSWY3DAAAAAAAAA''"
  by (simp_all add: base32_char_def)

theorem generate_rfc4226_witness:
  "generate 14 example_otp 37037036
     = Inr (rfc4226_code 6 (replicate 16 (sum_list (effective_key ''JBSWY3DPEHPK3PXP''))
         @ [3, sum_list (be64 37037036), 7, 19]))"
  using generate_rfc4226 [of "''JBSWY3DPEHPK3PXP''" 160 "hmac_algo_sha1 toy_hmac" "''SHA1''" 6 example_otp 14
      "effective_key ''JBSWY3DPEHPK3PXP''" 37037036]
    byte_secret_effective [of example_otp 14] base32_valid_examples
  by (simp add: OTP_new_def OTP_MIN_DIGITS_def OTP_MAX_DIGITS_def example_otp_def
      hmac_algo_sha1_def hmac_def toy_hmac_def)



text \<open>
  The write one byte past the vector: without spare room behind the storage the decoding of
  whole groups ends in undefined behaviour.
\<close>

lemma byte_secret_overrun:
  assumes "length g = 8" "list_all base32_char g" "5 \<le> quintet (last g)" "m_base32_secret otp = g"
  shows "byte_secret 0 otp = Inl (UB ''write past the vector'')"
proof -
  obtain c0 c1 c2 c3 c4 c5 c6 c7 where g: "g = [c0, c1, c2, c3, c4, c5, c6, c7]"
    using assms(1) by (auto simp: length_Suc_conv eval_nat_numeral)
  have blk: "byte_secret_blocks 0 g 0 0 (-1) [0, 0, 0, 0, 0] = Inr (quintet (last g), group_bytes g)"
    using byte_secret_blocks_group [of "[]" 0 "[]" c0 c1 c2 c3 c4 c5 c6 c7 0 "[]" "-1" 0 0 0 0 "[]"]
      assms(2) g by simp
  have five: "replicate 5 (0 :: byte) = [0, 0, 0, 0, 0]" by code_simp
  have "byte_secret_loop 0 g 1 (group_bytes g) = Inl (UB ''write past the vector'')"
    using assms(1) by (subst byte_secret_loop.simps) (simp add: put_byte_def group_bytes_length)
  moreover have "byte_secret_loop 0 g 0 [0, 0, 0, 0, 0] = byte_secret_loop 0 g 1 (group_bytes g)"
    using assms(3) by (subst byte_secret_loop.simps) (simp add: put_byte_def blk)
  ultimately show ?thesis
    unfolding byte_secret_def assms(4) using assms(1) five by simp
qed

text \<open>The window of \<open>verify\<close> reaches from \<open>-w\<close> to \<open>w - 1\<close>.\<close>

lemma ex_ge_split: "(\<exists>i. lo \<le> i \<and> P i) \<longleftrightarrow> P lo \<or> (\<exists>i. lo + 1 \<le> i \<and> P i)" for lo :: int
proof -
  have *: "lo \<le> i \<longleftrightarrow> i = lo \<or> lo + 1 \<le> i" for i by arith
  show ?thesis by (subst *) blast
qed

lemma verify_window_iff:
  assumes "\<And>i. lo \<le> i \<Longrightarrow> i < hi \<Longrightarrow> code_at slack otp t (of_int i) = Inr (code i)"
  shows "verify_window slack otp key t lo hi = Inr (\<exists>i. lo \<le> i \<and> i < hi \<and> key = code i)"
  using assms
proof (induction slack otp key t lo hi rule: verify_window.induct)
  case (1 slack otp key t lo hi)
  show ?case
  proof (cases "lo < hi")
    case True
    then have c: "compare_str slack otp key (of_int lo) t = Inr (key = code lo)"
      using "1.prems" [of lo] by (simp add: compare_str_def)
    have ih: "verify_window slack otp key t (lo + 1) hi = Inr (\<exists>i. lo + 1 \<le> i \<and> i < hi \<and> key = code i)"
      if "key \<noteq> code lo"
      using "1.IH" [OF True c] that "1.prems" by simp
    have "(\<exists>i. lo \<le> i \<and> i < hi \<and> key = code i)
        \<longleftrightarrow> key = code lo \<or> (\<exists>i. lo + 1 \<le> i \<and> i < hi \<and> key = code i)"
      using True ex_ge_split [of lo "\<lambda>i. i < hi \<and> key = code i"] by simp
    then show ?thesis
      using True c ih by (subst verify_window.simps) (cases "key = code lo"; simp)
  next
    case False
    then show ?thesis by (subst verify_window.simps) auto
  qed
qed

lemma move_loses_secret:
  "m_base32_secret (fst (TOTP_move_new fresh other)) = []"
  "m_interval (fst (TOTP_move_new fresh other)) = m_interval fresh"
  "m_issuer (fst (TOTP_move_new fresh other)) = []"
  by (simp_all add: TOTP_move_new_def TOTP_move_assign_def OTP_move_assign_def)

lemma stoul_dec_nat:
  assumes "n < 2 ^ 64"
  shows "stoul (dec_nat n) = Inr n"
proof -
  obtain x xs where x: "dec_nat n = x # xs" using dec_nat_digits(2) [of n] by (cases "dec_nat n") auto
  have "is_digit y" if "y \<in> set (dec_nat n)" for y
    using dec_nat_digits(1) [of n] that by (auto simp: list_all_iff)
  then have "is_digit x" and tw: "takeWhile is_digit (dec_nat n) = dec_nat n"
    using x by (simp, auto simp: takeWhile_eq_all_conv)
  then have "\<not> is_space x" "x \<noteq> CHR ''-''" "x \<noteq> CHR ''+''"
    unfolding is_digit_def is_space_def less_eq_char_def by auto
  with x have "dropWhile is_space (dec_nat n) = dec_nat n" "hd (dec_nat n) \<noteq> CHR ''-''" "hd (dec_nat n) \<noteq> CHR ''+''"
    by simp_all
  then show ?thesis
    unfolding stoul_def Let_def using assms dec_nat_digits(2) [of n] dec_val_dec_nat [of n]
    by (simp add: tw)
qed

lemma build_uri_period:
  assumes "TOTP_named algo_map secret algo digits iv = Inr otp" "iv < 2 ^ 64"
  shows "TOTP_build_uri otp = Inr (get_uri (OTP_URI_default\<lparr>uri_type := ''totp'',
     uri_account := m_account otp, uri_secret := m_base32_secret otp, uri_issuer := m_issuer otp,
     uri_algorithm := m_digest_algo_name otp, uri_digits := m_digits otp, uri_counter := iv\<rparr>))"
proof -
  have iv: "m_interval otp = iv"
    using assms(1) TOTP_new_wf by (fastforce simp: TOTP_named_def bind_res_Inr_iff)
  show ?thesis
    by (simp add: TOTP_build_uri_def build_uri_with_def iv stoul_dec_nat [OF assms(2)])
qed

text \<open>
  Claim C33: when the eighth character of a sixteen-character secret is one of A to E, the
  second half of the secret is ignored: every secret with the same first half has the same
  codes.
\<close>

theorem otp_secret_half_ignored:
  assumes "length s1 = 8" "list_all base32_char s1" "quintet (last s1) < 5" "0 < slack"
    "length s2 = 8" "list_all base32_char s2" "length s3 = 8" "list_all base32_char s3"
  shows "generate slack (otp\<lparr>m_base32_secret := s1 @ s2\<rparr>) c = generate slack (otp\<lparr>m_base32_secret := s1 @ s3\<rparr>) c"
proof -
  have g: "groups8 (x @ y) = [x, y]" if "length x = 8" "length y = 8" for x y
    using that by (auto simp: length_Suc_conv eval_nat_numeral)
  have "byte_secret slack (otp\<lparr>m_base32_secret := s1 @ s\<rparr>) = Inr (group_bytes s1 @ replicate 5 0)"
    if "length s = 8" "list_all base32_char s" for s
    using byte_secret_effective [of "otp\<lparr>m_base32_secret := s1 @ s\<rparr>" slack] that assms g [OF assms(1) that(1)]
    by (cases s1) (auto simp: effective_key_def)
  from this [OF assms(5,6)] this [OF assms(7,8)] show ?thesis
    unfolding generate_def by (cases "m_algo otp") (simp_all cong: if_cong)
qed

theorem otp_secret_half_ignored_witness:
  "generate 14 (example_otp\<lparr>m_base32_secret := ''JBSWY3DA'' @ ''EHPK3PXP''\<rparr>) 5
     = generate 14 (example_otp\<lparr>m_base32_secret := ''JBSWY3DA'' @ ''AAAAAAAA''\<rparr>) 5"
  by (rule otp_secret_half_ignored) (simp_all add: base32_char_def quintet_def)

end
