(* ===== verification/Otp_Manager.thy ===== *)
theory Otp_Manager
  imports Cotp
begin

text \<open>
  src/otp/otp_manager.cpp: the in-memory one-time password state of the server, a TOTP object
  and a secret per user id. The draws of \<open>rand\<close>, the HMAC function \<open>hm\<close> and the time are
  arguments.
\<close>

record OTPManager =
  user_otps :: "string \<rightharpoonup> TOTP"
  user_secrets :: "string \<rightharpoonup> string"

definition empty_manager :: OTPManager where
  "empty_manager = \<lparr>user_otps = Map.empty, user_secrets = Map.empty\<rparr>"

definition generate_otp_uri ::
  "hmac_fun \<Rightarrow> (nat \<Rightarrow> nat) \<Rightarrow> string \<Rightarrow> OTPManager \<Rightarrow> (string \<times> OTPManager) res" where
  "generate_otp_uri hm rnd user_id m =
     (let secret = random_base32 rnd 16
      in bind_res (TOTP_named (otp_algorithm_map hm) secret ''SHA1'' 6 30) (\<lambda>totp.
         let totp = set_issuer ''OTP Console Program'' (set_account user_id totp)
         in bind_res (TOTP_build_uri totp) (\<lambda>uri.
            Inr (uri, \<lparr>user_otps = (user_otps m)(user_id \<mapsto> totp),
                       user_secrets = (user_secrets m)(user_id \<mapsto> secret)\<rparr>))))"

text \<open>The \<open>int\<close> is converted to \<open>uint64_t\<close>; \<open>now\<close> is the time of day in seconds.\<close>

definition verify_otp :: "nat \<Rightarrow> u64 \<Rightarrow> string \<Rightarrow> int \<Rightarrow> OTPManager \<Rightarrow> bool res" where
  "verify_otp slack now user_id otp m =
     (case user_otps m user_id of
        Some totp \<Rightarrow> verify_int slack totp (of_int otp) now 0
      | None \<Rightarrow> Inr False)"

definition get_secret :: "string \<Rightarrow> OTPManager \<Rightarrow> string" where
  "get_secret user_id m = (case user_secrets m user_id of Some s \<Rightarrow> s | None \<Rightarrow> '''')"

definition register_otp :: "hmac_fun \<Rightarrow> string \<Rightarrow> string \<Rightarrow> OTPManager \<Rightarrow> OTPManager res" where
  "register_otp hm user_id secret m =
     (if secret = [] then Inr m
      else bind_res (TOTP_named (otp_algorithm_map hm) secret ''SHA1'' 6 30) (\<lambda>totp.
           let totp = set_issuer ''OTP Console Program'' (set_account user_id totp)
           in Inr \<lparr>user_otps = (user_otps m)(user_id \<mapsto> totp),
                   user_secrets = (user_secrets m)(user_id \<mapsto> secret)\<rparr>))"

section \<open>Lemmas\<close>

text \<open>The HMAC-SHA1 of OpenSSL returns and gives twenty bytes.\<close>

definition hmac_sha1_ok :: "hmac_fun \<Rightarrow> bool" where
  "hmac_sha1_ok hm = (\<forall>key msg. \<exists>h. hm EVP_sha1 key msg = Some h \<and> length h = 20)"

definition server_totp :: "hmac_fun \<Rightarrow> string \<Rightarrow> string \<Rightarrow> TOTP" where
  "server_totp hm user_id secret =
     \<lparr>m_issuer = ''OTP Console Program'', m_account = user_id, m_digits = 6, m_bits = 160,
      m_method = Type_TOTP, m_algo = Some (hmac_algo_sha1 hm), m_digest_algo_name = ''SHA1'',
      m_base32_secret = secret, m_interval = 30\<rparr>"

lemma TOTP_named_server:
  "secret \<noteq> [] \<Longrightarrow> bind_res (TOTP_named (otp_algorithm_map hm) secret ''SHA1'' 6 30) f
     = f (server_totp hm user_id secret\<lparr>m_issuer := [], m_account := []\<rparr>)"
  by (simp add: TOTP_named_def otp_algorithm_map_def map_at_def TOTP_new_def OTP_new_def
      OTP_MIN_DIGITS_def OTP_MAX_DIGITS_def server_totp_def OTP.defs TOTP.defs)

lemma register_otp_server:
  assumes "secret \<noteq> []"
  shows "register_otp hm user_id secret m =
     Inr \<lparr>user_otps = (user_otps m)(user_id \<mapsto> server_totp hm user_id secret),
          user_secrets = (user_secrets m)(user_id \<mapsto> secret)\<rparr>"
  using assms
  by (simp add: register_otp_def TOTP_named_server [of _ _ _ user_id] set_issuer_def set_account_def
      Let_def server_totp_def)

lemma length_random_base32: "length (random_base32 rnd n) = (if n > 0 then n else 16)"
  by (simp add: random_base32_def)

lemma random_base32_valid: "list_all base32_char (random_base32 rnd n)"
proof -
  have "list_all (\<lambda>k. base32_char (base32_chars ! k)) [0..<32]" by code_simp
  then have "base32_char (base32_chars ! (k mod 32))" for k
    by (simp add: list_all_iff)
  then show ?thesis by (simp add: random_base32_def list_all_iff)
qed

lemma generate_otp_uri_server:
  "\<exists>uri. generate_otp_uri hm rnd user_id m = Inr (uri,
     \<lparr>user_otps = (user_otps m)(user_id \<mapsto> server_totp hm user_id (random_base32 rnd 16)),
      user_secrets = (user_secrets m)(user_id \<mapsto> random_base32 rnd 16)\<rparr>)"
proof -
  let ?s = "random_base32 rnd 16" let ?t = "server_totp hm user_id ?s"
  have s: "?s \<noteq> []" using length_random_base32 [of rnd 16] by auto
  have "stoul (dec_nat 30) = Inr 30" by (rule stoul_dec_nat) simp
  then obtain uri where u: "TOTP_build_uri ?t = Inr uri"
    by (simp add: TOTP_build_uri_def build_uri_with_def server_totp_def Let_def)
  have t: "set_issuer ''OTP Console Program'' (set_account user_id (?t\<lparr>m_issuer := [], m_account := []\<rparr>)) = ?t"
    by (simp add: set_issuer_def set_account_def server_totp_def)
  show ?thesis
    unfolding generate_otp_uri_def Let_def TOTP_named_server [OF s, of _ _ user_id] t u by simp
qed

lemma scast_ucast_small:
  assumes "unat (x :: u64) < 2 ^ 31"
  shows "scast (ucast x :: u32) = x"
proof -
  have "take_bit 31 (unat x) = unat x" using assms by (simp add: take_bit_nat_eq_self)
  then have "\<not> bit (unat x) n" if "31 \<le> n" for n using that by (metis bit_take_bit_iff not_le)
  then have hi: "\<not> bit x n" if "31 \<le> n" for n using that by (simp add: bit_unsigned_iff)
  show ?thesis
  proof (rule bit_word_eqI)
    fix n assume "n < LENGTH(64)"
    then show "bit (scast (ucast x :: u32) :: u64) n = bit x n"
      using hi [of n] hi [of 31] by (cases "31 \<le> n") (auto simp: bit_signed_iff bit_ucast_iff min_def)
  qed
qed

definition totp_value :: "hmac_fun \<Rightarrow> bytes \<Rightarrow> u64 \<Rightarrow> nat" where
  "totp_value hm key now =
     rfc4226_value (the (hm EVP_sha1 key (be64 (now div 30)))) mod 10 ^ 6"

lemma unat_of_int_eq:
  assumes "- (2 ^ 31) \<le> i" "i < 2 ^ 31" "n < 10 ^ 6"
  shows "unat (word_of_int i :: u64) = n \<longleftrightarrow> i = int n"
proof -
  define m where "m = unat (word_of_int i :: u64)"
  have "int m = i mod 2 ^ 64"
    by (simp add: m_def uint_word_of_int)
  moreover have "i mod 2 ^ 64 = (if i < 0 then i + 2 ^ 64 else i)"
  proof (cases "i < 0")
    case True
    have "i mod 2 ^ 64 = (i + 2 ^ 64) mod 2 ^ 64" by simp
    also have "\<dots> = i + 2 ^ 64" using True assms(1) by (intro mod_pos_pos_trivial) simp_all
    finally show ?thesis using True by simp
  next
    case False
    then show ?thesis using assms(2) by (simp add: mod_pos_pos_trivial)
  qed
  ultimately have "m = n \<longleftrightarrow> i = int n" using assms by (cases "i < 0") auto
  then show ?thesis by (simp only: m_def)
qed

lemma verify_server_totp:
  assumes "hmac_sha1_ok hm" "0 < slack" "secret \<noteq> []" "length secret mod 8 = 0"
    "list_all base32_char secret" "unat now div 30 < 2 ^ 31" "- (2 ^ 31) \<le> otp" "otp < 2 ^ 31"
  shows "verify_int slack (server_totp hm user_id secret) (of_int otp) now 0
    = Inr (otp = int (totp_value hm (effective_key secret) now))"
proof -
  let ?t = "server_totp hm user_id secret" and ?key = "effective_key secret" and ?c = "now div 30"
  obtain h where h: "hm EVP_sha1 ?key (be64 ?c) = Some h" "length h = 20"
    using assms(1) by (auto simp: hmac_sha1_ok_def)
  have c: "unat ?c < 2 ^ 31" using assms(6) by (simp add: unat_div_distrib)
  have k: "byte_secret slack ?t = Inr ?key"
    using byte_secret_effective [of ?t slack] assms by (simp add: server_totp_def)
  have g: "generate slack ?t ?c = Inr (zero_pad 6 (dec_nat (totp_value hm ?key now)))"
    using generate_wf [of ?t slack ?key "hmac_algo_sha1 hm" ?c h] k h c assms(3)
    by (simp add: server_totp_def wf_OTP_def hmac_algo_sha1_def hmac_def totp_value_def)
  have "code_at slack ?t now 0 = generate slack ?t ?c"
    using scast_ucast_small [OF c] by (simp add: code_at_def timecode_def server_totp_def)
  then have "verify_int slack ?t (of_int otp) now 0
      = Inr (unat (of_int otp :: u64) = totp_value hm ?key now)"
    using g by (simp add: verify_int_def verify_str_def compare_str_def zero_pad_dec_nat_inj server_totp_def)
  also have "totp_value hm ?key now < 10 ^ 6" by (simp add: totp_value_def)
  then have "(unat (of_int otp :: u64) = totp_value hm ?key now) = (otp = int (totp_value hm ?key now))"
    by (rule unat_of_int_eq [OF assms(7,8)])
  finally show ?thesis .
qed

section \<open>Properties\<close>


lemma toy_hmac_ok: "hmac_sha1_ok toy_hmac"
  by (simp add: hmac_sha1_ok_def toy_hmac_def)

definition example_manager :: OTPManager where
  "example_manager = snd (projr (generate_otp_uri toy_hmac (\<lambda>k. 7 * k) ''alice'' empty_manager))"


text \<open>
  The OTP state survives a restart: registering the stored secret in a new
  manager gives the same verdict for every code at every time as the manager that issued it.
\<close>

theorem otp_survives_restart:
  assumes "generate_otp_uri hm rnd user_id m = Inr (uri, m')"
  shows "\<exists>m2. register_otp hm user_id (get_secret user_id m') m1 = Inr m2
    \<and> verify_otp slack now user_id otp m2 = verify_otp slack now user_id otp m'
    \<and> get_secret user_id m2 = get_secret user_id m'"
proof -
  let ?s = "random_base32 rnd 16"
  have m': "user_otps m' user_id = Some (server_totp hm user_id ?s)" "get_secret user_id m' = ?s"
    using assms(1) generate_otp_uri_server [of hm rnd user_id m] by (auto simp: get_secret_def)
  have "?s \<noteq> []" using length_random_base32 [of rnd 16] by auto
  from register_otp_server [OF this] m' show ?thesis
    by (simp add: verify_otp_def get_secret_def)
qed

theorem otp_survives_restart_witness:
  "\<exists>m2. register_otp toy_hmac ''alice'' (get_secret ''alice'' example_manager) empty_manager = Inr m2
    \<and> verify_otp 14 1700000000 ''alice'' 123456 m2 = verify_otp 14 1700000000 ''alice'' 123456 example_manager
    \<and> get_secret ''alice'' m2 = get_secret ''alice'' example_manager"
proof -
  obtain uri m' where g: "generate_otp_uri toy_hmac (\<lambda>k. 7 * k) ''alice'' empty_manager = Inr (uri, m')"
    using generate_otp_uri_server by blast
  from otp_survives_restart [OF g] show ?thesis unfolding example_manager_def g by simp
qed

end
