(* ===== verification/Qr_Code.thy ===== *)
theory Qr_Code
  imports Qr_Matrix Otp_Manager
begin

text \<open>
  The wrapper of src/src/otp/qr_code.cpp around the QR encoder and its SVG output, and
  \<open>OTPManager::generate_qr_code_svg\<close> of otp_manager.cpp. The last part reads the path of
  the SVG image back and shows that it draws exactly the dark modules.
\<close>

section \<open>Decorations\<close>

record QR_decoration =
  svg :: string
  d_width :: real
  d_height :: real
  d_x :: real
  d_y :: real

definition nl :: char where "nl = CHR 0x0A"
definition tab :: char where "tab = CHR 0x09"
definition dq :: char where "dq = CHR 0x22"

text \<open>The text of the default decoration before, between and after its place holders.\<close>

definition deco_head :: string where
  "deco_head =
     ''<?xml version='' @ [dq] @ ''1.0'' @ [dq] @ '' encoding='' @ [dq] @ ''UTF-8'' @ [dq] @ ''?>'' @ [nl]
     @ ''<!DOCTYPE svg PUBLIC '' @ [dq] @ ''-//W3C//DTD SVG 1.1//EN'' @ [dq] @ '' '' @ [dq]
     @ ''http://www.w3.org/Graphics/SVG/1.1/DTD/svg11.dtd'' @ [dq] @ ''>'' @ [nl]
     @ ''<svg xmlns='' @ [dq] @ ''http://www.w3.org/2000/svg'' @ [dq] @ '' version='' @ [dq] @ ''1.1'' @ [dq]
     @ '' viewBox='' @ [dq]"

definition deco_rect :: string where
  "deco_rect =
     [dq] @ '' stroke='' @ [dq] @ ''none'' @ [dq] @ ''>'' @ [nl, tab]
     @ ''<rect width='' @ [dq] @ ''100%'' @ [dq] @ '' height='' @ [dq] @ ''100%'' @ [dq] @ '' fill='' @ [dq]
     @ ''#FFFFFF'' @ [dq] @ ''/>'' @ [nl, tab] @ ''<g transform='' @ [dq] @ ''translate(''"

definition deco_group :: string where
  "deco_group = '')'' @ [dq] @ ''>'' @ [nl, tab, tab]"

definition deco_tail :: string where
  "deco_tail = [nl, tab] @ ''</g>'' @ [nl] @ ''</svg>'' @ [nl]"

definition default_decoration :: QR_decoration where
  "default_decoration =
     \<lparr>svg = deco_head @ ''%viewbox%'' @ deco_rect @ ''%translate%'' @ deco_group @ ''%qr_code%'' @ deco_tail,
      d_width = 1000, d_height = 1000, d_x = 0, d_y = 0\<rparr>"

section \<open>The object\<close>

text \<open>The shared pointer to the QR code is null (None) before the first content.\<close>

record QR_code =
  m_content :: string
  m_qr :: "QrCode option"
  m_error_correction_level :: Ecc
  m_border :: nat
  m_decoration :: QR_decoration

definition QR_code_new :: QR_code where
  "QR_code_new =
     \<lparr>m_content = [], m_qr = None, m_error_correction_level = MEDIUM, m_border = 4,
      m_decoration = default_decoration\<rparr>"

definition set_content :: "string \<Rightarrow> QR_code \<Rightarrow> QR_code res" where
  "set_content val q =
     bind_res (encodeText (c_str val) (m_error_correction_level q)) (\<lambda>qr.
       Inr (q\<lparr>m_content := val, m_qr := Some qr\<rparr>))"

definition set_error_correction_level :: "Ecc \<Rightarrow> QR_code \<Rightarrow> QR_code" where
  "set_error_correction_level val q = q\<lparr>m_error_correction_level := val\<rparr>"

definition set_border :: "nat \<Rightarrow> QR_code \<Rightarrow> QR_code res" where
  "set_border val q =
     (if val \<ge> 1024 then Inl (Logic_error ''border too big'') else Inr (q\<lparr>m_border := val\<rparr>))"

definition get_content :: "QR_code \<Rightarrow> string" where
  "get_content q = m_content q"

definition get_error_correction_level :: "QR_code \<Rightarrow> Ecc" where
  "get_error_correction_level q = m_error_correction_level q"

definition get_border :: "QR_code \<Rightarrow> nat" where
  "get_border q = m_border q"

definition set_decoration :: "QR_decoration \<Rightarrow> QR_code \<Rightarrow> QR_code" where
  "set_decoration val q = q\<lparr>m_decoration := val\<rparr>"

definition clear_decoration :: "QR_code \<Rightarrow> QR_code" where
  "clear_decoration q = q\<lparr>m_decoration := default_decoration\<rparr>"

text \<open>\<open>std::to_string\<close> of a double: six decimals, the nearest value, a tie to even.\<close>

definition micros :: "real \<Rightarrow> nat" where
  "micros r =
     (let s = \<bar>r\<bar> * 1000000; n = \<lfloor>s\<rfloor>; rest = s - of_int n
      in nat (if rest < 1 / 2 \<or> rest = 1 / 2 \<and> even n then n else n + 1))"

definition six_digits :: "nat \<Rightarrow> string" where
  "six_digits n = (let s = dec_nat n in replicate (6 - length s) CHR ''0'' @ s)"

definition to_string_double :: "real \<Rightarrow> string" where
  "to_string_double r =
     (let n = micros r
      in (if r < 0 then ''-'' else []) @ dec_nat (n div 1000000) @ ''.'' @ six_digits (n mod 1000000))"

definition replace :: "string \<Rightarrow> string \<Rightarrow> string \<Rightarrow> string" where
  "replace str what by_str =
     (case find_sub what str of
        None \<Rightarrow> str
      | Some pos \<Rightarrow> take pos str @ by_str @ drop (pos + length what) str)"

definition square :: "nat \<Rightarrow> nat \<Rightarrow> nat \<Rightarrow> string" where
  "square border x y =
     (if x \<noteq> 0 \<or> y \<noteq> 0 then '' '' else [])
     @ ''M'' @ dec_nat (x + border) @ '','' @ dec_nat (y + border) @ ''h1v1h-1z''"

definition module_path :: "nat \<Rightarrow> (int \<Rightarrow> int \<Rightarrow> bool) \<Rightarrow> nat \<Rightarrow> string" where
  "module_path qr_size dark border =
     concat (map (\<lambda>y. concat (map (\<lambda>x.
       if dark (int x) (int y) then square border x y else []) [0..<qr_size])) [0..<qr_size])"

text \<open>\<open>fl\<close> rounds the result of a floating-point operation to a double.\<close>

definition get_svg :: "(real \<Rightarrow> real) \<Rightarrow> QR_code \<Rightarrow> string" where
  "get_svg fl q =
     (let qr_size = (case m_qr q of Some qr \<Rightarrow> nat (qsize qr) | None \<Rightarrow> 0);
          dark = (case m_qr q of Some qr \<Rightarrow> getModule qr | None \<Rightarrow> (\<lambda>x y. False));
          deco = m_decoration q;
          qr_size_with_border = qr_size + 2 * m_border q;
          scale = fl (fl (of_nat qr_size_with_border) / 1000);
          viewbox = ''0 0 '' @ to_string_double (fl (d_width deco * scale)) @ '' ''
            @ to_string_double (fl (d_height deco * scale));
          scale_str = to_string_double scale @ '' '' @ to_string_double scale;
          translate = to_string_double (fl (d_x deco * scale)) @ '' '' @ to_string_double (fl (d_y deco * scale));
          qr_code = [tab] @ ''<path d='' @ [dq] @ module_path qr_size dark (m_border q)
            @ [dq] @ '' fill='' @ [dq] @ ''#000000'' @ [dq] @ ''/>''
      in replace (replace (replace (replace (svg deco) ''%viewbox%'' viewbox)
           ''%scale%'' scale_str) ''%translate%'' translate) ''%qr_code%'' qr_code)"

definition generate_qr_code_svg :: "(real \<Rightarrow> real) \<Rightarrow> string \<Rightarrow> string res" where
  "generate_qr_code_svg fl otp_uri =
     bind_res (set_content otp_uri QR_code_new) (\<lambda>qr. Inr (get_svg fl qr))"

section \<open>Reading the image\<close>

text \<open>The unit squares a path of relative moves draws.\<close>

function read_squares :: "string \<Rightarrow> (nat \<times> nat) list option" where
  "read_squares s =
     (case dropWhile (\<lambda>c. c = CHR '' '') s of
        [] \<Rightarrow> Some []
      | c # t \<Rightarrow>
          (let t1 = dropWhile is_digit t; t2 = dropWhile is_digit (tl t1)
           in if c = CHR ''M'' \<and> take 1 t1 = '','' \<and> take 8 t2 = ''h1v1h-1z''
              then map_option
                ((#) (nat (dec_val (takeWhile is_digit t)), nat (dec_val (takeWhile is_digit (tl t1)))))
                (read_squares (drop 8 t2))
              else None))"
  by pat_completeness auto
termination
proof (relation "measure length", goal_cases)
  case (2 s c t t1 t2)
  have "length t2 \<le> length t1" by (simp add: 2 le_trans [OF length_dropWhile_le])
  also have "\<dots> \<le> length t" by (simp add: 2 length_dropWhile_le)
  also have "\<dots> < length s"
    using length_dropWhile_le [of "\<lambda>c. c = CHR '' ''" s] 2(1) by simp
  finally show ?case by simp
qed simp

declare read_squares.simps [simp del]

definition dark_modules :: "QrCode \<Rightarrow> (nat \<times> nat) list" where
  "dark_modules qr =
     filter (\<lambda>(x, y). getModule qr (int x) (int y))
       (concat (map (\<lambda>y. map (\<lambda>x. (x, y)) [0..<nat (qsize qr)]) [0..<nat (qsize qr)]))"

lemma takeWhile_dec_nat:
  assumes "\<not> is_digit c"
  shows "takeWhile is_digit (dec_nat n @ c # t) = dec_nat n" "dropWhile is_digit (dec_nat n @ c # t) = c # t"
proof -
  have "\<forall>x\<in>set (dec_nat n). is_digit x"
    using dec_nat_digits(1) [of n] by (simp add: list_all_iff)
  with assms show "takeWhile is_digit (dec_nat n @ c # t) = dec_nat n" "dropWhile is_digit (dec_nat n @ c # t) = c # t"
    by (simp_all add: takeWhile_append dropWhile_append)
qed

lemma not_digits: "\<not> is_digit CHR '',''" "\<not> is_digit CHR ''h''"
  by (simp_all add: is_digit_def less_eq_char_def)

lemma read_squares_square:
  "read_squares (square b x y @ rest) = map_option ((#) (x + b, y + b)) (read_squares rest)"
proof -
  have "dropWhile (\<lambda>c. c = CHR '' '') (square b x y @ rest)
      = CHR ''M'' # dec_nat (x + b) @ CHR '','' # dec_nat (y + b) @ CHR ''h'' # ''1v1h-1z'' @ rest"
    by (simp add: square_def)
  then show ?thesis
    by (subst read_squares.simps) (simp add: takeWhile_dec_nat not_digits dec_val_dec_nat flip: of_nat_add)
qed

lemma read_squares_concat:
  "read_squares (concat (map (\<lambda>(x, y). square b x y) ps)) = Some (map (\<lambda>(x, y). (x + b, y + b)) ps)"
proof (induction ps)
  case Nil
  show ?case by (simp add: read_squares.simps [of "[]"])
next
  case (Cons p ps)
  then show ?case by (cases p) (simp add: read_squares_square)
qed

lemma concat_map_concat: "concat (concat (map g xs)) = concat (map (\<lambda>x. concat (g x)) xs)"
  by (induction xs) simp_all

lemma concat_if_filter: "concat (map (\<lambda>p. if P p then f p else []) ps) = concat (map f (filter P ps))"
  by (induction ps) simp_all

lemma module_path_eq:
  "module_path (nat (qsize qr)) (getModule qr) b = concat (map (\<lambda>(x, y). square b x y) (dark_modules qr))"
proof -
  have "concat (map (\<lambda>(x, y). square b x y) (dark_modules qr))
      = concat (map (\<lambda>p. if (\<lambda>(x, y). getModule qr (int x) (int y)) p then (\<lambda>(x, y). square b x y) p else [])
          (concat (map (\<lambda>y. map (\<lambda>x. (x, y)) [0..<nat (qsize qr)]) [0..<nat (qsize qr)])))"
    unfolding dark_modules_def concat_if_filter ..
  then show ?thesis
    by (simp add: module_path_def map_concat comp_def concat_map_concat cong: if_cong)
qed

lemma find_sub_skip:
  "c \<notin> set s \<Longrightarrow> find_sub (c # p) (s @ t) = map_option ((+) (length s)) (find_sub (c # p) t)"
  by (induction s) (auto split: option.split simp: option.map_ident_strong)

lemma replace_skip: "c \<notin> set s \<Longrightarrow> replace (s @ t) (c # p) w = s @ replace t (c # p) w"
  by (simp add: replace_def find_sub_skip split: option.split)

lemma replace_here: "replace ((c # p) @ t) (c # p) w = w @ t"
  by (simp add: replace_def)

lemma replace_Cons: "take (length p) (x # t) \<noteq> p \<Longrightarrow> replace (x # t) p w = x # replace t p w"
  by (simp add: replace_def split: option.split)

lemma replace_absent: "c \<notin> set s \<Longrightarrow> replace s (c # p) w = s"
  using find_sub_skip [of c s p "[]"] by (simp add: replace_def)

lemma no_percent_dec: "CHR ''%'' \<notin> set (dec_nat n)"
  using dec_nat_digits(1) [of n] by (auto simp: list_all_iff is_digit_def less_eq_char_def)

lemma no_quote_dec: "CHR 0x22 \<notin> set (dec_nat n)"
  using dec_nat_digits(1) [of n] by (auto simp: list_all_iff is_digit_def less_eq_char_def)

lemma no_percent_double: "CHR ''%'' \<notin> set (to_string_double r)"
  by (auto simp: to_string_double_def six_digits_def Let_def no_percent_dec)

definition svg_with :: "string \<Rightarrow> string \<Rightarrow> string \<Rightarrow> string" where
  "svg_with viewbox translate qr_code = deco_head @ viewbox @ deco_rect @ translate @ deco_group @ qr_code @ deco_tail"

lemma replace_rect:
  assumes "p \<noteq> []" "hd p \<noteq> dq"
  shows "replace (deco_rect @ t) (CHR ''%'' # p) w = deco_rect @ replace t (CHR ''%'' # p) w"
proof -
  obtain a p' where p: "p = a # p'" "a \<noteq> dq" using assms by (cases p) auto
  have 1: "replace (CHR ''%'' # r @ u) (CHR ''%'' # p) w = CHR ''%'' # replace (r @ u) (CHR ''%'' # p) w"
    if "r \<noteq> []" "hd r = dq" for r u
    using p that by (intro replace_Cons) (cases r; auto)
  define r1 where "r1 = [dq] @ '' stroke='' @ [dq] @ ''none'' @ [dq] @ ''>'' @ [nl, tab]
     @ ''<rect width='' @ [dq] @ ''100''"
  define r2 where "r2 = [dq] @ '' height='' @ [dq] @ ''100''"
  define r3 where "r3 = [dq] @ '' fill='' @ [dq]
     @ ''#FFFFFF'' @ [dq] @ ''/>'' @ [nl, tab] @ ''<g transform='' @ [dq] @ ''translate(''"
  have r: "deco_rect = r1 @ CHR ''%'' # r2 @ CHR ''%'' # r3"
    by (simp add: deco_rect_def r1_def r2_def r3_def)
  have n: "CHR ''%'' \<notin> set r1" "CHR ''%'' \<notin> set r2" "CHR ''%'' \<notin> set r3"
    by (simp_all add: r1_def r2_def r3_def dq_def nl_def tab_def)
  have d: "r2 \<noteq> []" "hd r2 = dq" "r3 \<noteq> []" "hd r3 = dq"
    by (simp_all add: r2_def r3_def)
  show ?thesis by (simp add: r replace_skip n 1 d)
qed

lemma no_percent_parts: "CHR ''%'' \<notin> set deco_head" "CHR ''%'' \<notin> set deco_group" "CHR ''%'' \<notin> set deco_tail"
  by (simp_all add: deco_head_def deco_group_def deco_tail_def dq_def nl_def tab_def)

lemma replace_other:
  assumes "CHR ''%'' \<notin> set n" "take (length p) (n @ CHR ''%'' # t) \<noteq> p" "take (length p) t \<noteq> p"
  shows "replace (CHR ''%'' # n @ CHR ''%'' # t) (CHR ''%'' # p) w = CHR ''%'' # n @ CHR ''%'' # replace t (CHR ''%'' # p) w"
  using assms by (simp add: replace_Cons replace_skip)

lemma replace_default:
  assumes v: "CHR ''%'' \<notin> set v" and tr: "CHR ''%'' \<notin> set tr"
  shows "replace (replace (replace (replace (svg default_decoration) ''%viewbox%'' v)
           ''%scale%'' sc) ''%translate%'' tr) ''%qr_code%'' qr = svg_with v tr qr"
proof -
  note skip = replace_skip [OF no_percent_parts(1)] replace_skip [OF no_percent_parts(2)]
    replace_absent [OF no_percent_parts(3)] replace_skip [OF v] replace_skip [OF tr]
  have 1: "replace (svg default_decoration) ''%viewbox%'' v
      = deco_head @ v @ deco_rect @ ''%translate%'' @ deco_group @ ''%qr_code%'' @ deco_tail"
    unfolding default_decoration_def QR_decoration.select_convs skip replace_here ..
  have "replace (''%qr_code%'' @ deco_tail) ''%scale%'' sc = ''%qr_code%'' @ deco_tail"
    using replace_other [of "''qr_code''" "''scale%''" deco_tail sc] skip(3) [of "''scale%''" sc]
    by (simp add: deco_tail_def nl_def)
  moreover have "replace (''%translate%'' @ deco_group @ t) ''%scale%'' sc = ''%translate%'' @ replace (deco_group @ t) ''%scale%'' sc" for t
    using replace_other [of "''translate''" "''scale%''" "deco_group @ t" sc] by (simp add: deco_group_def)
  moreover have "replace (deco_rect @ t) ''%scale%'' sc = deco_rect @ replace t ''%scale%'' sc"
    "replace (deco_rect @ t) ''%translate%'' tr = deco_rect @ replace t ''%translate%'' tr"
    "replace (deco_rect @ t) ''%qr_code%'' qr = deco_rect @ replace t ''%qr_code%'' qr" for t
    by (simp_all add: replace_rect dq_def)
  ultimately show ?thesis
    unfolding 1 svg_with_def by (simp only: skip replace_here)
qed

lemma get_svg_default:
  assumes "m_qr q = Some qr" "m_decoration q = default_decoration"
  shows "\<exists>v tr. get_svg fl q = svg_with v tr ([tab] @ ''<path d='' @ [dq]
        @ module_path (nat (qsize qr)) (getModule qr) (m_border q)
        @ [dq] @ '' fill='' @ [dq] @ ''#000000'' @ [dq] @ ''/>'')
      \<and> CHR ''%'' \<notin> set v \<and> CHR ''%'' \<notin> set tr"
  unfolding get_svg_def assms Let_def option.case
  by (subst replace_default; (rule exI conjI refl | simp add: no_percent_double)+)

text \<open>
  Claim C26: the SVG image of a QR code with the default decoration contains one path, and
  the unit squares the path draws are exactly the dark modules of the code, row after row,
  moved right and down by the width of the border. The numbers of the view box and of the
  translation, which depend on floating-point rounding, never disturb the place holders.
\<close>

theorem svg_draws_modules:
  assumes "m_qr q = Some qr" "m_decoration q = default_decoration"
  shows "\<exists>v tr path. get_svg fl q =
      svg_with v tr ([tab] @ ''<path d='' @ [dq] @ path @ [dq] @ '' fill='' @ [dq] @ ''#000000'' @ [dq] @ ''/>'')
      \<and> CHR ''%'' \<notin> set v \<and> CHR ''%'' \<notin> set tr \<and> dq \<notin> set path
      \<and> read_squares path = Some (map (\<lambda>(x, y). (x + m_border q, y + m_border q)) (dark_modules qr))"
proof -
  let ?path = "module_path (nat (qsize qr)) (getModule qr) (m_border q)"
  have "dq \<notin> set (square b x y)" for b x y
    by (auto simp: square_def dq_def no_quote_dec)
  then have "dq \<notin> set ?path" by (auto simp: module_path_eq)
  moreover have "read_squares ?path = Some (map (\<lambda>(x, y). (x + m_border q, y + m_border q)) (dark_modules qr))"
    unfolding module_path_eq by (rule read_squares_concat)
  ultimately show ?thesis
    using get_svg_default [OF assms, of fl] by blast
qed

definition tiny_qr :: QrCode where
  "tiny_qr = \<lparr>version = 1, qsize = 2, errorCorrectionLevel = LOW, mask = 0,
     modules = [[True, False], [True, True]], isFunction = []\<rparr>"

theorem svg_draws_modules_witness:
  "\<exists>v tr path. get_svg (\<lambda>r. r) (QR_code_new\<lparr>m_qr := Some tiny_qr\<rparr>) =
      svg_with v tr ([tab] @ ''<path d='' @ [dq] @ path @ [dq] @ '' fill='' @ [dq] @ ''#000000'' @ [dq] @ ''/>'')
      \<and> read_squares path = Some [(4, 4), (4, 5), (5, 5)]"
proof -
  have "dark_modules tiny_qr = [(0, 0), (0, 1), (1, 1)]" by code_simp
  then show ?thesis
    using svg_draws_modules [of "QR_code_new\<lparr>m_qr := Some tiny_qr\<rparr>" tiny_qr "\<lambda>r. r"]
    by (auto simp: QR_code_new_def)
qed

end
