(* ===== verification/Request_Handlers.thy ===== *)
theory Request_Handlers
  imports Db_Contents Camera Qr_Code
begin

text \<open>
  src/src/request_handlers.cpp: one definition per request of a client. A handler is an
  action on the state of the server: the state it leaves is there even when it throws,
  because \<open>handle_client\<close> catches one kind of exception and goes on. The lock around the
  database calls makes each of them one step.
\<close>

section \<open>State and environment\<close>

text \<open>
  \<open>w_ssl\<close> is what the coming SSL writes do, \<open>w_wire\<close> the bytes sent, \<open>w_replies\<close> the
  responses given to \<open>send_json_response\<close>, \<open>w_curl\<close> what the coming transfers to the
  camera do and \<open>w_http\<close> the requests made.
\<close>

record 'd world =
  w_db :: 'd
  w_otp :: OTPManager
  w_ssl :: "write_event list"
  w_wire :: bytes
  w_replies :: "json list"
  w_curl :: "curl_outcome list"
  w_http :: "http_request list"

text \<open>
  What a handler gets from outside the program: the database engine, the JSON text
  functions, the rounding of doubles, the HMAC function, the password hash (numbered, it is
  salted) and its check, the spare bytes behind a vector, the configuration, the time in
  seconds, and the draws of \<open>rand\<close> and of the recovery code generator.
\<close>

record 'd env =
  e_run :: "'d engine"
  e_json :: json_text
  e_fl :: "real \<Rightarrow> real"
  e_hmac :: hmac_fun
  e_pwhash :: "nat \<Rightarrow> string \<Rightarrow> string option"
  e_pwverify :: "string \<Rightarrow> string \<Rightarrow> bool"
  e_slack :: nat
  e_config :: AppConfig
  e_now :: u64
  e_rnd :: "nat \<Rightarrow> nat"
  e_dis :: "nat \<Rightarrow> nat"

type_synonym ('d, 'a) handler = "('d world, 'a) act"

text \<open>A call whose result is not used.\<close>

definition ignoring :: "('d, 'a) handler \<Rightarrow> ('d, unit) handler" where
  "ignoring m w = (case m w of (Inl e, w') \<Rightarrow> (Inl e, w') | (Inr x, w') \<Rightarrow> (Inr (), w'))"

definition on_db :: "('d \<Rightarrow> 'a \<times> 'd) \<Rightarrow> ('d, 'a) handler" where
  "on_db f w = (case f (w_db w) of (x, d) \<Rightarrow> (Inr x, w\<lparr>w_db := d\<rparr>))"

definition send :: "'d env \<Rightarrow> json \<Rightarrow> ('d, unit) handler" where
  "send E response w =
     (case send_json_response (e_json E) response (w_ssl w) of
        Inl e \<Rightarrow> (Inl e, w)
      | Inr (events, sent) \<Rightarrow>
          (Inr (), w\<lparr>w_ssl := events, w_wire := w_wire w @ sent, w_replies := w_replies w @ [response]\<rparr>))"

text \<open>A transfer; one past the known outcomes finds no handle.\<close>

definition on_curl :: "(curl_outcome \<Rightarrow> string \<times> http_request list) \<Rightarrow> ('d, string) handler" where
  "on_curl f w =
     (let (outcome, rest) = (case w_curl w of
            [] \<Rightarrow> (\<lparr>init_ok = False, chunks = [], perform_ok = False\<rparr>, [])
          | c # cs \<Rightarrow> (c, cs));
          (response, reqs) = f outcome
      in (Inr response, w\<lparr>w_curl := rest, w_http := w_http w @ reqs\<rparr>))"

text \<open>\<open>received_json["data"].value(k, fallback)\<close> on the constant request.\<close>

definition data_value :: "(json \<Rightarrow> 'a res) \<Rightarrow> json \<Rightarrow> string \<Rightarrow> 'a \<Rightarrow> 'a res" where
  "data_value get received_json k fallback =
     bind_res (json_at_const received_json ''data'') (\<lambda>d. json_value get d k fallback)"

text \<open>A product of \<open>int\<close>s is undefined beyond their range.\<close>

definition int_mul :: "int \<Rightarrow> int \<Rightarrow> int res" where
  "int_mul a b =
     (if - (2 ^ 31) \<le> a * b \<and> a * b < 2 ^ 31 then Inr (a * b) else Inl (UB ''signed integer overflow''))"

definition flag :: "bool \<Rightarrow> json" where
  "flag b = JInt (if b then 1 else 0)"

section \<open>Detections\<close>

definition detection_json :: "Detection \<Rightarrow> json" where
  "detection_json detection =
     json_obj [(''image'', JString (base64_encode (imageBlob detection))),
               (''timestamp'', JString (d_timestamp detection))]"

definition handle_detection_request :: "'d env \<Rightarrow> json \<Rightarrow> ('d, unit) handler" where
  "handle_detection_request E received_json =
     act_bind (act_res (data_value get_string received_json ''start_timestamp'' [])) (\<lambda>start_ts.
     act_bind (act_res (data_value get_string received_json ''end_timestamp'' [])) (\<lambda>end_ts.
     act_bind (on_db (select_data_for_timestamp_range_detections (e_run E) start_ts end_ts)) (\<lambda>detections.
     act_bind (send E (json_obj [(''request_id'', JInt 10), (''data'', JArray (map detection_json detections))])) (\<lambda>_.
     send E (json_obj [(''request_id'', JInt 1), (''result'', JString ''ok'')])))))"

section \<open>Lines\<close>

definition line_json :: "CrossLine \<Rightarrow> json" where
  "line_json line =
     json_obj [(''index'', JInt (cl_index line)), (''x1'', JInt (cl_x1 line)), (''y1'', JInt (cl_y1 line)),
               (''x2'', JInt (cl_x2 line)), (''y2'', JInt (cl_y2 line)),
               (''name'', JString (cl_name line)), (''mode'', JString (cl_mode line))]"

definition received_line :: "json \<Rightarrow> (CrossLine \<times> string) res" where
  "received_line received_json =
     bind_res (data_value get_int received_json ''index'' (-1)) (\<lambda>index.
     bind_res (data_value get_int received_json ''x1'' (-1)) (\<lambda>x1.
     bind_res (data_value get_int received_json ''y1'' (-1)) (\<lambda>y1.
     bind_res (data_value get_int received_json ''x2'' (-1)) (\<lambda>x2.
     bind_res (data_value get_int received_json ''y2'' (-1)) (\<lambda>y2.
     bind_res (data_value get_string received_json ''name'' ''name1'') (\<lambda>name.
     bind_res (data_value get_string received_json ''mode'' ''BothDirections'') (\<lambda>mode.
     bind_res (json_value get_string received_json ''camera_type'' ''CCTV'') (\<lambda>camera_type.
       Inr (\<lparr>cl_index = index, cl_x1 = x1, cl_y1 = y1, cl_x2 = x2, cl_y2 = y2,
             cl_name = name, cl_mode = mode\<rparr>, camera_type)))))))))"

definition curl_line :: "CrossLine \<Rightarrow> CrossLine res" where
  "curl_line l =
     bind_res (int_mul (cl_x1 l) 4) (\<lambda>x1.
     bind_res (int_mul (cl_y1 l) 4) (\<lambda>y1.
     bind_res (int_mul (cl_x2 l) 4) (\<lambda>x2.
     bind_res (int_mul (cl_y2 l) 4) (\<lambda>y2.
       Inr (l\<lparr>cl_x1 := x1, cl_y1 := y1, cl_x2 := x2, cl_y2 := y2\<rparr>)))))"

definition handle_line_insert_request :: "'d env \<Rightarrow> json \<Rightarrow> ('d, unit) handler" where
  "handle_line_insert_request E received_json =
     act_bind (act_res (received_line received_json)) (\<lambda>(insertCrossLine, camera_type).
     act_bind (act_res (curl_line insertCrossLine)) (\<lambda>curlCrossLine.
     act_bind (on_db (insert_data_lines (e_run E) insertCrossLine)) (\<lambda>mappingSuccess.
     if camera_type = ''CCTV'' then
       act_bind (on_curl (\<lambda>outcome. putLines (e_json E) (e_config E) outcome curlCrossLine)) (\<lambda>_.
       send E (json_obj [(''request_id'', JInt 11), (''mapping_success'', flag mappingSuccess)]))
     else
       act_bind (on_db (select_all_data_lines (e_run E))) (\<lambda>dbLines.
       send E (json_obj [(''request_id'', JInt 18), (''data'', JArray (map line_json dbLines))])))))"

text \<open>
  The answer of the camera. The parsed value is not constant, so a missing key or index is
  null and has no elements; the elements are constant.
\<close>

definition camera_lines :: "json_text \<Rightarrow> string \<Rightarrow> json list res" where
  "camera_lines J response =
     (case parse J response of
        None \<Rightarrow> Inl Json_parse_error
      | Some j \<Rightarrow>
          bind_res (json_at j ''lineCrossing'') (\<lambda>j.
          bind_res (json_idx j 0) (\<lambda>j.
          bind_res (json_at j ''line'') (\<lambda>j. Inr (json_items j)))))"

definition coordinate :: "json \<Rightarrow> nat \<Rightarrow> string \<Rightarrow> int res" where
  "coordinate item i k =
     bind_res (json_at_const item ''lineCoordinates'') (\<lambda>j.
     bind_res (json_idx_const j i) (\<lambda>j. bind_res (json_at_const j k) get_int))"

definition http_line :: "json \<Rightarrow> CrossLine res" where
  "http_line item =
     bind_res (bind_res (json_at_const item ''index'') get_int) (\<lambda>index.
     bind_res (bind_res (json_at_const item ''name'') get_string) (\<lambda>name.
     bind_res (bind_res (json_at_const item ''mode'') get_string) (\<lambda>mode.
     bind_res (coordinate item 0 ''x'') (\<lambda>x1.
     bind_res (coordinate item 0 ''y'') (\<lambda>y1.
     bind_res (coordinate item 1 ''x'') (\<lambda>x2.
     bind_res (coordinate item 1 ''y'') (\<lambda>y2.
       Inr \<lparr>cl_index = index, cl_x1 = x1, cl_y1 = y1, cl_x2 = x2, cl_y2 = y2,
            cl_name = name, cl_mode = mode\<rparr>)))))))"

fun map_res :: "('a \<Rightarrow> 'b res) \<Rightarrow> 'a list \<Rightarrow> 'b list res" where
  "map_res f [] = Inr []"
| "map_res f (x # xs) = bind_res (f x) (\<lambda>y. bind_res (map_res f xs) (\<lambda>ys. Inr (y # ys)))"

definition real_lines :: "CrossLine list \<Rightarrow> CrossLine list \<Rightarrow> CrossLine list" where
  "real_lines httpLines dbLines =
     concat (map (\<lambda>httpLine. filter (\<lambda>dbLine. cl_index httpLine = cl_index dbLine) dbLines) httpLines)"

definition handle_line_select_all_request :: "'d env \<Rightarrow> json \<Rightarrow> ('d, unit) handler" where
  "handle_line_select_all_request E received_json =
     act_bind (on_curl (getLines (e_config E))) (\<lambda>response.
     act_bind (act_res (camera_lines (e_json E) response)) (\<lambda>items.
     act_bind (act_res (map_res http_line items)) (\<lambda>httpLines.
     act_bind (on_db (select_all_data_lines (e_run E))) (\<lambda>dbLines.
     let realLines = real_lines httpLines dbLines
     in act_bind (on_db (delete_all_data_lines (e_run E))) (\<lambda>_.
        act_bind (act_each (\<lambda>realLine. ignoring (on_db (insert_data_lines (e_run E) realLine))) realLines) (\<lambda>_.
        send E (json_obj [(''request_id'', JInt 12), (''data'', JArray (map line_json realLines))])))))))"

definition handle_line_delete_all_request :: "'d env \<Rightarrow> json \<Rightarrow> ('d, unit) handler" where
  "handle_line_delete_all_request E received_json =
     act_bind (on_curl (getLines (e_config E))) (\<lambda>response.
     act_bind (act_res (camera_lines (e_json E) response)) (\<lambda>items.
     act_bind (act_res (map_res (\<lambda>item. bind_res (json_at_const item ''index'') get_int) items)) (\<lambda>indexs.
     act_bind (act_each (\<lambda>index. ignoring (on_curl (\<lambda>outcome. deleteLines (e_config E) outcome index))) indexs) (\<lambda>_.
     act_bind (on_db (delete_all_data_lines (e_run E))) (\<lambda>s1.
     act_bind (on_db (delete_all_data_baseLines (e_run E))) (\<lambda>s2.
     act_bind (on_db (delete_all_data_verticalLineEquations (e_run E))) (\<lambda>s3.
     send E (json_obj [(''request_id'', JInt 13), (''delete_success'', flag (s1 \<and> s2 \<and> s3))]))))))))"

section \<open>Base lines and vertical lines\<close>

definition received_baseline :: "json \<Rightarrow> BaseLine res" where
  "received_baseline received_json =
     bind_res (data_value get_int received_json ''index'' (-1)) (\<lambda>index.
     bind_res (data_value get_int received_json ''matrixNum1'' (-1)) (\<lambda>matrixNum1.
     bind_res (data_value get_int received_json ''x1'' (-1)) (\<lambda>x1.
     bind_res (data_value get_int received_json ''y1'' (-1)) (\<lambda>y1.
     bind_res (data_value get_int received_json ''matrixNum2'' (-1)) (\<lambda>matrixNum2.
     bind_res (data_value get_int received_json ''x2'' (-1)) (\<lambda>x2.
     bind_res (data_value get_int received_json ''y2'' (-1)) (\<lambda>y2.
       Inr \<lparr>bl_index = index, bl_matrixNum1 = matrixNum1, bl_x1 = x1, bl_y1 = y1,
            bl_matrixNum2 = matrixNum2, bl_x2 = x2, bl_y2 = y2\<rparr>)))))))"

definition handle_baseline_insert_request :: "'d env \<Rightarrow> json \<Rightarrow> ('d, unit) handler" where
  "handle_baseline_insert_request E received_json =
     act_bind (act_res (received_baseline received_json)) (\<lambda>baseLine.
     act_bind (on_db (insert_data_baseLines (e_run E) baseLine)) (\<lambda>insertSuccess.
     act_bind (on_db (update_data_baseLines (e_run E) baseLine)) (\<lambda>updateSuccess.
     send E (json_obj [(''request_id'', JInt 14), (''insert_success'', flag insertSuccess),
                       (''update_success'', flag updateSuccess)]))))"

definition handle_vertical_line_insert_request :: "'d env \<Rightarrow> json \<Rightarrow> ('d, unit) handler" where
  "handle_vertical_line_insert_request E received_json =
     act_bind (act_res (data_value get_int received_json ''index'' (-1))) (\<lambda>index.
     act_bind (act_res (data_value (get_double (e_fl E)) received_json ''a'' (-1))) (\<lambda>a.
     act_bind (act_res (data_value (get_double (e_fl E)) received_json ''b'' (-1))) (\<lambda>b.
     act_bind (on_db (insert_data_verticalLineEquations (e_run E) \<lparr>vl_index = index, vl_a = a, vl_b = b\<rparr>)) (\<lambda>insertSuccess.
     send E (json_obj [(''request_id'', JInt 14), (''insert_success'', flag insertSuccess)])))))"

definition baseline_json :: "BaseLine \<Rightarrow> json" where
  "baseline_json baseLine =
     json_obj [(''index'', JInt (bl_index baseLine)), (''matrixNum1'', JInt (bl_matrixNum1 baseLine)),
               (''x1'', JInt (bl_x1 baseLine)), (''y1'', JInt (bl_y1 baseLine)),
               (''matrixNum2'', JInt (bl_matrixNum2 baseLine)),
               (''x2'', JInt (bl_x2 baseLine)), (''y2'', JInt (bl_y2 baseLine))]"

definition handle_baseline_select_all_request :: "'d env \<Rightarrow> json \<Rightarrow> ('d, unit) handler" where
  "handle_baseline_select_all_request E received_json =
     act_bind (on_db (select_all_data_baseLines (e_run E))) (\<lambda>baseLines.
     send E (json_obj [(''request_id'', JInt 16), (''data'', JArray (map baseline_json baseLines))]))"

section \<open>Accounts\<close>

text \<open>The messages of the replies are Korean texts in UTF-8.\<close>

definition utf8 :: "nat list \<Rightarrow> string" where
  "utf8 codes = map char_of codes"

definition msg_requires_otp :: string where
  "msg_requires_otp =
     ''ID/PW '' @ utf8 [0xEA, 0xB2, 0x80, 0xEC, 0xA6, 0x9D] @ '' ''
      @ utf8 [0xEC, 0x99, 0x84, 0xEB, 0xA3, 0x8C] @ ''. OTP ''
      @ utf8 [0xEB, 0x98, 0x90, 0xEB, 0x8A, 0x94] @ '' '' @ utf8 [0xEB, 0xB3, 0xB5, 0xEA, 0xB5, 0xAC]
      @ '' '' @ utf8 [0xEC, 0xBD, 0x94, 0xEB, 0x93, 0x9C, 0xEB, 0xA5, 0xBC] @ '' ''
      @ utf8 [0xEC, 0x9E, 0x85, 0xEB, 0xA0, 0xA5, 0xED, 0x95, 0x98, 0xEC, 0x84, 0xB8, 0xEC, 0x9A, 0x94]
      @ ''.''"

definition msg_no_otp :: string where
  "msg_no_otp =
     ''ID/PW '' @ utf8 [0xEA, 0xB2, 0x80, 0xEC, 0xA6, 0x9D] @ '' ''
      @ utf8 [0xEC, 0x99, 0x84, 0xEB, 0xA3, 0x8C] @ ''. ''
      @ utf8 [0xEB, 0xB0, 0x94, 0xEB, 0xA1, 0x9C] @ '' ''
      @ utf8 [0xEB, 0xA1, 0x9C, 0xEA, 0xB7, 0xB8, 0xEC, 0x9D, 0xB8] @ '' ''
      @ utf8 [0xEA, 0xB0, 0x80, 0xEB, 0x8A, 0xA5, 0xED, 0x95, 0xA9, 0xEB, 0x8B, 0x88, 0xEB, 0x8B, 0xA4]
      @ ''.''"

definition msg_recovery_login :: string where
  "msg_recovery_login =
     utf8 [0xEB, 0xB3, 0xB5, 0xEA, 0xB5, 0xAC] @ '' ''
      @ utf8 [0xEC, 0xBD, 0x94, 0xEB, 0x93, 0x9C, 0xEB, 0xA1, 0x9C] @ '' ''
      @ utf8 [0xEB, 0xA1, 0x9C, 0xEA, 0xB7, 0xB8, 0xEC, 0x9D, 0xB8] @ '' ''
      @ utf8 [0xEC, 0x84, 0xB1, 0xEA, 0xB3, 0xB5] @ ''. ''
      @ utf8 [0xED, 0x95, 0xB4, 0xEB, 0x8B, 0xB9] @ '' '' @ utf8 [0xEB, 0xB3, 0xB5, 0xEA, 0xB5, 0xAC]
      @ '' '' @ utf8 [0xEC, 0xBD, 0x94, 0xEB, 0x93, 0x9C, 0xEB, 0x8A, 0x94] @ '' ''
      @ utf8 [0xEB, 0xAC, 0xB4, 0xED, 0x9A, 0xA8, 0xED, 0x99, 0x94, 0xEB, 0x90, 0x98, 0xEC, 0x97, 0x88, 0xEC, 0x8A, 0xB5, 0xEB, 0x8B, 0x88, 0xEB, 0x8B, 0xA4]
      @ ''.''"

definition msg_otp_login :: string where
  "msg_otp_login =
     ''OTP '' @ utf8 [0xEA, 0xB2, 0x80, 0xEC, 0xA6, 0x9D] @ '' ''
      @ utf8 [0xEC, 0x84, 0xB1, 0xEA, 0xB3, 0xB5] @ ''. ''
      @ utf8 [0xEB, 0xA1, 0x9C, 0xEA, 0xB7, 0xB8, 0xEC, 0x9D, 0xB8] @ '' ''
      @ utf8 [0xEC, 0x99, 0x84, 0xEB, 0xA3, 0x8C] @ ''.''"

definition msg_login_failed :: string where
  "msg_login_failed =
     ''OTP '' @ utf8 [0xEB, 0x98, 0x90, 0xEB, 0x8A, 0x94] @ '' ''
      @ utf8 [0xEB, 0xB3, 0xB5, 0xEA, 0xB5, 0xAC] @ '' ''
      @ utf8 [0xEC, 0xBD, 0x94, 0xEB, 0x93, 0x9C, 0xEA, 0xB0, 0x80] @ '' ''
      @ utf8 [0xEC, 0x98, 0xAC, 0xEB, 0xB0, 0x94, 0xEB, 0xA5, 0xB4, 0xEC, 0xA7, 0x80] @ '' ''
      @ utf8 [0xEC, 0x95, 0x8A, 0xEC, 0x8A, 0xB5, 0xEB, 0x8B, 0x88, 0xEB, 0x8B, 0xA4] @ ''.''"

definition on_otp :: "(OTPManager \<Rightarrow> OTPManager res) \<Rightarrow> ('d, unit) handler" where
  "on_otp f w = (case f (w_otp w) of Inl e \<Rightarrow> (Inl e, w) | Inr m \<Rightarrow> (Inr (), w\<lparr>w_otp := m\<rparr>))"

text \<open>An id or password that is empty ends the request without a reply.\<close>

definition handle_login_step1_request :: "'d env \<Rightarrow> json \<Rightarrow> ('d, unit) handler" where
  "handle_login_step1_request E received_json =
     act_bind (act_res (data_value get_string received_json ''id'' [])) (\<lambda>user_id.
     act_bind (act_res (data_value get_string received_json ''passwd'' [])) (\<lambda>passwd.
     if user_id = [] \<or> passwd = [] then act_ret ()
     else act_bind (on_db (get_account_by_id (e_run E) user_id)) (\<lambda>accountPtr.
       case accountPtr of
         None \<Rightarrow> send E (json_obj [(''request_id'', JInt 19), (''step1_success'', flag False)])
       | Some account \<Rightarrow>
           if verify_password (e_pwverify E) (acc_passwd account) passwd then
             act_bind (if acc_otp_secret account \<noteq> []
                       then on_otp (register_otp (e_hmac E) user_id (acc_otp_secret account))
                       else act_ret ()) (\<lambda>_.
             send E (json_obj
               [(''request_id'', JInt 19), (''step1_success'', flag True),
                (''requires_otp'', flag (acc_use_otp account)),
                (''message'', JString (if acc_use_otp account then msg_requires_otp else msg_no_otp))]))
           else send E (json_obj [(''request_id'', JInt 19), (''step1_success'', flag False)]))))"

text \<open>The verification in the \<open>try\<close> block: whether the login succeeds and by a recovery code.\<close>

definition is_numeric :: "string \<Rightarrow> bool" where
  "is_numeric input = (input \<noteq> [] \<and> list_all is_digit input)"

definition check_input :: "'d env \<Rightarrow> string \<Rightarrow> string \<Rightarrow> ('d, bool \<times> bool) handler" where
  "check_input E user_id input =
     (if is_numeric input \<and> length input = 6 then
        act_bind (act_res (stoi input)) (\<lambda>otp w.
          (map_sum id (\<lambda>ok. (ok, False)) (verify_otp (e_slack E) (e_now E) user_id otp (w_otp w)), w))
      else
        act_bind (on_db (verify_recovery_code (e_pwverify E) (e_run E) user_id input)) (\<lambda>ok.
          if ok then
            act_bind (on_db (invalidate_recovery_code (e_pwverify E) (e_run E) user_id input)) (\<lambda>_.
            act_ret (True, True))
          else act_ret (False, False)))"

text \<open>\<open>catch (const std::exception&)\<close> stops every exception but not undefined behaviour.\<close>

definition catch_std :: "'a \<Rightarrow> ('w, 'a) act \<Rightarrow> ('w, 'a) act" where
  "catch_std fallback m w =
     (case m w of
        (Inl (UB s), w) \<Rightarrow> (Inl (UB s), w)
      | (Inl e, w) \<Rightarrow> (Inr fallback, w)
      | (Inr x, w) \<Rightarrow> (Inr x, w))"

definition handle_login_step2_request :: "'d env \<Rightarrow> json \<Rightarrow> ('d, unit) handler" where
  "handle_login_step2_request E received_json =
     act_bind (act_res (data_value get_string received_json ''id'' [])) (\<lambda>user_id.
     act_bind (act_res (data_value get_string received_json ''input'' [])) (\<lambda>input.
     act_bind (catch_std (False, False) (check_input E user_id input)) (\<lambda>(finalLoginSuccess, is_recovery_code).
     send E (json_obj
       [(''request_id'', JInt 23), (''final_login_success'', flag finalLoginSuccess),
        (''message'', JString (if finalLoginSuccess
           then if is_recovery_code then msg_recovery_login else msg_otp_login
           else msg_login_failed))]))))"

section \<open>Sign-up\<close>

text \<open>
  What the sign-up has made so far: the image, the URI and the recovery codes for the reply.
\<close>

type_synonym otp_parts = "string \<times> string \<times> string list"

definition new_otp :: "'d env \<Rightarrow> string \<Rightarrow> ('d, string \<times> otp_parts) handler" where
  "new_otp E user_id w =
     (case generate_otp_uri (e_hmac E) (e_rnd E) user_id (w_otp w) of
        Inl e \<Rightarrow> (Inl e, w)
      | Inr (otp_uri, m) \<Rightarrow>
          (case generate_qr_code_svg (e_fl E) otp_uri of
             Inl e \<Rightarrow> (Inl e, w\<lparr>w_otp := m\<rparr>)
           | Inr qr_code_svg \<Rightarrow>
               (Inr (get_secret user_id m, qr_code_svg, otp_uri, generate_recovery_codes (e_dis E)),
                w\<lparr>w_otp := m\<rparr>)))"

definition store_otp :: "'d env \<Rightarrow> string \<Rightarrow> string \<Rightarrow> string list \<Rightarrow> ('d, unit) handler" where
  "store_otp E user_id otp_secret recovery_codes =
     act_bind (on_db (store_otp_secret (e_run E) user_id otp_secret)) (\<lambda>_.
     act_bind (act_res (hash_recovery_codes (\<lambda>k. e_pwhash E (Suc k)) recovery_codes)) (\<lambda>hashed_codes.
     ignoring (on_db (store_recovery_codes (e_run E) user_id hashed_codes))))"

definition create_account ::
  "'d env \<Rightarrow> string \<Rightarrow> string \<Rightarrow> bool \<Rightarrow> ('d, bool \<times> otp_parts) handler" where
  "create_account E user_id passwd use_otp =
     act_bind (act_res (hash_password (e_pwhash E 0) passwd)) (\<lambda>hashed_passwd.
     act_bind (if use_otp then new_otp E user_id else act_ret ([], [], [], [])) (\<lambda>(otp_secret, parts).
     act_bind (on_db (insert_data_accounts (e_run E)
       \<lparr>acc_id = user_id, acc_passwd = hashed_passwd, acc_otp_secret = otp_secret, acc_use_otp = use_otp\<rparr>)) (\<lambda>signUpSuccess.
     act_bind (if signUpSuccess \<and> use_otp then store_otp E user_id otp_secret (snd (snd parts)) else act_ret ()) (\<lambda>_.
     act_ret (signUpSuccess, parts)))))"

definition catch_runtime :: "'a \<Rightarrow> ('w, 'a) act \<Rightarrow> ('w, 'a) act" where
  "catch_runtime fallback m w =
     (case m w of
        (Inl (Runtime_error s), w) \<Rightarrow> (Inr fallback, w)
      | (r, w) \<Rightarrow> (r, w))"

definition handle_signup_request :: "'d env \<Rightarrow> json \<Rightarrow> ('d, unit) handler" where
  "handle_signup_request E received_json =
     act_bind (act_res (data_value get_string received_json ''id'' [])) (\<lambda>user_id.
     act_bind (act_res (data_value get_string received_json ''passwd'' [])) (\<lambda>passwd.
     act_bind (act_res (data_value get_bool received_json ''use_otp'' True)) (\<lambda>use_otp.
     act_bind (catch_runtime (False, [], [], []) (create_account E user_id passwd use_otp))
       (\<lambda>(signUpSuccess, qr_code_svg, otp_uri, recovery_codes).
     send E (json_obj
       ([(''request_id'', JInt 20), (''sign_up_success'', flag signUpSuccess)] @
        (if signUpSuccess \<and> use_otp
         then [(''qr_code_svg'', JString qr_code_svg), (''otp_uri'', JString otp_uri),
               (''recovery_codes'', JArray (map JString recovery_codes))]
         else [])))))))"

end
