(* ===== verification/Sessions.thy ===== *)
theory Sessions
  imports Request_Handlers
begin

text \<open>
  What a client observes over one or several requests: the two steps of a login and the
  synchronisation of the lines with the camera. The handlers of Request_Handlers are
  followed through the contract of the database engine (Sqlite), the table contents
  (Db_Contents) and the one-time passwords (Otp_Manager).
\<close>

section \<open>Replies\<close>

definition step1_reply :: "Account option \<Rightarrow> json" where
  "step1_reply account =
     json_obj (case account of
       None \<Rightarrow> [(''request_id'', JInt 19), (''step1_success'', JInt 0)]
     | Some a \<Rightarrow> [(''request_id'', JInt 19), (''step1_success'', JInt 1),
         (''requires_otp'', flag (acc_use_otp a)),
         (''message'', JString (if acc_use_otp a then msg_requires_otp else msg_no_otp))])"

definition step2_reply :: "bool \<Rightarrow> bool \<Rightarrow> json" where
  "step2_reply ok recovery =
     json_obj [(''request_id'', JInt 23), (''final_login_success'', flag ok),
       (''message'', JString (if ok then if recovery then msg_recovery_login else msg_otp_login
                              else msg_login_failed))]"

text \<open>The account whose id and password a client gives.\<close>

definition login_account :: "(string \<Rightarrow> string \<Rightarrow> bool) \<Rightarrow> Account list \<Rightarrow> string \<Rightarrow> string \<Rightarrow> Account option" where
  "login_account pwverify as user_id passwd =
     (case find (\<lambda>a. acc_id a = user_id) as of
        None \<Rightarrow> None
      | Some a \<Rightarrow> if pwverify (acc_passwd a) passwd then Some a else None)"

definition registered :: "hmac_fun \<Rightarrow> Account option \<Rightarrow> OTPManager \<Rightarrow> OTPManager" where
  "registered hm account m =
     (case account of
        None \<Rightarrow> m
      | Some a \<Rightarrow>
          if acc_otp_secret a = [] then m
          else \<lparr>user_otps = (user_otps m)(acc_id a \<mapsto> server_totp hm (acc_id a) (acc_otp_secret a)),
                user_secrets = (user_secrets m)(acc_id a \<mapsto> acc_otp_secret a)\<rparr>)"

lemma on_db_bind: "act_bind (on_db f) g w = (case f (w_db w) of (x, d) \<Rightarrow> g x (w\<lparr>w_db := d\<rparr>))"
  by (simp add: act_bind_def on_db_def split: prod.split)

lemma on_otp_bind:
  "f (w_otp w) = Inr m \<Longrightarrow> act_bind (on_otp f) g w = g () (w\<lparr>w_otp := m\<rparr>)"
  by (simp add: act_bind_def on_otp_def)

lemma on_curl_bind:
  "w_curl w = c # cs \<Longrightarrow> f c = (r, reqs) \<Longrightarrow>
     act_bind (on_curl f) g w = g r (w\<lparr>w_curl := cs, w_http := w_http w @ reqs\<rparr>)"
  by (simp add: act_bind_def on_curl_def)

lemma world_update_id [simp]: "w\<lparr>w_db := d, w_otp := w_otp w\<rparr> = w\<lparr>w_db := d\<rparr>"
  by simp

context sqlite begin

lemma login_step1:
  assumes E: "e_run E = run" and acc: "accounts_in (view (w_db w)) as" and rel: "reliable num run view"
    and j: "data_value get_string j ''id'' [] = Inr user_id" "data_value get_string j ''passwd'' [] = Inr passwd"
    and ne: "user_id \<noteq> []" "passwd \<noteq> []"
  shows "\<exists>d. view d = view (w_db w) \<and> handle_login_step1_request E j w =
      (let account = login_account (e_pwverify E) as user_id passwd
       in send E (step1_reply account) (w\<lparr>w_db := d, w_otp := registered (e_hmac E) account (w_otp w)\<rparr>))"
proof -
  obtain r d where g: "get_account_by_id run user_id (w_db w) = (r, d)" by (cases "get_account_by_id run user_id (w_db w)")
  have v: "view d = view (w_db w)" and r: "r = find (\<lambda>a. acc_id a = user_id) as"
    using get_account_by_id_result [OF acc g] get_account_by_id_reliable [OF acc g rel] by auto
  have a: "acc_id a = user_id" if "r = Some a" for a
    using that r by (auto simp: find_Some_iff)
  have "handle_login_step1_request E j w =
      (let account = login_account (e_pwverify E) as user_id passwd
       in send E (step1_reply account) (w\<lparr>w_db := d, w_otp := registered (e_hmac E) account (w_otp w)\<rparr>))"
    unfolding handle_login_step1_request_def j act_bind_simps
    using ne a g
    by (auto simp: on_db_bind E login_account_def step1_reply_def registered_def verify_password_def flag_def
        on_otp_bind register_otp_server simp flip: r split: option.split)
  with v show ?thesis by blast
qed

end

section \<open>The second step\<close>

lemma digit_val_bounds:
  assumes "is_digit c"
  shows "0 \<le> digit_val c" "digit_val c < 10"
proof -
  have "48 \<le> (of_char c :: nat)" "(of_char c :: nat) \<le> 57"
    using assms by (simp_all add: is_digit_def less_eq_char_def)
  moreover have "(of_char c :: int) = int (of_char c)" by (metis of_nat_of_char)
  ultimately show "0 \<le> digit_val c" "digit_val c < 10" by (simp_all add: digit_val_def)
qed

lemma digit_val_inj: "digit_val c = digit_val d \<Longrightarrow> c = d"
  by (simp add: digit_val_def)

lemma dec_val_bounds: "list_all is_digit ds \<Longrightarrow> 0 \<le> dec_val ds \<and> dec_val ds < 10 ^ length ds"
proof (induction ds rule: rev_induct)
  case Nil
  show ?case by (simp add: dec_val_def)
next
  case (snoc d ds)
  then show ?case using digit_val_bounds [of d] by (auto simp: dec_val_snoc)
qed

lemma dec_val_inj:
  "length xs = length ys \<Longrightarrow> list_all is_digit xs \<Longrightarrow> list_all is_digit ys \<Longrightarrow> dec_val xs = dec_val ys \<Longrightarrow> xs = ys"
proof (induction xs arbitrary: ys rule: rev_induct)
  case (snoc x xs)
  from snoc.prems(1) obtain y zs where ys: "ys = zs @ [y]" by (cases ys rule: rev_cases) auto
  have d: "is_digit x" "is_digit y" using snoc.prems ys by auto
  have "10 * dec_val xs + digit_val x = 10 * dec_val zs + digit_val y"
    using snoc.prems(4) by (simp add: ys dec_val_snoc)
  then have "dec_val xs = dec_val zs" "digit_val x = digit_val y"
    using digit_val_bounds [OF d(1)] digit_val_bounds [OF d(2)] by presburger+
  with snoc ys show ?case by (auto dest: digit_val_inj)
qed simp

lemma six_digit_code:
  assumes "is_numeric input" "length input = 6" "v < 10 ^ 6"
  shows "dec_val input = int v \<longleftrightarrow> input = zero_pad 6 (dec_nat v)"
proof -
  let ?c = "zero_pad 6 (dec_nat v)"
  have v: "dec_val ?c = int v" by (simp add: dec_val_zero_pad dec_val_dec_nat)
  have "is_digit CHR ''0''" by code_simp
  then have "list_all is_digit ?c"
    using dec_nat_digits(1) [of v] by (auto simp: zero_pad_replicate list_all_iff)
  moreover have "length ?c = 6" using assms(3) by (simp add: zero_pad_dec_nat length_fixed_digits)
  ultimately show ?thesis
    using dec_val_inj [of input ?c] assms(1,2) v by (auto simp: is_numeric_def)
qed

lemma check_input_otp:
  assumes "is_numeric input" "length input = 6"
  shows "check_input E user_id input w =
    (map_sum id (\<lambda>ok. (ok, False)) (verify_otp (e_slack E) (e_now E) user_id (dec_val input) (w_otp w)), w)"
proof -
  have d: "list_all is_digit input" "input \<noteq> []" using assms(1) by (simp_all add: is_numeric_def)
  have tw: "takeWhile is_digit input = input" using d by (simp add: list_all_iff takeWhile_eq_all_conv)
  have "dec_val input < 2 ^ 31" using dec_val_bounds [OF d(1)] assms(2) by simp
  with d have "stoi input = Inr (dec_val input)" by (simp add: stoi_def tw del: takeWhile_eq_all_conv)
  with assms show ?thesis by (simp add: check_input_def)
qed

lemma login_step2_otp:
  assumes otp: "user_otps (w_otp w) user_id = Some (server_totp (e_hmac E) user_id secret)"
    and secret: "secret \<noteq> []" "length secret mod 8 = 0" "list_all base32_char secret"
    and env: "hmac_sha1_ok (e_hmac E)" "0 < e_slack E" "unat (e_now E) div 30 < 2 ^ 31"
    and j: "data_value get_string j ''id'' [] = Inr user_id" "data_value get_string j ''input'' [] = Inr input"
    and inp: "is_numeric input" "length input = 6"
  shows "handle_login_step2_request E j w =
    send E (step2_reply (input = zero_pad 6 (dec_nat (totp_value (e_hmac E) (effective_key secret) (e_now E)))) False) w"
proof -
  let ?v = "totp_value (e_hmac E) (effective_key secret) (e_now E)"
  have b: "- (2 ^ 31) \<le> dec_val input" "dec_val input < 2 ^ 31"
    using dec_val_bounds [of input] inp by (auto simp: is_numeric_def)
  have "?v < 10 ^ 6" by (simp add: totp_value_def)
  then have "verify_otp (e_slack E) (e_now E) user_id (dec_val input) (w_otp w) = Inr (input = zero_pad 6 (dec_nat ?v))"
    using verify_server_totp [OF env(1,2) secret env(3) b] six_digit_code [OF inp] by (simp add: verify_otp_def otp)
  then have "catch_std (False, False) (check_input E user_id input) w = (Inr (input = zero_pad 6 (dec_nat ?v), False), w)"
    by (simp add: catch_std_def check_input_otp [OF inp])
  then show ?thesis
    by (simp add: handle_login_step2_request_def j act_bind_def [of "catch_std _ _"] step2_reply_def)
qed

lemma send_frame:
  assumes "send E r w = (Inr (), w')"
  shows "w_db w' = w_db w" "w_otp w' = w_otp w" "w_replies w' = w_replies w @ [r]"
  using assms by (auto simp: send_def split: sum.splits)


section \<open>Synchronising the lines with the camera\<close>

definition lines_inv :: "CrossLine list \<Rightarrow> bool" where
  "lines_inv ls = (sorted_wrt (<) (map cl_index ls) \<and> distinct (map cl_name ls))"

definition add_line :: "CrossLine \<Rightarrow> CrossLine list \<Rightarrow> CrossLine list" where
  "add_line l ls = (if new_line l ls then insort_key cl_index l ls else ls)"

lemma lines_invD:
  assumes "lines_inv ls"
  shows "inj_on cl_index (set ls)" "inj_on cl_name (set ls)" "sorted (map cl_index ls)" "distinct (map cl_index ls)"
  using assms by (auto simp: lines_inv_def strict_sorted_iff distinct_map)

lemma add_line_filter:
  assumes inv: "lines_inv ls" and x: "x \<in> set ls"
  shows "add_line x (filter P ls) = filter (\<lambda>l. P l \<or> l = x) ls"
proof (cases "P x")
  case True
  then have "\<not> new_line x (filter P ls)" using x by (auto simp: new_line_def list_all_iff)
  moreover have "filter (\<lambda>l. P l \<or> l = x) ls = filter P ls" using True by (intro filter_cong) auto
  ultimately show ?thesis by (simp add: add_line_def)
next
  case False
  note i = lines_invD [OF inv]
  have new: "new_line x (filter P ls)"
    using False x i(1,2) by (auto simp: new_line_def list_all_iff dest: inj_onD)
  have "x \<notin> set (filter P ls)" using False by simp
  then have k: "cl_index x \<notin> cl_index ` set (filter P ls)"
    using x i(1) by (auto dest: inj_onD)
  have "insort_key cl_index x (filter P ls) = filter (\<lambda>l. P l \<or> l = x) ls"
  proof (rule map_sorted_distinct_set_unique [where f = cl_index])
    show "inj_on cl_index (set (insort_key cl_index x (filter P ls)) \<union> set (filter (\<lambda>l. P l \<or> l = x) ls))"
      using x by (intro inj_on_subset [OF i(1)]) (auto simp: set_insort_key)
    show "sorted (map cl_index (insort_key cl_index x (filter P ls)))"
      using sorted_filter [OF i(3)] by (simp add: sorted_insort_key)
    show "sorted (map cl_index (filter (\<lambda>l. P l \<or> l = x) ls))" by (rule sorted_filter [OF i(3)])
    show "distinct (map cl_index (insort_key cl_index x (filter P ls)))"
      using k distinct_map_filter [OF i(4)] by (simp add: distinct_insort_key)
    show "distinct (map cl_index (filter (\<lambda>l. P l \<or> l = x) ls))" by (rule distinct_map_filter [OF i(4)])
    show "set (insort_key cl_index x (filter P ls)) = set (filter (\<lambda>l. P l \<or> l = x) ls)"
      using x by (auto simp: set_insort_key)
  qed
  with new show ?thesis by (simp add: add_line_def)
qed

lemma fold_add_line:
  assumes "lines_inv ls" "set xs \<subseteq> set ls"
  shows "fold add_line xs (filter P ls) = filter (\<lambda>l. P l \<or> l \<in> set xs) ls"
  using assms(2)
proof (induction xs arbitrary: P)
  case (Cons x xs)
  have "fold add_line (x # xs) (filter P ls) = fold add_line xs (filter (\<lambda>l. P l \<or> l = x) ls)"
    using add_line_filter [OF assms(1)] Cons.prems by simp
  also have "\<dots> = filter (\<lambda>l. (P l \<or> l = x) \<or> l \<in> set xs) ls" using Cons by simp
  also have "\<dots> = filter (\<lambda>l. P l \<or> l \<in> set (x # xs)) ls" by (intro filter_cong) auto
  finally show ?case .
qed simp

lemma set_real_lines:
  "set (real_lines http ls) = {l \<in> set ls. cl_index l \<in> cl_index ` set http}"
proof -
  have "cl_index l \<in> cl_index ` set http \<longleftrightarrow> (\<exists>h\<in>set http. cl_index h = cl_index l)" for l by (metis imageE image_eqI)
  then show ?thesis by (auto simp: real_lines_def)
qed

context sqlite begin

lemma reliable_run:
  assumes "reliable num run view" "well_typed num (view d) st args" "sql_exec (view d) st args = Inr (r, db')"
  shows "\<exists>d'. run d st args = (Ok r, d') \<and> view d' = db'"
proof -
  obtain r' d' where r: "run d st args = (Ok r', d')" using assms unfolding reliable_def by blast
  from run_Ok [OF assms(2) r] assms(3) r show ?thesis by auto
qed

lemma insert_data_lines_reliable:
  assumes "lines_in (view d) ls" "line_ok l" "reliable num run view"
  shows "lines_in (view (snd (insert_data_lines run l d))) (add_line l ls)"
proof -
  obtain ok d' where i: "insert_data_lines run l d = (ok, d')" by (cases "insert_data_lines run l d")
  have "ok" if "new_line l ls"
  proof -
    obtain T where "tabs (view d) ''lines'' = Some T" using assms(1) by (rule lines_in_table)
    with insert_lines_exec [OF assms(1)] that
    obtain r db' where "sql_exec (view d) (Insert ''lines'' [(''indexNum'', Par 0), (''x1'', Par 1), (''y1'', Par 2), (''x2'', Par 3),
          (''y2'', Par 4), (''name'', Par 5), (''mode'', Par 6)])
       [SInt (cl_index l), SInt (cl_x1 l), SInt (cl_y1 l), SInt (cl_x2 l),
        SInt (cl_y2 l), SText (cl_name l), SText (cl_mode l)] = Inr (r, db')" by blast
    from reliable_run [OF assms(3) line_insert_typed [OF assms(1,2)] this] i show ok
      by (auto simp: insert_data_lines_def try_exec_def)
  qed
  then show ?thesis
    using insert_data_lines_True [OF assms(1,2)] insert_data_lines_False [OF assms(1,2)] i assms(1)
    by (cases ok) (auto simp: add_line_def)
qed

lemma delete_reliable:
  assumes "tabs (view d) (lower t) = Some T" "reliable num run view"
  shows "\<exists>d'. try_changes run d (Delete t []) [] = (rows T \<noteq> [], d') \<and> view d' = put_table t (T\<lparr>rows := []\<rparr>) (view d)"
proof -
  have wt: "well_typed num (view d) (Delete t []) []" by (simp add: on_table_def assms(1))
  have "sql_exec (view d) (Delete t []) [] = Inr (Changes (length (rows T)), put_table t (T\<lparr>rows := []\<rparr>) (view d))"
    by (simp add: sql_exec.simps with_table_def assms(1) selected_def)
  from reliable_run [OF assms(2) wt this] show ?thesis
    by (auto simp: try_changes_def)
qed

lemma delete_all_data_lines_reliable:
  assumes "lines_in (view d) ls" "reliable num run view"
  shows "lines_in (view (snd (delete_all_data_lines run d))) []"
proof -
  obtain T where T: "tabs (view d) ''lines'' = Some T" "columns T = lines_cols"
    using assms(1) by (rule lines_in_table)
  have "view (snd (delete_all_data_lines run d)) = put_table ''lines'' (T\<lparr>rows := []\<rparr>) (view d)"
    using delete_reliable [of d "''lines''" T] T assms(2) by (auto simp: delete_all_data_lines_def)
  then show ?thesis using lines_in_put [of "T\<lparr>rows := []\<rparr>" "[]"] T(2) by simp
qed

lemma each_insert:
  assumes E: "e_run E = run" and rel: "reliable num run view"
  shows "lines_in (view (w_db w)) acc \<Longrightarrow> list_all line_ok xs \<Longrightarrow>
    \<exists>d. act_each (\<lambda>l. ignoring (on_db (insert_data_lines (e_run E) l))) xs w = (Inr (), w\<lparr>w_db := d\<rparr>)
      \<and> lines_in (view d) (fold add_line xs acc)"
proof (induction xs arbitrary: w acc)
  case (Cons x xs)
  obtain ok d where i: "insert_data_lines run x (w_db w) = (ok, d)" by (cases "insert_data_lines run x (w_db w)")
  have l: "lines_in (view (w_db (w\<lparr>w_db := d\<rparr>))) (add_line x acc)"
    using insert_data_lines_reliable [of "w_db w" acc x] Cons.prems rel i by simp
  have ok: "list_all line_ok xs" using Cons.prems by simp
  from Cons.IH [OF l ok]
  obtain d' where d': "act_each (\<lambda>l. ignoring (on_db (insert_data_lines (e_run E) l))) xs (w\<lparr>w_db := d\<rparr>)
      = (Inr (), w\<lparr>w_db := d, w_db := d'\<rparr>)" "lines_in (view d') (fold add_line xs (add_line x acc))" by blast
  have "ignoring (on_db (insert_data_lines (e_run E) x)) w = (Inr (), w\<lparr>w_db := d\<rparr>)"
    by (simp add: ignoring_def on_db_def E i)
  then have "act_each (\<lambda>l. ignoring (on_db (insert_data_lines (e_run E) l))) (x # xs) w = (Inr (), w\<lparr>w_db := d'\<rparr>)"
    unfolding act_each.simps act_bind_def using d'(1) by simp
  with d'(2) show ?case by (intro exI [of _ d']) simp
next
  case Nil
  then show ?case by (intro exI [of _ "w_db w"]) simp
qed

lemma line_select_all:
  assumes E: "e_run E = run" and rel: "reliable num run view"
    and ls: "lines_in (view (w_db w)) ls" "lines_inv ls"
    and c: "w_curl w = outcome # rest" "getLines (e_config E) outcome = (response, reqs)"
    and h: "camera_lines (e_json E) response = Inr items" "map_res http_line items = Inr http"
  shows "\<exists>d. handle_line_select_all_request E j w =
      send E (json_obj [(''request_id'', JInt 12), (''data'', JArray (map line_json (real_lines http (sort_key cl_name ls))))])
        (w\<lparr>w_curl := rest, w_http := w_http w @ reqs, w_db := d\<rparr>)
    \<and> lines_in (view d) (filter (\<lambda>l. cl_index l \<in> cl_index ` set http) ls)"
proof -
  let ?w = "w\<lparr>w_curl := rest, w_http := w_http w @ reqs\<rparr>" and ?real = "real_lines http (sort_key cl_name ls)"
  obtain out d1 where s: "select_all_data_lines run (w_db w) = (out, d1)" by (cases "select_all_data_lines run (w_db w)")
  have out: "out = sort_key cl_name ls" "lines_in (view d1) ls"
    using select_all_data_lines_reliable [OF ls(1) s rel] select_all_data_lines_prefix [OF ls(1) s] ls(1) by auto
  obtain ok d2 where d2: "delete_all_data_lines run d1 = (ok, d2)" by (cases "delete_all_data_lines run d1")
  have "lines_in (view d2) []" using delete_all_data_lines_reliable [OF out(2) rel] d2 by simp
  moreover have "list_all line_ok ?real"
    using ls(1) set_real_lines [of http "sort_key cl_name ls"] by (auto simp: lines_in_def list_all_iff)
  ultimately obtain d where d: "act_each (\<lambda>l. ignoring (on_db (insert_data_lines (e_run E) l))) ?real (?w\<lparr>w_db := d2\<rparr>)
      = (Inr (), ?w\<lparr>w_db := d\<rparr>)" "lines_in (view d) (fold add_line ?real [])"
    using each_insert [OF E rel, of "?w\<lparr>w_db := d2\<rparr>" "[]" ?real] by auto
  have "fold add_line ?real [] = filter (\<lambda>l. cl_index l \<in> cl_index ` set http) ls"
    using fold_add_line [OF ls(2), of ?real "\<lambda>_. False"] set_real_lines [of http "sort_key cl_name ls"]
    by (auto intro!: filter_cong)
  moreover have "handle_line_select_all_request E j w =
      send E (json_obj [(''request_id'', JInt 12), (''data'', JArray (map line_json ?real))]) (?w\<lparr>w_db := d\<rparr>)"
    unfolding handle_line_select_all_request_def on_curl_bind [OF c(1), where f = "getLines (e_config E)", OF c(2)] h act_bind_simps on_db_bind Let_def
    by (simp add: E s out(1) d2 act_bind_def [of "act_each _ _"] d(1) [unfolded E])
  ultimately show ?thesis using d(2) by (intro exI [of _ d]) simp
qed

end

text \<open>
  The reply to the request that deletes all lines: it reports success only when none of the
  three tables was empty, although the tables are empty afterwards in every case.
\<close>

lemma tabs_put: "tabs (put_table t T db) = (tabs db)(lower t \<mapsto> T)"
  by (simp add: put_table_def)

lemma ignoring_on_curl: "\<exists>cs reqs. ignoring (on_curl f) w = (Inr (), w\<lparr>w_curl := cs, w_http := reqs\<rparr>)"
proof -
  obtain c cs where c: "(case w_curl w of [] \<Rightarrow> (\<lparr>init_ok = False, chunks = [], perform_ok = False\<rparr>, []) | c # cs \<Rightarrow> (c, cs)) = (c, cs)"
    by fastforce
  obtain r q where "f c = (r, q)" by fastforce
  with c have "ignoring (on_curl f) w = (Inr (), w\<lparr>w_curl := cs, w_http := w_http w @ q\<rparr>)"
    by (simp add: ignoring_def on_curl_def)
  then show ?thesis by blast
qed

lemma each_delete_frame:
  "\<exists>cs reqs. act_each (\<lambda>i. ignoring (on_curl (\<lambda>outcome. deleteLines cfg outcome i))) is w
     = (Inr (), w\<lparr>w_curl := cs, w_http := reqs\<rparr>)"
proof (induction "is" arbitrary: w)
  case Nil
  show ?case by (intro exI [of _ "w_curl w"] exI [of _ "w_http w"]) simp
next
  case (Cons i "is")
  obtain cs reqs where "ignoring (on_curl (\<lambda>outcome. deleteLines cfg outcome i)) w = (Inr (), w\<lparr>w_curl := cs, w_http := reqs\<rparr>)"
    using ignoring_on_curl by blast
  with Cons.IH [of "w\<lparr>w_curl := cs, w_http := reqs\<rparr>"] show ?case by (auto simp: act_bind_def)
qed

text \<open>
  Claim C30: after the request to delete all lines, with a camera that answers and a database
  engine that keeps its contract, the tables of lines, base lines and vertical lines are
  empty; but the reply reports success only if none of them was empty before.
\<close>

theorem line_delete_all_reply:
  assumes "sqlite num (e_run E) view" "reliable num (e_run E) view"
    and "tabs (view (w_db w)) ''lines'' = Some T1" "tabs (view (w_db w)) ''baselines'' = Some T2"
    and "tabs (view (w_db w)) ''verticallineequations'' = Some T3"
    and "w_curl w = outcome # rest" "getLines (e_config E) outcome = (response, reqs)"
    and "camera_lines (e_json E) response = Inr items"
    and "map_res (\<lambda>item. bind_res (json_at_const item ''index'') get_int) items = Inr indexs"
  shows "\<exists>d cs hs. handle_line_delete_all_request E j w =
      send E (json_obj [(''request_id'', JInt 13),
          (''delete_success'', flag (rows T1 \<noteq> [] \<and> rows T2 \<noteq> [] \<and> rows T3 \<noteq> []))])
        (w\<lparr>w_curl := cs, w_http := hs, w_db := d\<rparr>)
    \<and> tabs (view d) = (tabs (view (w_db w)))(''lines'' \<mapsto> T1\<lparr>rows := []\<rparr>, ''baselines'' \<mapsto> T2\<lparr>rows := []\<rparr>,
        ''verticallineequations'' \<mapsto> T3\<lparr>rows := []\<rparr>)"
proof -
  let ?run = "e_run E"
  note del = sqlite.delete_reliable [OF assms(1) _ assms(2)]
  obtain d1 where d1: "delete_all_data_lines ?run (w_db w) = (rows T1 \<noteq> [], d1)"
      "view d1 = put_table ''lines'' (T1\<lparr>rows := []\<rparr>) (view (w_db w))"
    using del [of "w_db w" "''lines''" T1] assms(3) by (auto simp: delete_all_data_lines_def)
  have 2: "tabs (view d1) ''baselines'' = Some T2" using d1(2) assms(4) by (simp add: tabs_put)
  obtain d2 where d2: "delete_all_data_baseLines ?run d1 = (rows T2 \<noteq> [], d2)"
      "view d2 = put_table ''baselines'' (T2\<lparr>rows := []\<rparr>) (view d1)"
    using del [of d1 "''baselines''" T2] 2 by (auto simp: delete_all_data_baseLines_def)
  have 3: "tabs (view d2) ''verticallineequations'' = Some T3" using d1(2) d2(2) assms(5) by (simp add: tabs_put)
  obtain d3 where d3: "delete_all_data_verticalLineEquations ?run d2 = (rows T3 \<noteq> [], d3)"
      "view d3 = put_table ''verticalLineEquations'' (T3\<lparr>rows := []\<rparr>) (view d2)"
    using del [of d2 "''verticalLineEquations''" T3] 3 by (auto simp: delete_all_data_verticalLineEquations_def)
  let ?w = "w\<lparr>w_curl := rest, w_http := w_http w @ reqs\<rparr>"
  obtain cs hs where e: "act_each (\<lambda>i. ignoring (on_curl (\<lambda>outcome. deleteLines (e_config E) outcome i))) indexs ?w
      = (Inr (), w\<lparr>w_curl := cs, w_http := hs\<rparr>)"
    using each_delete_frame [of "e_config E" indexs ?w] by auto
  have "handle_line_delete_all_request E j w =
      send E (json_obj [(''request_id'', JInt 13),
          (''delete_success'', flag (rows T1 \<noteq> [] \<and> rows T2 \<noteq> [] \<and> rows T3 \<noteq> []))])
        (w\<lparr>w_curl := cs, w_http := hs, w_db := d3\<rparr>)"
    unfolding handle_line_delete_all_request_def assms(8,9) act_bind_simps
      on_curl_bind [OF assms(6), where f = "getLines (e_config E)", OF assms(7)]
    by (simp add: act_bind_def [of "act_each _ _"] e on_db_bind d1(1) d2(1) d3(1))
  moreover have "tabs (view d3) = (tabs (view (w_db w)))(''lines'' \<mapsto> T1\<lparr>rows := []\<rparr>, ''baselines'' \<mapsto> T2\<lparr>rows := []\<rparr>,
        ''verticallineequations'' \<mapsto> T3\<lparr>rows := []\<rparr>)"
    by (simp add: d1(2) d2(2) d3(2) tabs_put)
  ultimately show ?thesis by blast
qed

text \<open>
  Claim C11: a client that asks for all lines gets the lines of the database that the camera
  also has, and the table then holds exactly these: a line the camera no longer has is
  removed, the others keep their data. This is for a database engine that keeps its contract
  and does not fail, and for a table with distinct indices and names, as its constraints
  demand.
\<close>

theorem line_select_all_syncs:
  assumes "sqlite num (e_run E) view" "reliable num (e_run E) view"
    and "lines_in (view (w_db w)) ls" "lines_inv ls"
    and "w_curl w = outcome # rest" "getLines (e_config E) outcome = (response, reqs)"
    and "camera_lines (e_json E) response = Inr items" "map_res http_line items = Inr http"
  shows "\<exists>d. handle_line_select_all_request E j w =
      send E (json_obj [(''request_id'', JInt 12), (''data'', JArray (map line_json (real_lines http (sort_key cl_name ls))))])
        (w\<lparr>w_curl := rest, w_http := w_http w @ reqs, w_db := d\<rparr>)
    \<and> lines_in (view d) (filter (\<lambda>l. cl_index l \<in> cl_index ` set http) ls)"
  by (rule sqlite.line_select_all [OF assms(1) refl assms(2-8)])

text \<open>When the query of this request fails, its handler returns no lines, and all are deleted.\<close>

lemma lines_lost_on_failed_select:
  assumes "e_run E = tape_run" "w_db w = (db, [Some 0])" "lines_in db ls"
    and "w_curl w = outcome # rest" "getLines (e_config E) outcome = (response, reqs)"
    and "camera_lines (e_json E) response = Inr items" "map_res http_line items = Inr http"
  shows "\<exists>db'. handle_line_select_all_request E j w =
      send E (json_obj [(''request_id'', JInt 12), (''data'', JArray [])])
        (w\<lparr>w_curl := rest, w_http := w_http w @ reqs, w_db := (db', [])\<rparr>) \<and> lines_in db' []"
proof -
  obtain T where T: "tabs db ''lines'' = Some T" "columns T = lines_cols" using assms(3) by (rule lines_in_table)
  have s: "select_all_data_lines tape_run (db, [Some 0]) = ([], (db, []))"
    by (simp add: select_all_data_lines_def try_query_def tape_run_def select_lines_exec [OF assms(3)])
  have "sql_exec db (Delete ''lines'' []) [] = Inr (Changes (length (rows T)), put_table ''lines'' (T\<lparr>rows := []\<rparr>) db)"
    by (simp add: sql_exec.simps with_table_def T selected_def)
  then have d: "delete_all_data_lines tape_run (db, []) = (rows T \<noteq> [], (put_table ''lines'' (T\<lparr>rows := []\<rparr>) db, []))"
    by (simp add: delete_all_data_lines_def try_changes_def tape_run_def)
  have r: "real_lines http [] = []" by (simp add: real_lines_def)
  have "lines_in (put_table ''lines'' (T\<lparr>rows := []\<rparr>) db) []"
    using lines_in_put [of "T\<lparr>rows := []\<rparr>" "[]"] T(2) by simp
  moreover have "handle_line_select_all_request E j w =
      send E (json_obj [(''request_id'', JInt 12), (''data'', JArray [])])
        (w\<lparr>w_curl := rest, w_http := w_http w @ reqs, w_db := (put_table ''lines'' (T\<lparr>rows := []\<rparr>) db, [])\<rparr>)"
    unfolding handle_line_select_all_request_def assms(6,7) act_bind_simps on_db_bind Let_def
      on_curl_bind [OF assms(4), where f = "getLines (e_config E)", OF assms(5)]
    by (simp add: assms(1,2) s d r)
  ultimately show ?thesis by blast
qed

section \<open>Examples\<close>

definition example_config :: AppConfig where
  "example_config =
     \<lparr>username = ''admin'', password = ''pw'', host = ''cam'', rtsp_port = ''554'', rtsp_path = ''/p'',
      db_file = ''log.db'', trackid = ''t'', dist_threshold = 0, parallelism_threshold = 0,
      frame_cache_size = 1, history_size = 1, scale_x = 1, scale_y = 1, base_x = 0, base_y = 0,
      board_ports = Map.empty, retry_count = 1, timeout_ms = 100\<rparr>"

text \<open>A password is its own hash here, except that the hash calls from \<open>n\<close> on fail.\<close>

definition example_env :: "nat \<Rightarrow> database env" where
  "example_env n =
     \<lparr>e_run = sure_run, e_json = \<lparr>dump = (\<lambda>j. Inr ''{}''), parse = (\<lambda>s. Some (json_obj [(''camera'', JString s)]))\<rparr>,
      e_fl = (\<lambda>r. r), e_hmac = toy_hmac, e_pwhash = (\<lambda>k s. if k < n then Some s else None),
      e_pwverify = (=), e_slack = 14, e_config = example_config, e_now = 1700000000,
      e_rnd = (\<lambda>k. 7 * k), e_dis = (\<lambda>k. k)\<rparr>"

lemma example_env_sel [simp]:
  "e_run (example_env n) = sure_run" "e_pwverify (example_env n) = (=)" "e_hmac (example_env n) = toy_hmac"
  "e_slack (example_env n) = 14" "e_now (example_env n) = 1700000000" "e_fl (example_env n) = (\<lambda>r. r)"
  "e_rnd (example_env n) = (\<lambda>k. 7 * k)" "e_dis (example_env n) = (\<lambda>k. k)"
  by (simp_all add: example_env_def)

definition example_world :: "database \<Rightarrow> database world" where
  "example_world db =
     \<lparr>w_db = db, w_otp = empty_manager, w_ssl = [], w_wire = [], w_replies = [], w_curl = [], w_http = []\<rparr>"

definition alice :: Account where
  "alice = \<lparr>acc_id = ''alice'', acc_passwd = ''pw1'', acc_otp_secret = ''JBSWY3DPEHPK3PXP'', acc_use_otp = True\<rparr>"

definition data_request :: "(string \<times> json) list \<Rightarrow> json" where
  "data_request kvs = json_obj [(''data'', json_obj kvs)]"

lemma data_request_value:
  "distinct (map fst kvs) \<Longrightarrow> data_value get (data_request kvs) k x = (case map_of kvs k of None \<Rightarrow> Inr x | Some v \<Rightarrow> get v)"
  by (simp add: data_value_def data_request_def json_obj_def map_of_fold_obj_put map_of_rev_distinct)

lemma example_send: "\<exists>w'. send (example_env n) r w = (Inr (), w')"
  by (simp add: send_def send_json_response_def example_env_def split: prod.split)

lemma six_digits_numeric:
  assumes "v < 10 ^ 6"
  shows "is_numeric (zero_pad 6 (dec_nat v))" "length (zero_pad 6 (dec_nat v)) = 6"
proof -
  show l: "length (zero_pad 6 (dec_nat v)) = 6" using assms by (simp add: zero_pad_dec_nat length_fixed_digits)
  have "is_digit CHR ''0''" by code_simp
  with l show "is_numeric (zero_pad 6 (dec_nat v))"
    using dec_nat_digits(1) [of v] by (auto simp: zero_pad_replicate list_all_iff is_numeric_def)
qed


definition camera_item :: json where
  "camera_item =
     json_obj [(''index'', JInt 1), (''name'', JString ''gate''), (''mode'', JString ''Right''),
       (''lineCoordinates'', JArray [json_obj [(''x'', JInt 40), (''y'', JInt 80)], json_obj [(''x'', JInt 120), (''y'', JInt 160)]])]"

definition camera_env :: "database env" where
  "camera_env = (example_env 1)\<lparr>e_json := \<lparr>dump = (\<lambda>j. Inr ''{}''),
     parse = (\<lambda>s. Some (json_obj [(''lineCrossing'', JArray [json_obj [(''line'', JArray [camera_item])]])]))\<rparr>\<rparr>"

definition answering :: curl_outcome where
  "answering = \<lparr>init_ok = True, chunks = [''{...}''], perform_ok = True\<rparr>"

lemma camera_env_lines:
  "e_run camera_env = sure_run"
  "camera_lines (e_json camera_env) response = Inr [camera_item]"
  "map_res http_line [camera_item] = Inr [gate\<lparr>cl_x1 := 40, cl_y1 := 80, cl_x2 := 120, cl_y2 := 160\<rparr>]"
  "map_res (\<lambda>item. bind_res (json_at_const item ''index'') get_int) [camera_item] = Inr [1]"
  by (simp_all add: camera_env_def camera_lines_def http_line_def camera_item_def coordinate_def gate_def json_obj_def
      wrap32_def)

theorem line_select_all_syncs_witness:
  "\<exists>w'. handle_line_select_all_request camera_env JNull ((example_world (lines_db [exit_line, gate]))\<lparr>w_curl := [answering]\<rparr>)
      = send camera_env (json_obj [(''request_id'', JInt 12), (''data'', JArray [line_json gate])]) w'
    \<and> lines_in (w_db w') [gate]"
proof -
  let ?w = "(example_world (lines_db [exit_line, gate]))\<lparr>w_curl := [answering]\<rparr>"
  obtain response reqs where g: "getLines (e_config camera_env) answering = (response, reqs)" by fastforce
  have l: "lines_in (w_db ?w) [exit_line, gate]" "lines_inv [exit_line, gate]"
    by (simp_all add: example_world_def example_dbs line_ok_def int32_def exit_line_def gate_def lines_inv_def)
  have "real_lines [gate\<lparr>cl_x1 := 40, cl_y1 := 80, cl_x2 := 120, cl_y2 := 160\<rparr>] (sort_key cl_name [exit_line, gate]) = [gate]"
    by (simp add: real_lines_def gate_def exit_line_def)
  moreover have "filter (\<lambda>l. cl_index l \<in> cl_index ` set [gate\<lparr>cl_x1 := 40, cl_y1 := 80, cl_x2 := 120, cl_y2 := 160\<rparr>]) [exit_line, gate] = [gate]"
    by (simp add: gate_def exit_line_def)
  ultimately show ?thesis
    using line_select_all_syncs [of "\<lambda>_. False" camera_env "\<lambda>d. d" ?w "[exit_line, gate]" answering "[]" response reqs
        "[camera_item]" "[gate\<lparr>cl_x1 := 40, cl_y1 := 80, cl_x2 := 120, cl_y2 := 160\<rparr>]" JNull]
      l g camera_env_lines reliable_sure sqlite.intro [OF conforms_sure]
    by (auto simp del: sort_key_simps)
qed

definition three_tables :: database where
  "three_tables = put_table ''lines'' \<lparr>columns = lines_cols, rows = [], seq = 0\<rparr>
     (put_table ''baselines'' \<lparr>columns = baseLines_cols, rows = [], seq = 0\<rparr>
     (put_table ''verticalLineEquations'' \<lparr>columns = verticalLineEquations_cols, rows = [], seq = 0\<rparr> empty_db))"

theorem line_delete_all_reply_witness:
  "\<exists>w'. handle_line_delete_all_request camera_env JNull ((example_world three_tables)\<lparr>w_curl := [answering]\<rparr>)
      = send camera_env (json_obj [(''request_id'', JInt 13), (''delete_success'', JInt 0)]) w'"
proof -
  let ?w = "(example_world three_tables)\<lparr>w_curl := [answering]\<rparr>"
  obtain response reqs where g: "getLines (e_config camera_env) answering = (response, reqs)" by fastforce
  have t: "tabs three_tables ''lines'' = Some \<lparr>columns = lines_cols, rows = [], seq = 0\<rparr>"
    "tabs three_tables ''baselines'' = Some \<lparr>columns = baseLines_cols, rows = [], seq = 0\<rparr>"
    "tabs three_tables ''verticallineequations'' = Some \<lparr>columns = verticalLineEquations_cols, rows = [], seq = 0\<rparr>"
    by (simp_all add: three_tables_def tabs_put)
  show ?thesis
    using line_delete_all_reply [of "\<lambda>_. False" camera_env "\<lambda>d. d" ?w
        "\<lparr>columns = lines_cols, rows = [], seq = 0\<rparr>" "\<lparr>columns = baseLines_cols, rows = [], seq = 0\<rparr>"
        "\<lparr>columns = verticalLineEquations_cols, rows = [], seq = 0\<rparr>" answering "[]" response reqs "[camera_item]" "[1]" JNull]
      t g camera_env_lines reliable_sure sqlite.intro [OF conforms_sure]
    by (fastforce simp: example_world_def flag_def)
qed

end
