(* ===== verification/Tcp_Server.thy ===== *)
theory Tcp_Server
  imports Sessions
begin

text \<open>
  src/src/tcp_server.cpp and the two bounding box requests of request_handlers.cpp: set-up of
  a connection, routing, and the threads of every client. The server is a transition system
  in which a step is one action of one thread; a request is one step, a \<open>join\<close> is a step that
  waits for the thread. The database, the one-time passwords and the bounding box buffer are
  shared by all clients.
\<close>

section \<open>Connection set-up\<close>

datatype sock_op = Free_ssl | Close_socket

text \<open>The arguments say whether \<open>SSL_new\<close> and \<open>SSL_accept\<close> succeed.\<close>

definition setup_ssl_connection :: "bool \<Rightarrow> bool \<Rightarrow> bool \<times> sock_op list" where
  "setup_ssl_connection new_ok accept_ok =
     (if \<not> new_ok then (False, [Close_socket])
      else if \<not> accept_ok then (False, [Free_ssl, Close_socket])
      else (True, []))"

text \<open>
  The start of the server: what OpenSSL, the database, libcurl and the socket calls answer
  is an argument. Each failure ends the function in its own way.
\<close>

record startup =
  u_config :: "bool res"
  u_ctx :: bool
  u_certificate :: bool
  u_key :: bool
  u_database :: "unit res"
  u_curl :: bool
  u_bind :: bool
  u_listen :: bool

datatype run_end = Returns int | Exits int | Throws exn | Runs

definition init_openssl :: bool where
  "init_openssl = True"

definition configure_ssl_context :: "bool \<Rightarrow> bool \<Rightarrow> int option" where
  "configure_ssl_context certificate_ok key_ok =
     (if \<not> certificate_ok then Some 1 else if \<not> key_ok then Some 1 else None)"

text \<open>
  The accept loop goes on for ever; of the descriptors it has got so far, a negative one is
  skipped and every other one is given to a thread of its own.
\<close>

fun accept_loop :: "int list \<Rightarrow> int list" where
  "accept_loop [] = []"
| "accept_loop (new_socket # accepts) =
     (if new_socket < 0 then accept_loop accepts else new_socket # accept_loop accepts)"

definition tcp_run :: "startup \<Rightarrow> int list \<Rightarrow> run_end \<times> int list" where
  "tcp_run u accepts =
     (case u_config u of
        Inl e \<Rightarrow> (Throws e, [])
      | Inr ok \<Rightarrow>
          if \<not> ok then (Returns (-1), [])
          else if \<not> init_openssl then (Returns (-1), [])
          else if \<not> u_ctx u then (Returns (-1), [])
          else case configure_ssl_context (u_certificate u) (u_key u) of
                 Some code \<Rightarrow> (Exits code, [])
               | None \<Rightarrow>
                   (case u_database u of
                      Inl e \<Rightarrow> (Throws e, [])
                    | Inr _ \<Rightarrow>
                        if \<not> u_curl u then (Returns (-1), [])
                        else if \<not> u_bind u then (Returns (-1), [])
                        else if \<not> u_listen u then (Returns (-1), [])
                        else (Runs, accept_loop accepts)))"

section \<open>Clients and threads\<close>

text \<open>A thread object: none, a thread that runs, or one that has ended and is not yet joined.\<close>

datatype thread = No_thread | Running | Finished

definition joinable :: "thread \<Rightarrow> bool" where
  "joinable t = (t \<noteq> No_thread)"

text \<open>Where \<open>handle_client\<close> is: in its loop, at the joins of a stop request or of the clean-up.\<close>

datatype pc = Serving | Stop_push | Stop_meta | Clean_push | Clean_meta | Closed

record client =
  c_pc :: pc
  bbox_push_enabled :: bool
  push_thread :: thread
  metadata_thread :: thread
  c_xml :: string
  c_wire :: bytes
  c_replies :: "json list"
  c_http :: "http_request list"
  c_ops :: "sock_op list"

definition new_client :: client where
  "new_client =
     \<lparr>c_pc = Serving, bbox_push_enabled = False, push_thread = No_thread, metadata_thread = No_thread,
      c_xml = [], c_wire = [], c_replies = [], c_http = [], c_ops = []\<rparr>"

record 'd server =
  s_db :: 'd
  s_otp :: OTPManager
  s_bbox :: bbox_state
  s_clients :: "nat \<Rightarrow> client option"
  s_down :: "exn option"

text \<open>The state a handler sees: the shared part, and the connection of its client.\<close>

definition world_of :: "'d server \<Rightarrow> client \<Rightarrow> write_event list \<Rightarrow> curl_outcome list \<Rightarrow> 'd world" where
  "world_of s c events outcomes =
     \<lparr>w_db = s_db s, w_otp = s_otp s, w_ssl = events, w_wire = c_wire c, w_replies = c_replies c,
      w_curl = outcomes, w_http = c_http c\<rparr>"

definition put_client :: "nat \<Rightarrow> client \<Rightarrow> 'd server \<Rightarrow> 'd server" where
  "put_client i c s = s\<lparr>s_clients := (s_clients s)(i \<mapsto> c)\<rparr>"

definition put_world :: "nat \<Rightarrow> client \<Rightarrow> 'd world \<Rightarrow> 'd server \<Rightarrow> 'd server" where
  "put_world i c w s =
     put_client i (c\<lparr>c_wire := w_wire w, c_replies := w_replies w, c_http := w_http w\<rparr>)
       (s\<lparr>s_db := w_db w, s_otp := w_otp w\<rparr>)"

section \<open>The bounding box requests\<close>

text \<open>
  Assigning a new thread to an object that is still joinable ends the process.
\<close>

definition start_thread :: "thread \<Rightarrow> thread res" where
  "start_thread t = (if joinable t then Inl (UB ''std::terminate: joinable thread'') else Inr Running)"

definition handle_bbox_start_request :: "bbox_state \<Rightarrow> client \<Rightarrow> (bbox_state \<times> client) res" where
  "handle_bbox_start_request b c =
     (if bbox_push_enabled c then Inr (b, c)
      else bind_res (start_thread (metadata_thread c)) (\<lambda>meta.
           bind_res (start_thread (push_thread c)) (\<lambda>push.
             Inr (start_metadata_parser b,
                  c\<lparr>metadata_thread := meta, c_xml := [], bbox_push_enabled := True, push_thread := push\<rparr>))))"

text \<open>
  One round of the loop of the push thread in which it is time to send: the thread ends when
  the flag is off or a send fails. A round before the next sending time does nothing.
\<close>

definition push_round ::
  "json_text \<Rightarrow> int \<Rightarrow> write_event list \<Rightarrow> bbox_state \<Rightarrow> client \<Rightarrow> client res \<times> bbox_state" where
  "push_round J now events b c =
     (if \<not> bbox_push_enabled c then (Inr (c\<lparr>push_thread := Finished\<rparr>), b)
      else case send_bboxes_to_client J now events b of
             (Inl e, b', sent) \<Rightarrow> (Inl e, b')
           | (Inr success, b', sent) \<Rightarrow>
               (Inr (c\<lparr>c_wire := c_wire c @ sent, push_thread := (if success then Running else Finished)\<rparr>), b'))"

text \<open>The request up to its first join; \<open>join_stop\<close> has the rest.\<close>

definition handle_bbox_stop_request :: "client \<Rightarrow> client" where
  "handle_bbox_stop_request c =
     (if bbox_push_enabled c then c\<lparr>bbox_push_enabled := False, c_pc := Stop_push\<rparr> else c)"

text \<open>What follows a join; None while the thread that is joined runs.\<close>

definition join_stop :: "bbox_state \<Rightarrow> client \<Rightarrow> (bbox_state \<times> client) option" where
  "join_stop b c =
     (if c_pc c = Stop_push \<and> push_thread c \<noteq> Running
      then Some (stop_metadata_parser b, c\<lparr>push_thread := No_thread, c_pc := Stop_meta\<rparr>)
      else if c_pc c = Stop_meta \<and> metadata_thread c \<noteq> Running
      then Some (clear_bbox_buffer b, c\<lparr>metadata_thread := No_thread, c_pc := Serving\<rparr>)
      else None)"

definition cleanup_client_connection :: "client \<Rightarrow> client option" where
  "cleanup_client_connection c =
     (if c_pc c = Clean_push \<and> push_thread c \<noteq> Running
      then Some (c\<lparr>push_thread := No_thread, c_pc := Clean_meta\<rparr>)
      else if c_pc c = Clean_meta \<and> metadata_thread c \<noteq> Running
      then Some (c\<lparr>metadata_thread := No_thread, c_pc := Closed, c_ops := c_ops c @ [Free_ssl, Close_socket]\<rparr>)
      else None)"

section \<open>Routing\<close>

text \<open>The handler of a request that runs in the thread of the client alone.\<close>

definition handler_of :: "'d env \<Rightarrow> json \<Rightarrow> int \<Rightarrow> ('d, unit) handler" where
  "handler_of E j request_id =
     (if request_id = 1 then handle_detection_request E j
      else if request_id = 2 then handle_line_insert_request E j
      else if request_id = 3 then handle_line_select_all_request E j
      else if request_id = 4 then handle_line_delete_all_request E j
      else if request_id = 5 then handle_baseline_insert_request E j
      else if request_id = 6 then handle_vertical_line_insert_request E j
      else if request_id = 7 then handle_baseline_select_all_request E j
      else if request_id = 8 then handle_login_step1_request E j
      else if request_id = 9 then handle_signup_request E j
      else if request_id = 22 then handle_login_step2_request E j
      else act_ret ())"

definition route_request ::
  "'d env \<Rightarrow> json \<Rightarrow> write_event list \<Rightarrow> curl_outcome list \<Rightarrow> nat \<Rightarrow> client \<Rightarrow> 'd server \<Rightarrow> unit res \<times> 'd server" where
  "route_request E j events outcomes i c s =
     (case json_value get_int j ''request_id'' (-1) of
        Inl e \<Rightarrow> (Inl e, s)
      | Inr request_id \<Rightarrow>
          if request_id = 31 then
            (case handle_bbox_start_request (s_bbox s) c of
               Inl e \<Rightarrow> (Inl e, s)
             | Inr (b, c') \<Rightarrow> (Inr (), put_client i c' (s\<lparr>s_bbox := b\<rparr>)))
          else if request_id = 32 then (Inr (), put_client i (handle_bbox_stop_request c) s)
          else (case handler_of E j request_id (world_of s c events outcomes) of
                  (r, w) \<Rightarrow> (r, put_world i c w s)))"

text \<open>
  One round of the loop of \<open>handle_client\<close>. A message that cannot be received ends the loop
  and begins the clean-up. Only a \<open>parse_error\<close> of the routing is caught; every other
  exception leaves the thread function and ends the process, and so does a \<open>parse_error\<close> of
  the reception, which is outside the \<open>try\<close> block.
\<close>

definition crash :: "exn \<Rightarrow> 'd server \<Rightarrow> 'd server" where
  "crash e s = s\<lparr>s_down := Some e\<rparr>"

definition client_round ::
  "'d env \<Rightarrow> read_event list \<Rightarrow> write_event list \<Rightarrow> curl_outcome list \<Rightarrow> nat \<Rightarrow> client \<Rightarrow> 'd server \<Rightarrow> 'd server" where
  "client_round E reads events outcomes i c s =
     (case fst (receive_json_message (e_json E) reads) of
        Inl e \<Rightarrow> crash e s
      | Inr None \<Rightarrow> put_client i (c\<lparr>bbox_push_enabled := False, c_pc := Clean_push\<rparr>) s
      | Inr (Some j) \<Rightarrow>
          (case dump (e_json E) j of
             Inl e \<Rightarrow> crash e s
           | Inr _ \<Rightarrow>
               (case route_request E j events outcomes i c s of
                  (Inr _, s') \<Rightarrow> s'
                | (Inl Json_parse_error, s') \<Rightarrow> s'
                | (Inl e, s') \<Rightarrow> crash e s')))"

section \<open>The transition system\<close>

text \<open>
  \<open>Es\<close> holds the environments a step can meet. The metadata thread ends when the parser is
  stopped or the stream ends or was never opened (\<open>Stream_end\<close>). An exception in a thread
  ends the process.
\<close>

datatype label =
    Accept nat | Round nat | Join nat
  | Push nat
  | Meta_chunk nat | Meta_stopped nat | Stream_end nat

inductive server_step :: "'d env set \<Rightarrow> label \<Rightarrow> 'd server \<Rightarrow> 'd server \<Rightarrow> bool" for Es where
  accept: "s_down s = None \<Longrightarrow> E \<in> Es \<Longrightarrow> s_clients s i = None \<Longrightarrow>
    setup_ssl_connection True True = (True, ops) \<Longrightarrow>
    initialize_database_tables (e_run E) (s_db s) = (Inr (), d) \<Longrightarrow>
    server_step Es (Accept i) s (put_client i new_client (s\<lparr>s_db := d\<rparr>))"
| accept_throws: "s_down s = None \<Longrightarrow> E \<in> Es \<Longrightarrow> s_clients s i = None \<Longrightarrow>
    initialize_database_tables (e_run E) (s_db s) = (Inl e, d) \<Longrightarrow>
    server_step Es (Accept i) s (crash e (s\<lparr>s_db := d\<rparr>))"
| round: "s_down s = None \<Longrightarrow> E \<in> Es \<Longrightarrow> s_clients s i = Some c \<Longrightarrow> c_pc c = Serving \<Longrightarrow>
    server_step Es (Round i) s (client_round E reads events outcomes i c s)"
| join_stop: "s_down s = None \<Longrightarrow> s_clients s i = Some c \<Longrightarrow> join_stop (s_bbox s) c = Some (b, c') \<Longrightarrow>
    server_step Es (Join i) s (put_client i c' (s\<lparr>s_bbox := b\<rparr>))"
| join_clean: "s_down s = None \<Longrightarrow> s_clients s i = Some c \<Longrightarrow> cleanup_client_connection c = Some c' \<Longrightarrow>
    server_step Es (Join i) s (put_client i c' s)"
| push: "s_down s = None \<Longrightarrow> E \<in> Es \<Longrightarrow> s_clients s i = Some c \<Longrightarrow> push_thread c = Running \<Longrightarrow>
    push_round (e_json E) now events (s_bbox s) c = (Inr c', b) \<Longrightarrow>
    server_step Es (Push i) s (put_client i c' (s\<lparr>s_bbox := b\<rparr>))"
| push_throws: "s_down s = None \<Longrightarrow> E \<in> Es \<Longrightarrow> s_clients s i = Some c \<Longrightarrow> push_thread c = Running \<Longrightarrow>
    push_round (e_json E) now events (s_bbox s) c = (Inl e, b) \<Longrightarrow>
    server_step Es (Push i) s (crash e (s\<lparr>s_bbox := b\<rparr>))"
| meta_chunk: "s_down s = None \<Longrightarrow> E \<in> Es \<Longrightarrow> s_clients s i = Some c \<Longrightarrow> metadata_thread c = Running \<Longrightarrow>
    parser_running (s_bbox s) \<Longrightarrow>
    parse_packets (e_fl E) running clock1 clock2 k (c_xml c @ c_str buffer) (s_bbox s) = Inr (k', xml, b) \<Longrightarrow>
    server_step Es (Meta_chunk i) s (put_client i (c\<lparr>c_xml := xml\<rparr>) (s\<lparr>s_bbox := b\<rparr>))"
| meta_throws: "s_down s = None \<Longrightarrow> E \<in> Es \<Longrightarrow> s_clients s i = Some c \<Longrightarrow> metadata_thread c = Running \<Longrightarrow>
    parser_running (s_bbox s) \<Longrightarrow>
    parse_packets (e_fl E) running clock1 clock2 k (c_xml c @ c_str buffer) (s_bbox s) = Inl e \<Longrightarrow>
    server_step Es (Meta_chunk i) s (crash e s)"
| meta_stopped: "s_down s = None \<Longrightarrow> s_clients s i = Some c \<Longrightarrow> metadata_thread c = Running \<Longrightarrow>
    \<not> parser_running (s_bbox s) \<Longrightarrow>
    server_step Es (Meta_stopped i) s (put_client i (c\<lparr>metadata_thread := Finished\<rparr>) s)"
| stream_end: "s_down s = None \<Longrightarrow> s_clients s i = Some c \<Longrightarrow> metadata_thread c = Running \<Longrightarrow>
    server_step Es (Stream_end i) s (put_client i (c\<lparr>metadata_thread := Finished\<rparr>) s)"

inductive_cases server_stepE: "server_step Es l s s'"

section \<open>The threads of a client\<close>

fun threads_ok :: "pc \<Rightarrow> bool \<Rightarrow> thread \<Rightarrow> thread \<Rightarrow> sock_op list \<Rightarrow> bool" where
  "threads_ok Serving enabled push meta ops = (joinable push = enabled \<and> joinable meta = enabled \<and> ops = [])"
| "threads_ok Stop_push enabled push meta ops = (\<not> enabled \<and> joinable push \<and> joinable meta \<and> ops = [])"
| "threads_ok Stop_meta enabled push meta ops = (\<not> enabled \<and> \<not> joinable push \<and> joinable meta \<and> ops = [])"
| "threads_ok Clean_push enabled push meta ops = (\<not> enabled \<and> ops = [])"
| "threads_ok Clean_meta enabled push meta ops = (\<not> enabled \<and> \<not> joinable push \<and> ops = [])"
| "threads_ok Closed enabled push meta ops = (\<not> enabled \<and> \<not> joinable push \<and> \<not> joinable meta \<and> ops = [Free_ssl, Close_socket])"

definition client_ok :: "client \<Rightarrow> bool" where
  "client_ok c = threads_ok (c_pc c) (bbox_push_enabled c) (push_thread c) (metadata_thread c) (c_ops c)"

definition server_ok :: "'d server \<Rightarrow> bool" where
  "server_ok s = (\<forall>i c. s_clients s i = Some c \<longrightarrow> client_ok c)"

lemma put_simps [simp]:
  "s_clients (put_client i c s) = (s_clients s)(i \<mapsto> c)"
  "s_bbox (put_client i c s) = s_bbox s"
  "s_down (put_client i c s) = s_down s"
  "s_clients (crash e s) = s_clients s"
  "s_bbox (crash e s) = s_bbox s"
  "s_down (crash e s) = Some e"
  "s_bbox (put_world i c w s) = s_bbox s"
  "s_down (put_world i c w s) = s_down s"
  "s_clients (put_world i c w s) =
     (s_clients s)(i \<mapsto> c\<lparr>c_wire := w_wire w, c_replies := w_replies w, c_http := w_http w\<rparr>)"
  by (simp_all add: put_client_def crash_def put_world_def)

lemma joinable_simps [simp]: "joinable Running" "joinable Finished" "\<not> joinable No_thread"
  by (simp_all add: joinable_def)

lemma server_ok_put: "server_ok s \<Longrightarrow> s_clients s' = (s_clients s)(i \<mapsto> c) \<and> client_ok c \<Longrightarrow> server_ok s'"
  by (simp add: server_ok_def)

lemma server_ok_new: "server_ok s \<Longrightarrow> s_clients s' = s_clients s \<Longrightarrow> server_ok (put_client i new_client s')"
  by (simp add: server_ok_def new_client_def client_ok_def)

lemma server_ok_same: "server_ok s \<Longrightarrow> s_clients s' = s_clients s \<Longrightarrow> server_ok s'"
  by (simp add: server_ok_def)

text \<open>What a request changes of the client that made it.\<close>

lemma route_request_clients:
  assumes "c_pc c = Serving" "client_ok c" "s_clients s i = Some c" "route_request E j events outcomes i c s = (r, s')"
  shows "\<exists>c'. s_clients s' = (s_clients s)(i \<mapsto> c') \<and> client_ok c'"
proof -
  have same: "\<exists>c'. s_clients s = (s_clients s)(i \<mapsto> c') \<and> client_ok c'"
    using assms(2,3) by (intro exI [of _ c]) auto
  have w: "\<exists>c'. s_clients (put_world i c w s) = (s_clients s)(i \<mapsto> c') \<and> client_ok c'" for w
    using assms(2) by (auto simp: client_ok_def)
  have stop: "client_ok (handle_bbox_stop_request c)"
    using assms(1,2) by (auto simp: handle_bbox_stop_request_def client_ok_def)
  have start: "client_ok c'" if "handle_bbox_start_request b c = Inr (b', c')" for b b' c'
    using that assms(1,2)
    by (auto simp: handle_bbox_start_request_def start_thread_def client_ok_def split: if_splits)
  show ?thesis
    using assms(4) same w stop start
    by (auto simp: route_request_def split: sum.splits if_splits prod.splits)
qed

lemma client_round_clients:
  assumes "c_pc c = Serving" "client_ok c" "s_clients s i = Some c"
  shows "\<exists>c'. s_clients (client_round E reads events outcomes i c s) = (s_clients s)(i \<mapsto> c') \<and> client_ok c'"
proof -
  have same: "\<exists>c'. s_clients (crash e s) = (s_clients s)(i \<mapsto> c') \<and> client_ok c'" for e
    using assms(2,3) by (intro exI [of _ c]) auto
  have clean: "client_ok (c\<lparr>bbox_push_enabled := False, c_pc := Clean_push\<rparr>)"
    using assms(1,2) by (simp add: client_ok_def)
  have routed: "\<exists>c'. s_clients (case route_request E j events outcomes i c s of
      (Inr _, s') \<Rightarrow> s' | (Inl Json_parse_error, s') \<Rightarrow> s' | (Inl e, s') \<Rightarrow> crash e s')
      = (s_clients s)(i \<mapsto> c') \<and> client_ok c'" for j
    using route_request_clients [OF assms, of E j events outcomes]
    by (auto split: prod.split sum.split exn.split)
  show ?thesis
    unfolding client_round_def using same clean routed
    by (auto split: sum.split option.split)
qed

lemma threads_ok_cong:
  "joinable p = joinable p' \<Longrightarrow> joinable m = joinable m' \<Longrightarrow> threads_ok pc e p m ops = threads_ok pc e p' m' ops"
  by (cases pc) simp_all

lemma server_ok_upd:
  assumes "server_ok s" "s_clients s i = Some c" "s_clients s' = s_clients s" "client_ok c \<Longrightarrow> client_ok c'"
  shows "server_ok (put_client i c' s')"
  using assms by (auto simp: server_ok_def)

lemma client_ok_running:
  "client_ok c \<Longrightarrow> push_thread c = Running \<Longrightarrow> joinable p \<Longrightarrow> client_ok (c\<lparr>c_wire := x, push_thread := p\<rparr>)"
  "client_ok c \<Longrightarrow> push_thread c = Running \<Longrightarrow> joinable p \<Longrightarrow> client_ok (c\<lparr>push_thread := p\<rparr>)"
  "client_ok c \<Longrightarrow> metadata_thread c = Running \<Longrightarrow> joinable p \<Longrightarrow> client_ok (c\<lparr>metadata_thread := p\<rparr>)"
  "client_ok c \<Longrightarrow> client_ok (c\<lparr>c_xml := xml\<rparr>)"
  using threads_ok_cong [of "push_thread c" p "metadata_thread c" "metadata_thread c" "c_pc c"]
    threads_ok_cong [of "push_thread c" "push_thread c" "metadata_thread c" p "c_pc c"]
  by (simp_all add: client_ok_def)

lemma client_ok_join:
  "join_stop b c = Some (b', c') \<Longrightarrow> client_ok c \<Longrightarrow> client_ok c'"
  "cleanup_client_connection c = Some c' \<Longrightarrow> client_ok c \<Longrightarrow> client_ok c'"
  by (auto simp: join_stop_def cleanup_client_connection_def client_ok_def split: if_splits)

lemma client_ok_push:
  "push_round J now events b c = (Inr c', b') \<Longrightarrow> push_thread c = Running \<Longrightarrow> client_ok c \<Longrightarrow> client_ok c'"
  by (auto simp: push_round_def client_ok_running split: if_splits prod.splits sum.splits)

lemma server_step_ok: "server_step Es l s s' \<Longrightarrow> server_ok s \<Longrightarrow> server_ok s'"
proof (induction rule: server_step.induct)
  case (accept s E i ops d)
  then show ?case by - (rule server_ok_new [of s], simp_all)
next
  case (accept_throws s E i e d)
  then show ?case by - (rule server_ok_same [of s], simp_all)
next
  case (round s E i c reads events outcomes)
  then have "client_ok c" by (simp add: server_ok_def)
  from client_round_clients [OF round.hyps(4) this round.hyps(3)] show ?case
    using server_ok_put [OF round.prems] by blast
next
  case (join_stop s i c b c')
  then show ?case
    by - (rule server_ok_upd [of s i c], simp_all add: client_ok_join)
next
  case (join_clean s i c c')
  then show ?case
    by - (rule server_ok_upd [of s i c], simp_all add: client_ok_join)
next
  case (push s E i c now events c' b)
  then show ?case
    by - (rule server_ok_upd [of s i c], simp_all add: client_ok_push)
next
  case (push_throws s E i c now events e b)
  then show ?case by - (rule server_ok_same [of s], simp_all)
next
  case (meta_chunk s E i c running clock1 clock2 k buffer k' xml b)
  then show ?case by - (rule server_ok_upd [of s i c], simp_all add: client_ok_running)
next
  case (meta_throws s E i c running clock1 clock2 k buffer e)
  then show ?case by - (rule server_ok_same [of s], simp_all)
next
  case (meta_stopped s i c)
  then show ?case by - (rule server_ok_upd [of s i c], simp_all add: client_ok_running)
next
  case (stream_end s i c)
  then show ?case by - (rule server_ok_upd [of s i c], simp_all add: client_ok_running)
qed

interpretation srv: inv_system "\<lambda>s s'. \<exists>l. server_step Es l s s'" server_ok for Es
  by unfold_locales (auto intro: server_step_ok)

section \<open>Parsing never switches the parser off\<close>

lemma parse_packets_running:
  "parse_packets fl running clock1 clock2 k xml st = Inr (k', xml', st') \<Longrightarrow> parser_running st' = parser_running st"
proof (induction fl running clock1 clock2 k xml st arbitrary: k' xml' st' rule: parse_packets.induct)
  case (1 fl running clock1 clock2 k xml st)
  show ?case
  proof (cases "if running k then find_sub stream_end xml else None")
    case None
    then show ?thesis using 1(2) by (subst (asm) parse_packets.simps) simp
  next
    case (Some p)
    obtain boxes where b: "parse_objects fl (regex_all object_regex (take p xml)) = Inr boxes"
      using 1(2) Some by (subst (asm) parse_packets.simps) (auto simp: bind_res_Inr_iff)
    have "parse_packets fl running clock1 clock2 (Suc k) (drop (p + length stream_end) xml)
        ((update_bbox_buffer (clock1 k) (clock2 k) boxes st)\<lparr>latest_bboxes := boxes\<rparr>) = Inr (k', xml', st')"
      using 1(2) Some b by (subst (asm) parse_packets.simps) simp
    from 1(1) [OF Some b this] show ?thesis by (simp add: update_bbox_buffer_def)
  qed
qed

lemma send_bboxes_running:
  "send_bboxes_to_client J now events st = (r, st', sent) \<Longrightarrow> parser_running st' = parser_running st"
  by (auto simp: send_bboxes_to_client_def take_due_def Let_def split: list.splits if_splits sum.splits prod.splits)

lemma push_round_frame:
  assumes "push_round J now events b c = (r, b')"
  shows "parser_running b' = parser_running b \<and>
    (case r of Inl e \<Rightarrow> True | Inr c' \<Rightarrow> c_pc c' = c_pc c \<and> metadata_thread c' = metadata_thread c)"
  using assms send_bboxes_running [of J now events b]
  by (auto simp: push_round_def split: if_splits prod.splits sum.splits)

section \<open>Waiting for the stream\<close>

text \<open>A client in the clean-up whose metadata thread still runs while the parser is on.\<close>

definition stuck :: "nat \<Rightarrow> 'd server \<Rightarrow> bool" where
  "stuck i s = (\<exists>c. s_clients s i = Some c \<and> c_pc c = Clean_meta \<and> metadata_thread c = Running \<and>
     parser_running (s_bbox s))"

text \<open>The steps that can end the wait: the end of the stream, and a join of another client.\<close>

definition ends_wait :: "nat \<Rightarrow> label \<Rightarrow> bool" where
  "ends_wait i l = (l = Stream_end i \<or> (\<exists>j. j \<noteq> i \<and> l = Join j))"

lemma route_request_other:
  assumes "route_request E j events outcomes k c s = (r, s')" "parser_running (s_bbox s)" "i \<noteq> k"
  shows "parser_running (s_bbox s') \<and> s_clients s' i = s_clients s i"
  using assms
  by (auto simp: route_request_def handle_bbox_start_request_def start_metadata_parser_def bind_res_Inr_iff
      split: sum.splits if_splits prod.splits)

lemma client_round_other:
  assumes "parser_running (s_bbox s)" "i \<noteq> k"
  shows "parser_running (s_bbox (client_round E reads events outcomes k c s)) \<and>
    s_clients (client_round E reads events outcomes k c s) i = s_clients s i"
proof -
  have "parser_running (s_bbox s') \<and> s_clients s' i = s_clients s i"
    if "route_request E j events outcomes k c s = (r, s')" for j r s'
    using route_request_other [OF that assms] .
  then show ?thesis
    unfolding client_round_def using assms
    by (auto split: sum.split option.split prod.split exn.split)
qed

lemma stuck_step: "server_step Es l s s' \<Longrightarrow> stuck i s \<Longrightarrow> \<not> ends_wait i l \<Longrightarrow> stuck i s'"
proof (induction rule: server_step.induct)
  case (round s E k c reads events outcomes)
  then have "i \<noteq> k" by (auto simp: stuck_def)
  then show ?case using round.prems client_round_other [of s i k] by (auto simp: stuck_def)
next
  case (push s E k c now events c' b)
  then show ?case
    using push_round_frame [OF push.hyps(5)] by (auto simp: stuck_def)
next
  case (push_throws s E k c now events e b)
  then show ?case
    using push_round_frame [OF push_throws.hyps(5)] by (auto simp: stuck_def)
next
  case (join_stop s k c b c')
  then show ?case by (auto simp: stuck_def join_stop_def ends_wait_def split: if_splits)
next
  case (join_clean s k c c')
  then show ?case by (auto simp: stuck_def cleanup_client_connection_def ends_wait_def split: if_splits)
next
  case (meta_chunk s E k c running clock1 clock2 n buffer n' xml b)
  then show ?case using parse_packets_running [OF meta_chunk.hyps(6)] by (auto simp: stuck_def)
qed (auto simp: stuck_def ends_wait_def)

section \<open>Interleavings of unlocked calls\<close>

text \<open>
  A message is written by two calls of \<open>sendAll\<close>. The push thread and the thread of the
  client write to one TLS object without a lock, so the four calls can come in any order that
  keeps each thread's own. Some order makes the reader take something else for a reply that
  starts with a brace.
\<close>

definition writes :: "string \<Rightarrow> bytes list" where
  "writes s = [htonl (of_nat (length s)), bytes_of s]"

lemma writes_garbled:
  assumes "r = CHR 0x7B # r'" "length r < 2 ^ 32" "length p < 2 ^ 24"
  shows "\<exists>ws \<in> shuffles (writes r) (writes p). \<forall>events. sound_reads events \<longrightarrow> incoming events = concat ws @ rest \<longrightarrow>
    (\<exists>body events' events''. recvAll 4 events = (Some (htonl (of_nat (length r))), events') \<and>
       recvAll (length r) events' = (Some body, events'') \<and> body \<noteq> bytes_of r)"
proof -
  let ?ws = "[htonl (of_nat (length r)), htonl (of_nat (length p)), bytes_of p, bytes_of r]"
  have "?ws \<in> shuffles (writes r) (writes p)"
    by (simp add: writes_def)
  moreover have "\<exists>body events' events''. recvAll 4 events = (Some (htonl (of_nat (length r))), events') \<and>
       recvAll (length r) events' = (Some body, events'') \<and> body \<noteq> bytes_of r"
    if ev: "sound_reads events" "incoming events = concat ?ws @ rest" for events
  proof -
    let ?x = "htonl (of_nat (length p)) @ bytes_of p @ bytes_of r @ rest"
    obtain ev1 where 1: "recvAll 4 events = (Some (htonl (of_nat (length r))), ev1)" "sound_reads ev1" "incoming ev1 = ?x"
      using recvAll_next [of events "htonl (of_nat (length r))" ?x 4] ev by auto
    let ?body = "take (length r) ?x"
    have "length ?body = length r" by (simp add: bytes_of_def)
    then obtain ev2 where 2: "recvAll (length r) ev1 = (Some ?body, ev2)"
      using recvAll_next [of ev1 ?body "drop (length r) ?x" "length r"] 1 by (metis append_take_drop_id)
    have "unat (of_nat (length p) :: u32) div 2 ^ 24 = 0"
      using assms(3) by (simp add: unat_of_nat take_bit_eq_mod)
    then have "drop_bit 24 (of_nat (length p) :: u32) = 0"
      by (simp add: drop_bit_eq_div word_unat_eq_iff unat_div_distrib)
    then have "hd ?body = 0" using assms(1) by (simp add: htonl_def)
    moreover have "hd (bytes_of r) = 0x7B" by (simp add: assms(1) bytes_of_def)
    ultimately have "?body \<noteq> bytes_of r" by auto
    with 1 2 show ?thesis by blast
  qed
  ultimately show ?thesis by blast
qed


text \<open>
  The lock of the database is released between the query and the deletion of the request for
  all lines. A line that another client stores in between is deleted and not stored again,
  although that client was told that it is stored.
\<close>

lemma lost_insert:
  assumes "sqlite num (e_run E) view" "reliable num (e_run E) view"
    and ls: "lines_in (view (w_db w)) ls" "lines_inv ls" "list_all line_ok ls"
    and s: "select_all_data_lines (e_run E) (w_db w) = (dbLines, d1)"
    and i: "line_ok l" "insert_data_lines (e_run E) l d1 = (True, d2)"
    and d: "delete_all_data_lines (e_run E) d2 = (ok, d3)"
  shows "\<exists>d4. act_each (\<lambda>realLine. ignoring (on_db (insert_data_lines (e_run E) realLine))) (real_lines http dbLines) (w\<lparr>w_db := d3\<rparr>)
      = (Inr (), w\<lparr>w_db := d4\<rparr>)
    \<and> (\<exists>ls'. lines_in (view d4) ls' \<and> l \<notin> set ls')"
proof -
  note sq = assms(1)
  have out: "dbLines = sort_key cl_name ls" "view d1 = view (w_db w)"
    using sqlite.select_all_data_lines_reliable [OF sq ls(1) s assms(2)]
      sqlite.select_all_data_lines_prefix [OF sq ls(1) s] by auto
  have n: "new_line l ls" "lines_in (view d2) (insort_key cl_index l ls)"
    using sqlite.insert_data_lines_True [OF sq _ i, of ls] ls(1) out(2) by auto
  have "lines_in (view d3) []" using sqlite.delete_all_data_lines_reliable [OF sq n(2) assms(2)] d by simp
  moreover have r: "set (real_lines http dbLines) \<subseteq> set ls" by (auto simp: set_real_lines out(1))
  moreover have "list_all line_ok (real_lines http dbLines)" using r ls(3) by (auto simp: list_all_iff)
  ultimately obtain d4 where d4: "act_each (\<lambda>realLine. ignoring (on_db (insert_data_lines (e_run E) realLine))) (real_lines http dbLines) (w\<lparr>w_db := d3\<rparr>)
      = (Inr (), w\<lparr>w_db := d3, w_db := d4\<rparr>)" "lines_in (view d4) (fold add_line (real_lines http dbLines) [])"
    using sqlite.each_insert [OF sq refl assms(2), of "w\<lparr>w_db := d3\<rparr>" "[]" "real_lines http dbLines"] by auto
  have "fold add_line (real_lines http dbLines) [] = filter (\<lambda>l. l \<in> set (real_lines http dbLines)) ls"
    using fold_add_line [OF ls(2) r, of "\<lambda>_. False"] by simp
  moreover have "l \<notin> set ls" using n(1) by (auto simp: new_line_def list_all_iff)
  ultimately have "\<exists>ls'. lines_in (view d4) ls' \<and> l \<notin> set ls'" using d4(2) by auto
  with d4(1) show ?thesis by (intro exI [of _ d4]) simp
qed

section \<open>Properties\<close>

definition server_init :: "'d \<Rightarrow> 'd server" where
  "server_init d = \<lparr>s_db = d, s_otp = empty_manager, s_bbox = bbox_init, s_clients = Map.empty, s_down = None\<rparr>"

lemma server_ok_init: "server_ok (server_init d)"
  by (simp add: server_ok_def server_init_def)

text \<open>
  Claim C4: in every state the server can reach, whatever its clients send and however their
  threads interleave, a start request of a client that is being served never assigns to a
  thread object that still has a thread, which would end the process; the TLS object of a
  connection is not freed while its push thread exists; and a closed connection has no
  thread left and was freed and closed exactly once.
\<close>

theorem client_threads_safe:
  assumes "(\<lambda>s s'. \<exists>l. server_step Es l s s')\<^sup>*\<^sup>* (server_init d) s" "s_clients s i = Some c"
  shows "(c_pc c = Serving \<longrightarrow> (\<exists>b' c'. handle_bbox_start_request b c = Inr (b', c')))
    \<and> (push_thread c \<noteq> No_thread \<longrightarrow> c_ops c = [])
    \<and> (c_pc c = Closed \<longrightarrow> push_thread c = No_thread \<and> metadata_thread c = No_thread \<and> c_ops c = [Free_ssl, Close_socket])"
proof -
  have "client_ok c"
    using srv.inv_reachable [OF assms(1) server_ok_init] assms(2) by (simp add: server_ok_def)
  then show ?thesis
    by (cases "c_pc c") (auto simp: client_ok_def joinable_def handle_bbox_start_request_def start_thread_def)
qed



section \<open>Examples\<close>

lemma tables_created: "\<exists>d. initialize_database_tables sure_run db = (Inr (), d)"
  by (simp add: initialize_database_tables_def create_table_detections_def create_table_lines_def
      create_table_baseLines_def create_table_verticalLineEquations_def create_table_accounts_def
      create_table_recovery_codes_def exec_throw_def sure_run_def sql_exec.simps)

theorem client_threads_safe_witness:
  "\<exists>s c. (\<lambda>s s'. \<exists>l. server_step {example_env 1} l s s')\<^sup>*\<^sup>* (server_init empty_db) s \<and> s_clients s 0 = Some c
     \<and> (\<exists>b' c'. handle_bbox_start_request bbox_init c = Inr (b', c'))"
proof -
  obtain d where d: "initialize_database_tables sure_run empty_db = (Inr (), d)" using tables_created by blast
  let ?s = "put_client 0 new_client ((server_init empty_db)\<lparr>s_db := d\<rparr>)"
  have "server_step {example_env 1} (Accept 0) (server_init empty_db) ?s"
    using d by (intro server_step.accept [of _ "example_env 1"]) (simp_all add: server_init_def setup_ssl_connection_def)
  then have r: "(\<lambda>s s'. \<exists>l. server_step {example_env 1} l s s')\<^sup>*\<^sup>* (server_init empty_db) ?s" by blast
  have "s_clients ?s 0 = Some new_client" by simp
  from client_threads_safe [OF r this, of bbox_init] r this show ?thesis
    by (auto simp: new_client_def)
qed

definition waiting_server :: "database server" where
  "waiting_server = (server_init empty_db)\<lparr>s_bbox := bbox_init\<lparr>parser_running := True\<rparr>,
     s_clients := [0 \<mapsto> new_client\<lparr>c_pc := Clean_meta, metadata_thread := Running\<rparr>]\<rparr>"



end
