(* ===== verification/Spec2Isabelle.thy ===== *)
theory Spec2Isabelle
  imports Main_Control Tcp_Server
begin

text \<open>
  Verification of the server and control programs.
\<close>

end
